(* ===== verification/Prelude.thy ===== *)
theory Prelude
  imports Main "HOL-Library.Word"
begin

text \<open>
  The vocabulary every other theory of the library shares: the machine integers of
  the Rust sources, decimal rendering of numbers (what \<open>format!\<close> prints for an
  integer), small facts on lists and maps, and three interfaces for components that
  are state machines: \<open>machine_invariant\<close> (every step keeps a predicate),
  \<open>machine_refinement\<close> (every step simulates a step of an abstract machine) and
  \<open>machine_monitor\<close> (the outputs of every step drive an observer that stays in
  agreement with the state). Each lifts a one-step law to runs over any event list.
\<close>

named_theorems defs \<open>defining equations of a component's operations\<close>

section \<open>Machine integers\<close>

type_synonym u8 = "8 word"
type_synonym u16 = "16 word"
type_synonym u32 = "32 word"
type_synonym u64 = "64 word"

text \<open>
  Floating-point values that are only carried are kept as their IEEE bit patterns; where the code
  computes with them (the light of the LED, audio samples) the numbers are exact, without rounding.
\<close>

type_synonym f32_bits = "32 word"
type_synonym f64_bits = "64 word"

text \<open>Rust's \<open>saturating_add\<close> and \<open>checked_add\<close> on an unsigned type.\<close>

definition saturating_add :: "'a::len word \<Rightarrow> 'a word \<Rightarrow> 'a word" where
  "saturating_add a b = (if unat a + unat b < 2 ^ LENGTH('a) then a + b else - 1)"

definition saturating_mul :: "'a::len word \<Rightarrow> 'a word \<Rightarrow> 'a word" where
  "saturating_mul a b = (if unat a * unat b < 2 ^ LENGTH('a) then a * b else - 1)"

definition checked_add :: "'a::len word \<Rightarrow> 'a word \<Rightarrow> 'a word option" where
  "checked_add a b = (if unat a + unat b < 2 ^ LENGTH('a) then Some (a + b) else None)"

lemma unat_saturating_add:
  fixes a b :: "'a::len word"
  shows "unat (saturating_add a b) = min (unat a + unat b) (2 ^ LENGTH('a) - 1)"
  by (auto simp: saturating_add_def unat_word_ariths unsigned_minus_1_eq_mask mask_eq_exp_minus_1)

lemma checked_add_SomeD:
  "checked_add a b = Some c \<Longrightarrow> c = a + b \<and> unat c = unat a + unat b"
  by (auto simp: checked_add_def unat_word_ariths split: if_splits)

section \<open>Decimal rendering\<close>

definition digit_char :: "nat \<Rightarrow> char" where
  "digit_char d = char_of (48 + d)"

fun show_nat :: "nat \<Rightarrow> string" where
  "show_nat n = (if n < 10 then [digit_char n] else show_nat (n div 10) @ [digit_char (n mod 10)])"

declare show_nat.simps [simp del]

lemma show_nat_less10 [simp]: "n < 10 \<Longrightarrow> show_nat n = [digit_char n]"
  by (simp add: show_nat.simps)

lemma show_nat_nonempty [simp]: "show_nat n \<noteq> []"
  by (subst show_nat.simps) simp

definition show_word :: "'a::len word \<Rightarrow> string" where
  "show_word w = show_nat (unat w)"

section \<open>Lists and options\<close>

text \<open>The first of two partial results: how an ordered list of match arms is tried.\<close>

definition or_else :: "'a option \<Rightarrow> 'a option \<Rightarrow> 'a option" where
  "or_else x y = (case x of Some v \<Rightarrow> Some v | None \<Rightarrow> y)"

lemma or_else_simps [simp]:
  "or_else (Some v) y = Some v"
  "or_else None y = y"
  by (simp_all add: or_else_def)

section \<open>State machines with outputs\<close>

text \<open>
  A step takes a state and an event to the next state and the outputs it asks for.
  \<open>run_machine\<close> feeds a list of events and concatenates the outputs in order.
\<close>

fun run_machine :: "('s \<Rightarrow> 'e \<Rightarrow> 's \<times> 'o list) \<Rightarrow> 's \<Rightarrow> 'e list \<Rightarrow> 's \<times> 'o list" where
  "run_machine step s [] = (s, [])"
| "run_machine step s (e # es) =
     (let (s1, out1) = step s e; (s2, out2) = run_machine step s1 es in (s2, out1 @ out2))"

lemma run_machine_Cons [simp]:
  "run_machine step s (e # es) =
     (fst (run_machine step (fst (step s e)) es),
      snd (step s e) @ snd (run_machine step (fst (step s e)) es))"
  by (simp add: split_beta Let_def)

declare run_machine.simps(2) [simp del]

lemma run_machine_append:
  "run_machine step s (es @ fs) =
     (fst (run_machine step (fst (run_machine step s es)) fs),
      snd (run_machine step s es) @ snd (run_machine step (fst (run_machine step s es)) fs))"
  by (induction es arbitrary: s) (simp_all add: split_beta Let_def)

locale machine_invariant =
  fixes step :: "'s \<Rightarrow> 'e \<Rightarrow> 's \<times> 'o list"
    and inv :: "'s \<Rightarrow> bool"
  assumes inv_step: "inv s \<Longrightarrow> inv (fst (step s e))"
begin

lemma inv_run: "inv s \<Longrightarrow> inv (fst (run_machine step s es))"
  by (induction es arbitrary: s) (simp_all add: split_beta Let_def inv_step)

end

locale machine_refinement =
  fixes step :: "'s \<Rightarrow> 'e \<Rightarrow> 's \<times> 'o list"
    and abs :: "'s \<Rightarrow> 'a"
    and astep :: "'a \<Rightarrow> 'e \<Rightarrow> 'a"
  assumes simulates: "abs (fst (step s e)) = astep (abs s) e"
begin

lemma run_simulates: "abs (fst (run_machine step s es)) = foldl astep (abs s) es"
  by (induction es arbitrary: s) (simp_all add: split_beta Let_def simulates)

end

text \<open>
  An observer sees the outputs only. \<open>machine_observer\<close> relates what it has computed
  from them to the state; \<open>machine_monitor\<close> is the case where the relation is a
  function of the state.
\<close>

locale machine_observer =
  fixes step :: "'s \<Rightarrow> 'e \<Rightarrow> 's \<times> 'o list"
    and upd :: "'m \<Rightarrow> 'o \<Rightarrow> 'm"
    and agrees :: "'m \<Rightarrow> 's \<Rightarrow> bool"
  assumes agrees_step: "agrees m s \<Longrightarrow> agrees (foldl upd m (snd (step s e))) (fst (step s e))"
begin

lemma agrees_run:
  "agrees m s \<Longrightarrow>
   agrees (foldl upd m (snd (run_machine step s es))) (fst (run_machine step s es))"
  by (induction es arbitrary: m s) (simp_all add: split_beta Let_def agrees_step)

end

locale machine_monitor =
  fixes step :: "'s \<Rightarrow> 'e \<Rightarrow> 's \<times> 'o list"
    and obs :: "'s \<Rightarrow> 'm"
    and upd :: "'m \<Rightarrow> 'o \<Rightarrow> 'm"
  assumes tracks: "foldl upd (obs s) (snd (step s e)) = obs (fst (step s e))"

sublocale machine_monitor \<subseteq> observer: machine_observer step upd "\<lambda>m s. m = obs s"
  by unfold_locales (simp add: tracks)

context machine_monitor begin

lemma run_tracks:
  "foldl upd (obs s) (snd (run_machine step s es)) = obs (fst (run_machine step s es))"
  by (rule observer.agrees_run) simp

end

section \<open>Chunks of a list\<close>

text \<open>Rust's \<open>chunks\<close> on a slice.\<close>

function chunks :: "nat \<Rightarrow> 'v list \<Rightarrow> 'v list list" where
  "chunks n xs = (if n = 0 \<or> xs = [] then [] else take n xs # chunks n (drop n xs))"
  by pat_completeness auto
termination by (relation "measure (\<lambda>(n, xs). length xs)") auto

declare chunks.simps [simp del]

lemma chunks_Nil [simp]: "chunks n [] = []"
  by (simp add: chunks.simps)

lemma concat_chunks: "0 < n \<Longrightarrow> concat (chunks n xs) = xs"
proof (induction n xs rule: chunks.induct)
  case (1 n xs)
  then show ?case by (subst chunks.simps) simp
qed

lemma chunks_bounds: "c \<in> set (chunks n xs) \<Longrightarrow> c \<noteq> [] \<and> length c \<le> n"
proof (induction n xs rule: chunks.induct)
  case (1 n xs)
  show ?case
    using "1.prems" "1.IH" by (subst (asm) chunks.simps) (fastforce split: if_splits)
qed

lemma chunks_small: "xs \<noteq> [] \<Longrightarrow> length xs \<le> n \<Longrightarrow> chunks n xs = [xs]"
  by (subst chunks.simps) (cases n; simp add: chunks.simps [of _ "[]"])

lemma length_chunks: "length (chunks n xs) \<le> length xs"
proof (induction n xs rule: chunks.induct)
  case (1 n xs)
  show ?case
  proof (cases "n = 0 \<or> xs = []")
    case False
    then have "length (chunks n (drop n xs)) \<le> length (drop n xs)"
      by (rule 1)
    moreover have "length (drop n xs) < length xs"
      using False by (cases xs) auto
    ultimately show ?thesis
      using False by (subst chunks.simps) (simp del: length_drop)
  qed (auto simp: chunks.simps [of 0] chunks_Nil)
qed

section \<open>Bounded queues\<close>

text \<open>
  The contract of the components that keep the newest items and evict the oldest: what is
  retained after a push is the last \<open>cap\<close> of what was retained and the new item.
\<close>

definition keep_last :: "nat \<Rightarrow> 'a list \<Rightarrow> 'a list" where
  "keep_last cap xs = drop (length xs - cap) xs"

lemma length_keep_last [simp]: "length (keep_last cap xs) = min cap (length xs)"
  by (simp add: keep_last_def)

lemma keep_last_id [simp]: "length xs \<le> cap \<Longrightarrow> keep_last cap xs = xs"
  by (simp add: keep_last_def)

lemma keep_last_keep_last: "keep_last cap (keep_last cap xs @ ys) = keep_last cap (xs @ ys)"
proof -
  have "keep_last cap xs @ ys = drop (length xs - cap) (xs @ ys)"
    by (simp add: keep_last_def)
  moreover have "length (xs @ ys) - (length xs - cap) - cap + (length xs - cap) = length (xs @ ys) - cap"
    by simp
  ultimately show ?thesis
    by (simp only: keep_last_def length_drop drop_drop)
qed

text \<open>\<open>inv n q\<close>: the queue is well formed and can take at least \<open>n\<close> more items.\<close>

locale bounded_fifo =
  fixes push :: "'q \<Rightarrow> 'a \<Rightarrow> 'q"
    and contents :: "'q \<Rightarrow> 'b list"
    and item :: "'a \<Rightarrow> 'b"
    and cap :: nat
    and inv :: "nat \<Rightarrow> 'q \<Rightarrow> bool"
  assumes push_contents:
      "inv (Suc n) q \<Longrightarrow> contents (push q x) = keep_last cap (contents q @ [item x])"
    and push_inv: "inv (Suc n) q \<Longrightarrow> inv n (push q x)"
    and bounded: "inv n q \<Longrightarrow> length (contents q) \<le> cap"
begin

lemma contents_pushes:
  "inv (length xs) q \<Longrightarrow> contents (foldl push q xs) = keep_last cap (contents q @ map item xs)"
proof (induction xs arbitrary: q)
  case Nil
  then show ?case using bounded by simp
next
  case (Cons x xs)
  then have step: "inv (Suc (length xs)) q" by simp
  have "contents (foldl push (push q x) xs) = keep_last cap (contents (push q x) @ map item xs)"
    using push_inv [OF step] by (rule Cons.IH)
  also have "\<dots> = keep_last cap (contents q @ item x # map item xs)"
    using keep_last_keep_last [of cap "contents q @ [item x]" "map item xs"]
    by (simp add: push_contents [OF step])
  finally show ?case by simp
qed

lemma pushes_fit:
  "inv (length xs) q \<Longrightarrow> length (contents q) + length xs \<le> cap \<Longrightarrow>
   contents (foldl push q xs) = contents q @ map item xs"
  by (simp add: contents_pushes)

end

end
