(* ===== verification/Hal.thy ===== *)
theory Hal
  imports Prelude
begin

text \<open>
  The data the ports of \<open>crates/booth-hal/src/lib.rs\<close> exchange: GPIO edges, the
  status LED, audio references, the operator's answers and errors, host vitals and the
  telemetry events. Rust enums are datatypes with the source's constructors in the
  source's order (constructors that several enums share are written with their type,
  \<open>State.Idle\<close>, \<open>BoothStatus.Idle\<close>, as in Rust); structs are records. The traits
  themselves are the parameters and locales of the theories that call them.
\<close>

type_synonym AudioId = string
type_synonym QuestionId = string
type_synonym RecordingId = string
type_synonym EventSeq = u64

text \<open>\<open>Result<T, E>\<close>: \<open>Inl\<close> is \<open>Err\<close>, \<open>Inr\<close> is \<open>Ok\<close>.\<close>

type_synonym ('t, 'e) result = "'e + 't"

section \<open>GPIO\<close>

datatype PinRole = RotaryPulse | RotaryRead | Hook | PowerButton

record GpioEdge =
  role :: PinRole
  level :: bool
  at_monotonic_ns :: u64

datatype GpioError = Setup string | Stream string | Unsupported string

section \<open>Status LED\<close>

datatype LedColour = Off | Red | Green | Blue

definition led_colour_str :: "LedColour \<Rightarrow> string" where
  "led_colour_str c = (case c of
     Off \<Rightarrow> ''off'' | Red \<Rightarrow> ''red'' | Green \<Rightarrow> ''green'' | Blue \<Rightarrow> ''blue'')"

datatype LedPattern =
    Steady u8      \<comment> \<open>brightness\<close>
  | Pulse u32      \<comment> \<open>period_ms\<close>
  | Blink u32      \<comment> \<open>period_ms\<close>
  | Fade u32       \<comment> \<open>duration_ms\<close>

definition led_pattern_default :: LedPattern where
  "led_pattern_default = Steady 0"

definition led_pattern_str :: "LedPattern \<Rightarrow> string" where
  "led_pattern_str p = (case p of
     Steady b \<Rightarrow> ''steady('' @ show_word b @ '')''
   | Pulse ms \<Rightarrow> ''pulse('' @ show_word ms @ ''ms)''
   | Blink ms \<Rightarrow> ''blink('' @ show_word ms @ ''ms)''
   | Fade ms \<Rightarrow> ''fade('' @ show_word ms @ ''ms)'')"

datatype LedError = Setup string | Write string | Unsupported string

datatype PowerError = Command string | Unsupported string

section \<open>Audio\<close>

datatype BuiltinTone = DialTone | Ringback | Beep | LineBusy | CallUnavailable

datatype AudioRef =
    Builtin BuiltinTone
  | LocalFile string
  | RemoteUrl string "string option"   \<comment> \<open>URL and expected SHA-256 hex digest\<close>

datatype AudioError =
    NoDevice string | Device string | Source string | Codec string | Io string | Unsupported string

definition audio_error_str :: "AudioError \<Rightarrow> string" where
  "audio_error_str e = (case e of
     NoDevice m \<Rightarrow> ''no audio device available: '' @ m
   | Device m \<Rightarrow> ''audio device error: '' @ m
   | Source m \<Rightarrow> ''audio source unavailable: '' @ m
   | Codec m \<Rightarrow> ''audio codec error: '' @ m
   | AudioError.Io m \<Rightarrow> ''recording I/O error: '' @ m
   | AudioError.Unsupported m \<Rightarrow> ''audio operation unsupported: '' @ m)"

datatype AudioChannel = Input | Output

record AudioLevel =
  channel :: AudioChannel
  peak :: f32_bits
  rms :: f32_bits
  level_at_monotonic_ns :: u64

section \<open>Operator client\<close>

record OperatorQuestion =
  question_id :: QuestionId
  question_audio_url :: string
  question_audio_sha256 :: "string option"
  description :: "string option"

record OperatorMessage =
  message_id :: string
  message_audio_url :: string
  message_audio_sha256 :: "string option"
  message_question_id :: "QuestionId option"

record UploadMetadata =
  sha256_hex :: string
  size_bytes :: u64
  duration_ms :: "u64 option"

record UploadSlot =
  slot_id :: string
  upload_url :: string
  blob_name :: string

datatype BoothStatus =
    Idle | DialTone | PlayingQuestion | Recording | Uploading
  | PlayingMessage | PlayingInstructions | CallUnavailable

definition booth_status_str :: "BoothStatus \<Rightarrow> string" where
  "booth_status_str s = (case s of
     BoothStatus.Idle \<Rightarrow> ''idle''
   | BoothStatus.DialTone \<Rightarrow> ''dial_tone''
   | BoothStatus.PlayingQuestion \<Rightarrow> ''playing_question''
   | BoothStatus.Recording \<Rightarrow> ''recording''
   | BoothStatus.Uploading \<Rightarrow> ''uploading''
   | BoothStatus.PlayingMessage \<Rightarrow> ''playing_message''
   | BoothStatus.PlayingInstructions \<Rightarrow> ''playing_instructions''
   | BoothStatus.CallUnavailable \<Rightarrow> ''call_unavailable'')"

datatype InstallationState = Active | BetweenExhibitions

datatype OperatorError =
    Transport string
  | Auth string
  | Unauthorized string
  | DuplicateRecording string
  | InvalidArgument string
  | Conflict string
  | InstallationInactive string
  | PayloadTooLarge "u64 option" string   \<comment> \<open>max_bytes, body\<close>
  | Unprocessable string
  | Unsupported string
  | Server u16 string                     \<comment> \<open>status, body\<close>
  | Protocol string

definition operator_error_str :: "OperatorError \<Rightarrow> string" where
  "operator_error_str e = (case e of
     Transport m \<Rightarrow> ''operator transport error: '' @ m
   | Auth m \<Rightarrow> ''operator auth error: '' @ m
   | Unauthorized m \<Rightarrow> ''operator unauthorized: '' @ m
   | DuplicateRecording m \<Rightarrow> ''duplicate recording: '' @ m
   | InvalidArgument m \<Rightarrow> ''operator invalid argument: '' @ m
   | Conflict m \<Rightarrow> ''operator conflict: '' @ m
   | InstallationInactive m \<Rightarrow> ''operator installation inactive: '' @ m
   | PayloadTooLarge _ body \<Rightarrow> ''operator payload too large: '' @ body
   | Unprocessable m \<Rightarrow> ''operator validation error: '' @ m
   | OperatorError.Unsupported m \<Rightarrow> ''operator operation unsupported: '' @ m
   | Server status body \<Rightarrow> ''operator returned an error: '' @ show_word status @ '' '' @ body
   | Protocol m \<Rightarrow> ''operator returned an unexpected response: '' @ m)"

record EventBatchAck =
  accepted :: u32
  duplicates :: u32

datatype StorageError = Io string | Decode string

section \<open>Runtime mode and host vitals\<close>

datatype RuntimeMode = Real | Mock | Simulator

record ShellyDeviceStats =
  device :: string
  endpoint :: "string option"
  output_on :: "bool option"
  power_watts :: "f64_bits option"
  voltage_volts :: "f64_bits option"
  frequency_hertz :: "f64_bits option"
  current_amperes :: "f64_bits option"
  energy_watt_hours :: "f64_bits option"
  shelly_temperature_celsius :: "f64_bits option"
  fetched_at_unix_seconds :: "u64 option"

record FanStats =
  commanded_on :: "bool option"
  pwm_ratio :: "f32_bits option"
  rpm :: "u32 option"
  cooling_state :: "u32 option"
  max_cooling_state :: "u32 option"

record CpuStats =
  usage_ratio :: f32_bits
  per_core_usage_ratio :: "f32_bits list"
  physical_cores :: u16
  load_avg_1m :: "f32_bits option"
  load_avg_5m :: "f32_bits option"
  load_avg_15m :: "f32_bits option"

record MemoryStats =
  total_bytes :: u64
  used_bytes :: u64
  swap_total_bytes :: u64
  swap_used_bytes :: u64

record DiskStats =
  mount_point :: string
  filesystem :: string
  disk_total_bytes :: u64
  available_bytes :: u64

record NetworkStats =
  interface :: string
  receive_bytes_total :: u64
  transmit_bytes_total :: u64
  addresses :: "string list"

record ProcessStats =
  resident_bytes :: "u64 option"
  virtual_bytes :: "u64 option"
  open_fds :: "u32 option"
  threads :: "u32 option"
  process_uptime_seconds :: "u64 option"

record AudioDeviceStats =
  input_device :: "string option"
  output_device :: "string option"
  sample_rate_hz :: "u32 option"

record TailscaleStats =
  connected :: bool
  peer_count :: "u32 option"
  hostname :: "string option"
  exit_node :: "string option"

record ThrottlingFlags =
  undervoltage :: bool
  arm_freq_capped :: bool
  throttled :: bool
  soft_temp_limit :: bool
  undervoltage_occurred :: bool
  throttled_occurred :: bool

record SystemSnapshot =
  cpu :: "CpuStats option"
  temperature_celsius :: "f32_bits option"
  memory :: "MemoryStats option"
  disks :: "DiskStats list"
  networks :: "NetworkStats list"
  uptime_seconds :: "u64 option"
  process :: "ProcessStats option"
  audio :: "AudioDeviceStats option"
  tailscale :: "TailscaleStats option"
  throttling :: "ThrottlingFlags option"
  fan :: "FanStats option"
  runtime_mode :: "RuntimeMode option"
  shelly :: "ShellyDeviceStats list"

section \<open>Calls and telemetry\<close>

datatype CallOutcome =
    HungUpBeforeDial | HungUpDuringPrompt | HungUpDuringRecording | HungUpDuringUpload
  | RecordingCompleted | RecordingFailed | UploadFailed | OperatorError | Aborted

definition call_outcome_str :: "CallOutcome \<Rightarrow> string" where
  "call_outcome_str c = (case c of
     HungUpBeforeDial \<Rightarrow> ''hung_up_before_dial''
   | HungUpDuringPrompt \<Rightarrow> ''hung_up_during_prompt''
   | HungUpDuringRecording \<Rightarrow> ''hung_up_during_recording''
   | HungUpDuringUpload \<Rightarrow> ''hung_up_during_upload''
   | RecordingCompleted \<Rightarrow> ''recording_completed''
   | CallOutcome.RecordingFailed \<Rightarrow> ''recording_failed''
   | CallOutcome.UploadFailed \<Rightarrow> ''upload_failed''
   | CallOutcome.OperatorError \<Rightarrow> ''operator_error''
   | Aborted \<Rightarrow> ''aborted'')"

text \<open>
  Constructor arguments in the order of the source's fields; the last \<open>u64\<close> is
  \<open>at_monotonic_ns\<close> where the variant has one.
\<close>

datatype TelemetryEvent =
    GpioEdgeEvent GpioEdge
  | StatusLed LedColour LedPattern u64
  | DigitDialed u8 u8 u64                         \<comment> \<open>digit, pulses\<close>
  | StateTransition string string string u64      \<comment> \<open>from, to, cause\<close>
  | AudioLevelEvent AudioLevel
  | AudioDeviceChange string AudioChannel
  | OperatorRequest string string                 \<comment> \<open>id, route\<close>
  | OperatorResponse string u16 u64               \<comment> \<open>id, status, duration_ms\<close>
  | Log string string string                      \<comment> \<open>level, target, message\<close>
  | Error string string                           \<comment> \<open>source, message\<close>
  | SystemSample SystemSnapshot u64
  | CallStarted string u64                        \<comment> \<open>session_id\<close>
  | CallEnded string CallOutcome string u64       \<comment> \<open>session_id, outcome, digits_dialed\<close>
  | RecordingStarted RecordingId string u64       \<comment> \<open>id, session_id\<close>
  | RecordingStopped RecordingId string u64 u64 u64  \<comment> \<open>id, session_id, duration_ms, bytes\<close>
  | UploadStarted RecordingId string u64          \<comment> \<open>recording_id, session_id\<close>
  | UploadCompleted RecordingId string u64 u64 u64   \<comment> \<open>recording_id, session_id, duration_ms, bytes\<close>
  | UploadFailed RecordingId string string u64    \<comment> \<open>recording_id, session_id, message\<close>

text \<open>The tags the operator and the debug surface see name every value uniquely.\<close>

lemma led_colour_str_inj: "led_colour_str a = led_colour_str b \<longleftrightarrow> a = b"
  by (cases a; cases b) (simp_all add: led_colour_str_def)

lemma booth_status_str_inj: "booth_status_str a = booth_status_str b \<longleftrightarrow> a = b"
  by (cases a; cases b) (simp_all add: booth_status_str_def)

lemma call_outcome_str_inj: "call_outcome_str a = call_outcome_str b \<longleftrightarrow> a = b"
  by (cases a; cases b) (simp_all add: call_outcome_str_def)

end
