(* ===== verification/Core.thy ===== *)
theory Core
  imports Hal
begin

text \<open>
  The pure state machine of \<open>crates/booth-core/src/lib.rs\<close>: \<open>State\<close>, \<open>Event\<close>,
  \<open>Effect\<close>, the state-to-LED mapping, and the transition function, in the source's
  order. \<open>handle_inner\<close>'s one \<open>match\<close> is split into consecutive groups of its arms
  (\<open>dial_arms\<close>, \<open>question_arms\<close>, ...), each a partial function that is \<open>None\<close> where
  none of its arms matches; \<open>handle_match\<close> tries the groups in the source's order and
  ends with the catch-all arm.
\<close>

section \<open>Constants\<close>

definition MAX_PULSES_PER_DIGIT :: u8 where "MAX_PULSES_PER_DIGIT = 10"
definition PULSE_GROUP_TIMEOUT_MS :: u64 where "PULSE_GROUP_TIMEOUT_MS = 350"
definition LED_BRIGHTNESS_DIM :: u8 where "LED_BRIGHTNESS_DIM = 40"
definition LED_BRIGHTNESS_FULL :: u8 where "LED_BRIGHTNESS_FULL = 255"
definition LED_SLOW_PULSE_MS :: u32 where "LED_SLOW_PULSE_MS = 2000"
definition LED_FAST_BLINK_MS :: u32 where "LED_FAST_BLINK_MS = 300"
definition LED_FADE_MS :: u32 where "LED_FADE_MS = 1500"

section \<open>State, events and effects\<close>

datatype State =
    CallsPaused bool                                  \<comment> \<open>on_hook\<close>
  | Idle
  | DialTone
  | Dialing u8                                        \<comment> \<open>pulses\<close>
  | RingingQuestion QuestionId
  | PlayingQuestion QuestionId
  | Beep QuestionId
  | Recording QuestionId
  | FinishingTimedOutRecording QuestionId bool        \<comment> \<open>question_id, on_hook\<close>
  | FinishingRecording QuestionId bool                \<comment> \<open>question_id, on_hook\<close>
  | Uploading RecordingId QuestionId bool             \<comment> \<open>recording_id, question_id, on_hook\<close>
  | UploadingTimedOut RecordingId QuestionId bool     \<comment> \<open>recording_id, question_id, beep_pending\<close>
  | RecordingEndedBeep
  | PlayingMessage
  | PlayingInstructions
  | CallUnavailable
  | Error string                                      \<comment> \<open>reason\<close>

definition state_default :: State where "state_default = State.Idle"

datatype UploadOutcome = Complete | Deferred | Failed string

datatype Event =
    UploadFinished RecordingId UploadOutcome
  | HookOn
  | HookOff
  | RotaryPulse
  | DigitDialed u8
  | PlaybackEnded
  | RecordingTimedOut
  | RecordingFinished RecordingId
  | RecordingFailed string
  | UploadComplete
  | UploadDeferred
  | UploadFailed string
  | QuestionReady QuestionId
  | QuestionFailed string
  | MessageReady
  | MessageFailed string
  | InstructionsReady
  | InstructionsFailed string
  | Tick
  | PowerButtonPressed
  | PowerButtonHeld

datatype Effect =
    Play AudioRef
  | StopAudio
  | StartRecording
  | ArmRecordingTimeout
  | CancelRecordingTimeout
  | StopRecording
  | UploadRecording RecordingId QuestionId
  | FetchRandomQuestion
  | FetchRandomMessage
  | FetchInstructions
  | PutStatus BoothStatus
  | ArmPulseTimeout
  | CancelPulseTimeout
  | Log string
  | SetStatusLed LedColour LedPattern
  | Reboot
  | PowerOff

section \<open>Views of a state\<close>

definition status_led_for :: "State \<Rightarrow> LedColour \<times> LedPattern" where
  "status_led_for state = (case state of
     CallsPaused _ \<Rightarrow> (Blue, Steady LED_BRIGHTNESS_DIM)
   | State.Idle \<Rightarrow> (Green, Steady LED_BRIGHTNESS_DIM)
   | State.DialTone \<Rightarrow> (Green, Steady LED_BRIGHTNESS_FULL)
   | Dialing _ \<Rightarrow> (Green, Steady LED_BRIGHTNESS_FULL)
   | RingingQuestion _ \<Rightarrow> (Blue, Steady LED_BRIGHTNESS_FULL)
   | State.PlayingQuestion _ \<Rightarrow> (Blue, Steady LED_BRIGHTNESS_FULL)
   | State.PlayingMessage \<Rightarrow> (Blue, Steady LED_BRIGHTNESS_FULL)
   | State.PlayingInstructions \<Rightarrow> (Blue, Steady LED_BRIGHTNESS_FULL)
   | State.CallUnavailable \<Rightarrow> (Blue, Steady LED_BRIGHTNESS_FULL)
   | State.Beep _ \<Rightarrow> (Red, Steady LED_BRIGHTNESS_FULL)
   | State.Recording _ \<Rightarrow> (Red, Steady LED_BRIGHTNESS_FULL)
   | UploadingTimedOut _ _ True \<Rightarrow> (Red, Steady LED_BRIGHTNESS_FULL)
   | RecordingEndedBeep \<Rightarrow> (Red, Steady LED_BRIGHTNESS_FULL)
   | FinishingRecording _ _ \<Rightarrow> (Blue, Blink LED_FAST_BLINK_MS)
   | FinishingTimedOutRecording _ _ \<Rightarrow> (Blue, Blink LED_FAST_BLINK_MS)
   | State.Uploading _ _ _ \<Rightarrow> (Blue, Blink LED_FAST_BLINK_MS)
   | UploadingTimedOut _ _ False \<Rightarrow> (Blue, Blink LED_FAST_BLINK_MS)
   | State.Error _ \<Rightarrow> (Red, Blink LED_FAST_BLINK_MS))"

definition status :: "State \<Rightarrow> BoothStatus" where
  "status state = (case state of
     State.Idle \<Rightarrow> BoothStatus.Idle
   | CallsPaused _ \<Rightarrow> BoothStatus.Idle
   | State.DialTone \<Rightarrow> BoothStatus.DialTone
   | Dialing _ \<Rightarrow> BoothStatus.DialTone
   | RingingQuestion _ \<Rightarrow> BoothStatus.PlayingQuestion
   | State.PlayingQuestion _ \<Rightarrow> BoothStatus.PlayingQuestion
   | State.Beep _ \<Rightarrow> BoothStatus.PlayingQuestion
   | State.Recording _ \<Rightarrow> BoothStatus.Recording
   | FinishingRecording _ _ \<Rightarrow> BoothStatus.Uploading
   | FinishingTimedOutRecording _ _ \<Rightarrow> BoothStatus.Uploading
   | State.Uploading _ _ _ \<Rightarrow> BoothStatus.Uploading
   | UploadingTimedOut _ _ _ \<Rightarrow> BoothStatus.Uploading
   | RecordingEndedBeep \<Rightarrow> BoothStatus.Uploading
   | State.PlayingMessage \<Rightarrow> BoothStatus.PlayingMessage
   | State.PlayingInstructions \<Rightarrow> BoothStatus.PlayingInstructions
   | State.CallUnavailable \<Rightarrow> BoothStatus.CallUnavailable
   | State.Error _ \<Rightarrow> BoothStatus.Idle)"

definition tag :: "State \<Rightarrow> string" where
  "tag state = (case state of
     State.Idle \<Rightarrow> ''idle''
   | CallsPaused _ \<Rightarrow> ''calls_paused''
   | State.DialTone \<Rightarrow> ''dial_tone''
   | Dialing _ \<Rightarrow> ''dialing''
   | RingingQuestion _ \<Rightarrow> ''ringing_question''
   | State.PlayingQuestion _ \<Rightarrow> ''playing_question''
   | State.Beep _ \<Rightarrow> ''beep''
   | State.Recording _ \<Rightarrow> ''recording''
   | FinishingRecording _ _ \<Rightarrow> ''finishing_recording''
   | FinishingTimedOutRecording _ _ \<Rightarrow> ''finishing_timeout_recording''
   | State.Uploading _ _ _ \<Rightarrow> ''uploading''
   | UploadingTimedOut _ _ _ \<Rightarrow> ''uploading_timeout''
   | RecordingEndedBeep \<Rightarrow> ''recording_end_beep''
   | State.PlayingMessage \<Rightarrow> ''playing_message''
   | State.PlayingInstructions \<Rightarrow> ''playing_instructions''
   | State.CallUnavailable \<Rightarrow> ''call_unavailable''
   | State.Error _ \<Rightarrow> ''error'')"

section \<open>Decoding a digit\<close>

definition digit_action :: "u8 \<Rightarrow> string" where
  "digit_action digit =
     (if digit = 1 then ''fetching a random question''
      else if digit = 2 then ''fetching a random message''
      else if digit = 0 then ''fetching a random operator instructions clip''
      else ''playing the call-cannot-be-completed prompt'')"

definition decode_digit :: "u8 \<Rightarrow> State \<times> Effect list" where
  "decode_digit digit =
     (let log = Effect.Log (''dialed digit '' @ show_word digit @ '': '' @ digit_action digit) in
      if digit = 1 then
        (State.DialTone, [log, FetchRandomQuestion, CancelPulseTimeout])
      else if digit = 2 then
        (State.DialTone, [log, FetchRandomMessage, CancelPulseTimeout])
      else if 3 \<le> digit \<and> digit \<le> 9 then
        (State.CallUnavailable,
         [log, Play (Builtin BuiltinTone.CallUnavailable), CancelPulseTimeout,
          PutStatus BoothStatus.CallUnavailable])
      else if digit = 0 then
        (State.DialTone, [log, FetchInstructions, CancelPulseTimeout])
      else
        (State.Error (''invalid digit '' @ show_word digit), [Play (Builtin LineBusy)]))"

section \<open>Transitions\<close>

text \<open>Hanging up (the first block of \<open>handle_inner\<close>).\<close>

definition handle_hook_on :: "State \<Rightarrow> State \<times> Effect list" where
  "handle_hook_on state = (case state of
     State.Recording q \<Rightarrow>
       (FinishingRecording q True,
        [StopAudio, CancelRecordingTimeout, StopRecording, CancelPulseTimeout,
         PutStatus BoothStatus.Uploading])
   | FinishingRecording q _ \<Rightarrow>
       (FinishingRecording q True, [StopAudio, CancelPulseTimeout])
   | FinishingTimedOutRecording q _ \<Rightarrow>
       (FinishingTimedOutRecording q True,
        [StopAudio, CancelRecordingTimeout, CancelPulseTimeout])
   | _ \<Rightarrow>
       (State.Idle,
        [StopAudio, CancelPulseTimeout, CancelRecordingTimeout, PutStatus BoothStatus.Idle]))"

text \<open>What several arms do: go back to the dial tone and announce it.\<close>

abbreviation to_dial_tone :: "State \<times> Effect list" where
  "to_dial_tone \<equiv>
     (State.DialTone,
      [Play (Builtin BuiltinTone.DialTone), PutStatus BoothStatus.DialTone])"

text \<open>The arms of \<open>Idle\<close>, \<open>DialTone\<close> and \<open>Dialing\<close>.\<close>

definition dial_arms :: "State \<Rightarrow> Event \<Rightarrow> (State \<times> Effect list) option" where
  "dial_arms state event = (case (state, event) of
     (State.Idle, HookOff) \<Rightarrow> Some to_dial_tone
   | (State.DialTone, RotaryPulse) \<Rightarrow> Some (Dialing 1, [StopAudio, ArmPulseTimeout])
   | (Dialing pulses, RotaryPulse) \<Rightarrow>
       (let next = saturating_add pulses 1 in
        if MAX_PULSES_PER_DIGIT < next then
          Some (State.DialTone,
            [Play (Builtin BuiltinTone.DialTone), CancelPulseTimeout,
             Effect.Log ''rotary pulses exceeded maximum''])
        else Some (Dialing next, [ArmPulseTimeout]))
   | (Dialing pulses, Tick) \<Rightarrow>
       (let digit = (if pulses = 10 then 0 else pulses) in Some (decode_digit digit))
   | (State.DialTone, Event.DigitDialed digit) \<Rightarrow> Some (decode_digit digit)
   | (Dialing _, Event.DigitDialed digit) \<Rightarrow> Some (decode_digit digit)
   | _ \<Rightarrow> None)"

text \<open>The arms from ringing to the finished recording.\<close>

definition question_arms :: "State \<Rightarrow> Event \<Rightarrow> (State \<times> Effect list) option" where
  "question_arms state event = (case (state, event) of
     (RingingQuestion q, PlaybackEnded) \<Rightarrow>
       Some (State.PlayingQuestion q,
         [Play (RemoteUrl [] None), PutStatus BoothStatus.PlayingQuestion])
   | (State.PlayingQuestion q, PlaybackEnded) \<Rightarrow>
       Some (State.Beep q,
         [Play (Builtin BuiltinTone.Beep), PutStatus BoothStatus.PlayingQuestion])
   | (State.Beep q, PlaybackEnded) \<Rightarrow>
       Some (State.Recording q,
         [StartRecording, ArmRecordingTimeout, PutStatus BoothStatus.Recording])
   | (State.Recording q, RecordingTimedOut) \<Rightarrow>
       Some (FinishingTimedOutRecording q False,
         [CancelRecordingTimeout, StopRecording, PutStatus BoothStatus.Uploading])
   | (State.Recording q, RecordingFinished r) \<Rightarrow>
       Some (UploadingTimedOut r q True,
         [CancelRecordingTimeout, Play (Builtin BuiltinTone.Beep), UploadRecording r q,
          PutStatus BoothStatus.Uploading])
   | (FinishingTimedOutRecording q False, RecordingFinished r) \<Rightarrow>
       Some (UploadingTimedOut r q True,
         [Play (Builtin BuiltinTone.Beep), UploadRecording r q, PutStatus BoothStatus.Uploading])
   | (FinishingTimedOutRecording q True, RecordingFinished r) \<Rightarrow>
       Some (State.Uploading r q True,
         [UploadRecording r q, PutStatus BoothStatus.Uploading])
   | (FinishingRecording q on_hook, RecordingFinished r) \<Rightarrow>
       Some (State.Uploading r q on_hook,
         [UploadRecording r q, PutStatus BoothStatus.Uploading])
   | _ \<Rightarrow> None)"

text \<open>Lifting the handset while an answer is finalized or uploaded, and the end beep.\<close>

definition finishing_arms :: "State \<Rightarrow> Event \<Rightarrow> (State \<times> Effect list) option" where
  "finishing_arms state event = (case (state, event) of
     (FinishingRecording q _, HookOff) \<Rightarrow> Some (FinishingRecording q False, [])
   | (FinishingTimedOutRecording q _, HookOff) \<Rightarrow> Some (FinishingTimedOutRecording q False, [])
   | (State.Uploading r q _, HookOff) \<Rightarrow> Some (State.Uploading r q False, [])
   | (UploadingTimedOut r q True, PlaybackEnded) \<Rightarrow> Some (UploadingTimedOut r q False, [])
   | (UploadingTimedOut _ _ True, UploadComplete) \<Rightarrow> Some (RecordingEndedBeep, [])
   | (UploadingTimedOut _ _ True, UploadDeferred) \<Rightarrow> Some (RecordingEndedBeep, [])
   | (UploadingTimedOut _ _ False, UploadComplete) \<Rightarrow> Some to_dial_tone
   | (UploadingTimedOut _ _ False, UploadDeferred) \<Rightarrow> Some to_dial_tone
   | (RecordingEndedBeep, PlaybackEnded) \<Rightarrow> Some to_dial_tone
   | _ \<Rightarrow> None)"

text \<open>Recordings that failed, and uploads that finished or failed.\<close>

definition failure_arms :: "State \<Rightarrow> Event \<Rightarrow> (State \<times> Effect list) option" where
  "failure_arms state event = (case (state, event) of
     (State.Recording _, Event.RecordingFailed reason) \<Rightarrow>
       Some (State.Error reason,
         [Play (Builtin LineBusy), Effect.Log (''recording failed: '' @ reason),
          CancelRecordingTimeout, PutStatus BoothStatus.Idle])
   | (FinishingTimedOutRecording _ True, Event.RecordingFailed reason) \<Rightarrow>
       Some (State.Idle,
         [StopAudio, Effect.Log (''timed-out recording failed after hangup: '' @ reason),
          PutStatus BoothStatus.Idle])
   | (FinishingTimedOutRecording _ False, Event.RecordingFailed reason) \<Rightarrow>
       Some (State.DialTone,
         [Play (Builtin BuiltinTone.DialTone),
          Effect.Log (''timed-out recording failed: '' @ reason),
          PutStatus BoothStatus.DialTone])
   | (FinishingRecording _ True, Event.RecordingFailed reason) \<Rightarrow>
       Some (State.Idle,
         [StopAudio, Effect.Log (''recording failed after hangup: '' @ reason),
          PutStatus BoothStatus.Idle])
   | (FinishingRecording _ False, Event.RecordingFailed reason) \<Rightarrow>
       Some (State.DialTone,
         [Play (Builtin BuiltinTone.DialTone), Effect.Log (''recording failed: '' @ reason),
          PutStatus BoothStatus.DialTone])
   | (State.Uploading _ _ False, UploadComplete) \<Rightarrow> Some to_dial_tone
   | (State.Uploading _ _ True, UploadComplete) \<Rightarrow>
       Some (State.Idle, [PutStatus BoothStatus.Idle])
   | (State.Uploading _ _ False, Event.UploadFailed reason) \<Rightarrow>
       Some (State.Error reason,
         [Play (Builtin LineBusy), Effect.Log (''upload failed: '' @ reason)])
   | (UploadingTimedOut _ _ _, Event.UploadFailed reason) \<Rightarrow>
       Some (State.Error reason,
         [Play (Builtin LineBusy),
          Effect.Log (''timed-out recording upload failed: '' @ reason)])
   | (State.Uploading _ _ True, Event.UploadFailed reason) \<Rightarrow>
       Some (State.Idle,
         [Effect.Log (''upload failed after hangup: '' @ reason), PutStatus BoothStatus.Idle])
   | _ \<Rightarrow> None)"

text \<open>The operator's answers to a dialed digit, and the end of each prompt.\<close>

definition prompt_arms :: "State \<Rightarrow> Event \<Rightarrow> (State \<times> Effect list) option" where
  "prompt_arms state event = (case (state, event) of
     (State.DialTone, QuestionReady q) \<Rightarrow>
       Some (RingingQuestion q,
         [Play (Builtin Ringback), PutStatus BoothStatus.PlayingQuestion,
          Effect.Log (''question ready: '' @ q)])
   | (State.DialTone, QuestionFailed reason) \<Rightarrow>
       Some (State.Error reason,
         [Play (Builtin LineBusy), Effect.Log (''question fetch failed: '' @ reason)])
   | (State.DialTone, MessageReady) \<Rightarrow>
       Some (State.PlayingMessage,
         [Play (RemoteUrl [] None), PutStatus BoothStatus.PlayingMessage])
   | (State.DialTone, MessageFailed reason) \<Rightarrow>
       Some (State.Error reason,
         [Play (Builtin LineBusy), Effect.Log (''message fetch failed: '' @ reason)])
   | (State.PlayingMessage, PlaybackEnded) \<Rightarrow> Some to_dial_tone
   | (State.DialTone, InstructionsReady) \<Rightarrow>
       Some (State.PlayingInstructions,
         [Play (RemoteUrl [] None), PutStatus BoothStatus.PlayingInstructions])
   | (State.DialTone, InstructionsFailed reason) \<Rightarrow>
       Some (State.Error reason,
         [Play (Builtin LineBusy), Effect.Log (''instructions fetch failed: '' @ reason)])
   | (State.PlayingInstructions, PlaybackEnded) \<Rightarrow> Some to_dial_tone
   | (State.CallUnavailable, PlaybackEnded) \<Rightarrow> Some to_dial_tone
   | _ \<Rightarrow> None)"

text \<open>The power button, whatever the call is doing.\<close>

definition power_arms :: "State \<Rightarrow> Event \<Rightarrow> (State \<times> Effect list) option" where
  "power_arms state event = (case event of
     PowerButtonPressed \<Rightarrow> Some (state, [Reboot])
   | PowerButtonHeld \<Rightarrow> Some (state, [PowerOff])
   | _ \<Rightarrow> None)"

text \<open>The whole \<open>match\<close> but its first arm, which calls \<open>handle_inner\<close> again.\<close>

definition handle_match :: "State \<Rightarrow> Event \<Rightarrow> State \<times> Effect list" where
  "handle_match state event =
     (case or_else (dial_arms state event)
            (or_else (question_arms state event)
            (or_else (finishing_arms state event)
            (or_else (failure_arms state event)
            (or_else (prompt_arms state event) (power_arms state event))))) of
        Some r \<Rightarrow> r
      | None \<Rightarrow> (state, []))"

definition handle_inner :: "State \<Rightarrow> Event \<Rightarrow> State \<times> Effect list" where
  "handle_inner state event =
     (if event = HookOn then handle_hook_on state
      else case (state, event) of
        (State.Uploading _ _ on_hook, UploadDeferred) \<Rightarrow>
          (if on_hook then (State.Idle, [PutStatus BoothStatus.Idle])
           else handle_match State.Idle HookOff)
      | _ \<Rightarrow> handle_match state event)"

text \<open>
  The recursive call of the first arm, as the source writes it: the arm is reached only
  when \<open>event\<close> is not \<open>HookOn\<close>, and \<open>handle_match\<close> is \<open>handle_inner\<close> there.
\<close>

lemma handle_inner_deferred:
  "handle_inner (State.Uploading r q on_hook) UploadDeferred =
     (if on_hook then (State.Idle, [PutStatus BoothStatus.Idle])
      else handle_inner State.Idle HookOff)"
  by (simp add: handle_inner_def)

section \<open>Call admission\<close>

text \<open>\<open>UploadFinished\<close> for the recording the state waits for becomes the plain upload event.\<close>

definition upload_awaited :: "State \<Rightarrow> RecordingId \<Rightarrow> bool" where
  "upload_awaited state recording_id = (case state of
     State.Uploading current _ _ \<Rightarrow> current = recording_id
   | UploadingTimedOut current _ _ \<Rightarrow> current = recording_id
   | _ \<Rightarrow> False)"

definition outcome_event :: "UploadOutcome \<Rightarrow> Event" where
  "outcome_event outcome = (case outcome of
     Complete \<Rightarrow> UploadComplete
   | Deferred \<Rightarrow> UploadDeferred
   | Failed reason \<Rightarrow> Event.UploadFailed reason)"

definition on_hook_after :: "State \<Rightarrow> Event \<Rightarrow> bool" where
  "on_hook_after state event = (case event of
     HookOn \<Rightarrow> True
   | HookOff \<Rightarrow> False
   | _ \<Rightarrow> (case state of
       State.Idle \<Rightarrow> True
     | CallsPaused on_hook \<Rightarrow> on_hook
     | FinishingRecording _ on_hook \<Rightarrow> on_hook
     | FinishingTimedOutRecording _ on_hook \<Rightarrow> on_hook
     | State.Uploading _ _ on_hook \<Rightarrow> on_hook
     | _ \<Rightarrow> False))"

text \<open>The states whose answer must not be lost when admission is paused.\<close>

definition protected :: "State \<Rightarrow> bool" where
  "protected state = (case state of
     State.Recording _ \<Rightarrow> True
   | FinishingRecording _ _ \<Rightarrow> True
   | FinishingTimedOutRecording _ _ \<Rightarrow> True
   | State.Uploading _ _ _ \<Rightarrow> True
   | UploadingTimedOut _ _ _ \<Rightarrow> True
   | _ \<Rightarrow> False)"

text \<open>A pending end beep is suppressed while admission is paused; the flag says it was.\<close>

definition suppress_beep :: "State \<Rightarrow> State \<times> bool" where
  "suppress_beep state = (case state of
     UploadingTimedOut r q True \<Rightarrow> (UploadingTimedOut r q False, True)
   | _ \<Rightarrow> (state, False))"

definition is_paused :: "State \<Rightarrow> bool" where
  "is_paused state = (case state of CallsPaused _ \<Rightarrow> True | _ \<Rightarrow> False)"

definition is_dial_input :: "Event \<Rightarrow> bool" where
  "is_dial_input event = (case event of
     RotaryPulse \<Rightarrow> True | Event.DigitDialed _ \<Rightarrow> True | _ \<Rightarrow> False)"

definition is_status_or_play :: "Effect \<Rightarrow> bool" where
  "is_status_or_play effect = (case effect of PutStatus _ \<Rightarrow> True | Play _ \<Rightarrow> True | _ \<Rightarrow> False)"

text \<open>\<open>handle_available\<close> while calls are accepted, and while they are paused.\<close>

definition handle_accepting :: "State \<Rightarrow> Event \<Rightarrow> State \<times> Effect list" where
  "handle_accepting state event =
     (if is_paused state then
        (let (resumed, effects) =
               (if on_hook_after state event then (State.Idle, [PutStatus BoothStatus.Idle])
                else handle_inner State.Idle HookOff)
         in if is_dial_input event then
              (let (next, input_effects) = handle_inner resumed event
               in (next, effects @ input_effects))
            else (resumed, effects))
      else handle_inner state event)"

definition handle_pausing :: "State \<Rightarrow> Event \<Rightarrow> State \<times> Effect list" where
  "handle_pausing state0 event =
     (let on_hook = on_hook_after state0 event;
          (state, stop0) = suppress_beep state0
      in if \<not> protected state then
           (CallsPaused on_hook,
            if is_paused state then [] else [StopAudio, CancelPulseTimeout])
         else
           let (next0, effects0) = handle_inner state event;
               (next, stop1) = suppress_beep next0;
               effects1 = filter (\<lambda>e. \<not> is_status_or_play e) effects0;
               effects = (if stop0 \<or> stop1 then StopAudio # effects1 else effects1)
           in if protected next then (next, effects)
              else (CallsPaused on_hook, effects @ [StopAudio, CancelPulseTimeout]))"

definition handle_available :: "State \<Rightarrow> Event \<Rightarrow> bool \<Rightarrow> State \<times> Effect list" where
  "handle_available state event0 accepting_calls =
     (case (case event0 of
              UploadFinished recording_id outcome \<Rightarrow>
                (if upload_awaited state recording_id then Some (outcome_event outcome) else None)
            | _ \<Rightarrow> Some event0) of
        None \<Rightarrow> (state, [])
      | Some event \<Rightarrow>
          (if event = PowerButtonPressed \<or> event = PowerButtonHeld then handle_inner state event
           else if accepting_calls then handle_accepting state event
           else handle_pausing state event))"

definition handle_with_call_availability ::
    "State \<Rightarrow> Event \<Rightarrow> bool \<Rightarrow> State \<times> Effect list" where
  "handle_with_call_availability state event accepting_calls =
     (let led_before = status_led_for state;
          (next, effects) = handle_available state event accepting_calls;
          led_after = status_led_for next
      in if led_after \<noteq> led_before
         then (next, SetStatusLed (fst led_after) (snd led_after) # effects)
         else (next, effects))"

definition handle :: "State \<Rightarrow> Event \<Rightarrow> State \<times> Effect list" where
  "handle state event = handle_with_call_availability state event True"

end
