(* ===== verification/CoreSpec.thy ===== *)
theory CoreSpec
  imports Core
begin

text \<open>
  What the state machine of \<open>Core\<close> promises, stated on abstractions of it: the handset
  position, the status LED, the recording timer and the pulse timer as observers of the
  effects, the answer that must reach the operator, and what a pause of admission allows.
  One-step laws are exhaustive over state and event; the locales of \<open>Prelude\<close> lift them
  to runs over any sequence of events and admission decisions.
\<close>

section \<open>The machine with its admission decision\<close>

definition admit_step :: "State \<Rightarrow> Event \<times> bool \<Rightarrow> State \<times> Effect list" where
  "admit_step s ea = handle_with_call_availability s (fst ea) (snd ea)"

lemmas arm_defs =
  dial_arms_def question_arms_def finishing_arms_def failure_arms_def prompt_arms_def
  power_arms_def

lemmas inner_defs =
  handle_inner_def handle_match_def handle_hook_on_def arm_defs decode_digit_def Let_def

lemmas view_defs =
  upload_awaited_def outcome_event_def on_hook_after_def protected_def suppress_beep_def
  is_paused_def is_dial_input_def is_status_or_play_def

lemmas available_defs =
  handle_available_def handle_accepting_def handle_pausing_def inner_defs view_defs

lemma fst_admit_step:
  "fst (handle_with_call_availability s e a) = fst (handle_available s e a)"
  by (simp add: handle_with_call_availability_def split_beta Let_def)

lemma snd_admit_step:
  "snd (handle_with_call_availability s e a) =
     (if status_led_for (fst (handle_available s e a)) = status_led_for s then []
      else [case_prod SetStatusLed (status_led_for (fst (handle_available s e a)))]) @
     snd (handle_available s e a)"
  by (simp add: handle_with_call_availability_def split_beta Let_def)

section \<open>The handset\<close>

definition handset :: "State \<Rightarrow> bool" where
  "handset s = on_hook_after s Tick"

definition handset_step :: "bool \<Rightarrow> Event \<times> bool \<Rightarrow> bool" where
  "handset_step h ea = (case fst ea of HookOn \<Rightarrow> True | HookOff \<Rightarrow> False | _ \<Rightarrow> h)"

lemma available_handset:
  "handset (fst (handle_available s e a)) = handset_step (handset s) (e, a)"
  by (cases s; cases e; cases a)
    (simp_all add: available_defs handset_def handset_step_def
      split: UploadOutcome.splits bool.splits)

interpretation handset: machine_refinement admit_step handset handset_step
  by unfold_locales (simp add: admit_step_def fst_admit_step available_handset)

section \<open>The status LED\<close>

definition led_upd :: "LedColour \<times> LedPattern \<Rightarrow> Effect \<Rightarrow> LedColour \<times> LedPattern" where
  "led_upd led eff = (case eff of SetStatusLed c p \<Rightarrow> (c, p) | _ \<Rightarrow> led)"

definition sets_led :: "Effect \<Rightarrow> bool" where
  "sets_led eff = (case eff of SetStatusLed _ _ \<Rightarrow> True | _ \<Rightarrow> False)"

lemma available_no_led: "filter sets_led (snd (handle_available s e a)) = []"
  by (cases s; cases e; cases a)
    (simp_all add: available_defs sets_led_def split: UploadOutcome.splits bool.splits)

lemma led_upd_skip: "filter sets_led effs = [] \<Longrightarrow> foldl led_upd led effs = led"
  by (induction effs) (auto simp: led_upd_def sets_led_def split: Effect.splits if_splits)

interpretation led: machine_monitor admit_step status_led_for led_upd
proof unfold_locales
  fix s :: State and ea :: "Event \<times> bool"
  obtain e a where [simp]: "ea = (e, a)" by (cases ea)
  show "foldl led_upd (status_led_for s) (snd (admit_step s ea)) =
      status_led_for (fst (admit_step s ea))"
    using led_upd_skip [OF available_no_led]
    by (cases "status_led_for (fst (handle_available s e a))")
      (simp add: admit_step_def fst_admit_step snd_admit_step led_upd_def)
qed

section \<open>The two timers\<close>

definition is_recording :: "State \<Rightarrow> bool" where
  "is_recording s = (case s of State.Recording _ \<Rightarrow> True | _ \<Rightarrow> False)"

definition is_dialing :: "State \<Rightarrow> bool" where
  "is_dialing s = (case s of Dialing _ \<Rightarrow> True | _ \<Rightarrow> False)"

definition is_error :: "State \<Rightarrow> bool" where
  "is_error s = (case s of State.Error _ \<Rightarrow> True | _ \<Rightarrow> False)"

definition recording_timer_upd :: "bool \<Rightarrow> Effect \<Rightarrow> bool" where
  "recording_timer_upd armed eff = (case eff of
     ArmRecordingTimeout \<Rightarrow> True | CancelRecordingTimeout \<Rightarrow> False | _ \<Rightarrow> armed)"

definition pulse_timer_upd :: "bool \<Rightarrow> Effect \<Rightarrow> bool" where
  "pulse_timer_upd armed eff = (case eff of
     ArmPulseTimeout \<Rightarrow> True | CancelPulseTimeout \<Rightarrow> False | _ \<Rightarrow> armed)"

lemma available_recording_timer:
  "foldl recording_timer_upd (is_recording s) (snd (handle_available s e a)) =
     is_recording (fst (handle_available s e a))"
  by (cases s; cases e; cases a)
    (simp_all add: available_defs is_recording_def recording_timer_upd_def
      split: UploadOutcome.splits bool.splits)

lemma led_skip_recording_timer [simp]:
  "recording_timer_upd armed (case_prod SetStatusLed led) = armed"
  by (simp add: recording_timer_upd_def split_beta)

interpretation recording_timer: machine_monitor admit_step is_recording recording_timer_upd
  by unfold_locales
    (simp add: admit_step_def fst_admit_step snd_admit_step available_recording_timer)

definition pulse_timer_agrees :: "bool \<Rightarrow> State \<Rightarrow> bool" where
  "pulse_timer_agrees armed s =
     ((is_dialing s \<longrightarrow> armed) \<and> (armed \<longrightarrow> is_dialing s \<or> is_error s))"

lemma available_pulse_timer:
  "pulse_timer_agrees armed s \<Longrightarrow>
   pulse_timer_agrees (foldl pulse_timer_upd armed (snd (handle_available s e a)))
     (fst (handle_available s e a))"
  by (cases s; cases e; cases a)
    (simp_all add: available_defs pulse_timer_agrees_def is_dialing_def is_error_def
      pulse_timer_upd_def split: UploadOutcome.splits bool.splits)

lemma led_skip_pulse_timer [simp]:
  "pulse_timer_upd armed (case_prod SetStatusLed led) = armed"
  by (simp add: pulse_timer_upd_def split_beta)

interpretation pulse_timer: machine_observer admit_step pulse_timer_upd pulse_timer_agrees
  by unfold_locales
    (simp add: admit_step_def fst_admit_step snd_admit_step available_pulse_timer)

section \<open>Dialing\<close>

definition pulses_ok :: "State \<Rightarrow> bool" where
  "pulses_ok s = (case s of Dialing p \<Rightarrow> 1 \<le> p \<and> p \<le> MAX_PULSES_PER_DIGIT | _ \<Rightarrow> True)"

lemma next_pulse:
  fixes p :: u8
  assumes "1 \<le> p" and "p \<le> 10"
  shows "saturating_add p 1 = p + 1" and "1 \<le> p + 1"
  using assms by (simp_all add: saturating_add_def word_le_nat_alt unat_word_ariths)

lemma available_pulses: "pulses_ok s \<Longrightarrow> pulses_ok (fst (handle_available s e a))"
  by (cases s; cases e; cases a)
    (auto simp: available_defs pulses_ok_def MAX_PULSES_PER_DIGIT_def next_pulse not_less
      split: UploadOutcome.splits bool.splits)

interpretation pulses: machine_invariant admit_step pulses_ok
  by unfold_locales (simp add: admit_step_def fst_admit_step available_pulses)

lemma handle_dial_tone_pulse: "handle State.DialTone RotaryPulse = (Dialing 1, [StopAudio, ArmPulseTimeout])"
  by (simp add: handle_def handle_with_call_availability_def available_defs status_led_for_def)

lemma handle_dialing_pulse:
  "unat p < 10 \<Longrightarrow> handle (Dialing p) RotaryPulse = (Dialing (p + 1), [ArmPulseTimeout])"
  by (auto simp: handle_def handle_with_call_availability_def available_defs status_led_for_def
      MAX_PULSES_PER_DIGIT_def saturating_add_def word_less_nat_alt unat_word_ariths)

lemma run_dialing_pulses:
  "unat p + m \<le> 10 \<Longrightarrow>
   run_machine handle (Dialing p) (replicate m RotaryPulse) =
     (Dialing (p + of_nat m), replicate m ArmPulseTimeout)"
proof (induction m arbitrary: p)
  case (Suc m)
  then have "unat (p + 1) + m \<le> 10" and "unat p < 10"
    by (simp_all add: unat_word_ariths)
  then show ?case
    using Suc.IH [of "p + 1"] by (simp add: handle_dialing_pulse add_ac)
qed simp

lemma run_pulses:
  "n < 10 \<Longrightarrow>
   run_machine handle State.DialTone (replicate (Suc n) RotaryPulse) =
     (Dialing (of_nat (Suc n)), StopAudio # replicate (Suc n) ArmPulseTimeout)"
  by (simp add: handle_dial_tone_pulse run_dialing_pulses)

text \<open>The operator lookups an effect list asks for.\<close>

definition is_fetch :: "Effect \<Rightarrow> bool" where
  "is_fetch eff = (case eff of
     FetchRandomQuestion \<Rightarrow> True | FetchRandomMessage \<Rightarrow> True | FetchInstructions \<Rightarrow> True
   | _ \<Rightarrow> False)"

lemma available_dialing_tick:
  "handle_available (Dialing p) Tick True = decode_digit (if p = 10 then 0 else p)"
  by (simp add: available_defs)

lemma handle_dialing_tick:
  "fst (handle (Dialing p) Tick) = fst (decode_digit (if p = 10 then 0 else p))"
  "filter is_fetch (snd (handle (Dialing p) Tick)) =
     filter is_fetch (snd (decode_digit (if p = 10 then 0 else p)))"
  by (simp_all add: handle_def fst_admit_step snd_admit_step available_dialing_tick is_fetch_def
      split_beta)

section \<open>The answer that must reach the operator\<close>

definition pending_answer :: "State \<Rightarrow> QuestionId option" where
  "pending_answer s = (case s of
     State.Recording q \<Rightarrow> Some q
   | FinishingRecording q _ \<Rightarrow> Some q
   | FinishingTimedOutRecording q _ \<Rightarrow> Some q
   | _ \<Rightarrow> None)"

definition uploads :: "Effect list \<Rightarrow> (RecordingId \<times> QuestionId) list" where
  "uploads effs =
     List.map_filter (\<lambda>eff. case eff of UploadRecording r q \<Rightarrow> Some (r, q) | _ \<Rightarrow> None) effs"

definition ends_recording :: "Event \<Rightarrow> bool" where
  "ends_recording e = (case e of
     RecordingFinished _ \<Rightarrow> True | Event.RecordingFailed _ \<Rightarrow> True | _ \<Rightarrow> False)"

lemma uploads_append [simp]: "uploads (xs @ ys) = uploads xs @ uploads ys"
  by (simp add: uploads_def List.map_filter_def)

lemma uploads_Cons [simp]:
  "uploads (eff # effs) = (case eff of UploadRecording r q \<Rightarrow> (r, q) # uploads effs | _ \<Rightarrow> uploads effs)"
  by (simp add: uploads_def List.map_filter_def split: Effect.split)

lemma uploads_Nil [simp]: "uploads [] = []"
  by (simp add: uploads_def List.map_filter_def)

lemma set_uploads: "(r, q) \<in> set (uploads effs) \<longleftrightarrow> UploadRecording r q \<in> set effs"
  by (induction effs) (auto split: Effect.splits)

lemma available_keeps_answer:
  "pending_answer s = Some q \<Longrightarrow> \<not> ends_recording e \<Longrightarrow>
   pending_answer (fst (handle_available s e a)) = Some q"
  by (cases s; cases e; cases a)
    (auto simp: available_defs pending_answer_def ends_recording_def
      split: UploadOutcome.splits bool.splits)

lemma available_uploads:
  "uploads (snd (handle_available s e a)) =
     (case (e, pending_answer s) of (RecordingFinished r, Some q) \<Rightarrow> [(r, q)] | _ \<Rightarrow> [])"
  by (cases s; cases e; cases a)
    (simp_all add: available_defs pending_answer_def split: UploadOutcome.splits bool.splits)

lemma handle_with_uploads:
  "uploads (snd (handle_with_call_availability s e a)) =
     (case (e, pending_answer s) of (RecordingFinished r, Some q) \<Rightarrow> [(r, q)] | _ \<Rightarrow> [])"
  by (simp add: snd_admit_step available_uploads split_beta)

lemma run_keeps_answer:
  "pending_answer s = Some q \<Longrightarrow> \<forall>ea \<in> set es. \<not> ends_recording (fst ea) \<Longrightarrow>
   pending_answer (fst (run_machine admit_step s es)) = Some q"
proof (induction es arbitrary: s)
  case (Cons ea es)
  then show ?case
    by (simp add: admit_step_def fst_admit_step available_keeps_answer)
qed simp

section \<open>Pauses, stale uploads and hanging up\<close>

text \<open>What a paused booth must not do: make sound, talk to the operator, start an answer.\<close>

definition quiet :: "Effect \<Rightarrow> bool" where
  "quiet eff = (case eff of
     Play _ \<Rightarrow> False | PutStatus _ \<Rightarrow> False | FetchRandomQuestion \<Rightarrow> False
   | FetchRandomMessage \<Rightarrow> False | FetchInstructions \<Rightarrow> False | StartRecording \<Rightarrow> False
   | ArmRecordingTimeout \<Rightarrow> False | ArmPulseTimeout \<Rightarrow> False | _ \<Rightarrow> True)"

definition is_power :: "Event \<Rightarrow> bool" where
  "is_power e = (case e of PowerButtonPressed \<Rightarrow> True | PowerButtonHeld \<Rightarrow> True | _ \<Rightarrow> False)"

lemma available_power:
  "is_power e \<Longrightarrow>
   handle_available s e a = (s, [if e = PowerButtonPressed then Reboot else PowerOff])"
  by (cases s; cases e) (simp_all add: available_defs is_power_def split: bool.split)

lemma available_paused_quiet: "list_all quiet (snd (handle_available s e False))"
  by (cases s; cases e)
    (simp_all add: available_defs quiet_def split: UploadOutcome.splits bool.splits)

lemma available_paused_state:
  "\<not> is_power e \<Longrightarrow> (\<And>r oc. e = UploadFinished r oc \<Longrightarrow> upload_awaited s r) \<Longrightarrow>
   is_paused (fst (handle_available s e False)) \<or> protected (fst (handle_available s e False))"
  by (cases s; cases e)
    (auto simp: available_defs is_power_def split: UploadOutcome.splits bool.splits)

lemma available_stale: "\<not> upload_awaited s r \<Longrightarrow> handle_available s (UploadFinished r oc) a = (s, [])"
  by (simp add: handle_available_def)

lemma available_hook_on:
  "\<not> is_paused s \<Longrightarrow>
   {StopAudio, CancelPulseTimeout} \<subseteq> set (snd (handle_available s HookOn a)) \<and>
   list_all (\<lambda>eff. \<not> is_fetch eff \<and> (\<forall>src. eff \<noteq> Play src) \<and> eff \<noteq> StartRecording)
     (snd (handle_available s HookOn a))"
  by (cases s; cases a) (simp_all add: available_defs is_fetch_def split: bool.splits)

section \<open>The advertised status\<close>

definition status_upd :: "BoothStatus \<Rightarrow> Effect \<Rightarrow> BoothStatus" where
  "status_upd adv eff = (case eff of PutStatus b \<Rightarrow> b | _ \<Rightarrow> adv)"

definition status_agrees :: "BoothStatus \<Rightarrow> State \<Rightarrow> bool" where
  "status_agrees adv s = (is_error s \<or> adv = status s)"

lemma available_status:
  "status_agrees adv s \<Longrightarrow>
   status_agrees (foldl status_upd adv (snd (handle_available s e True)))
     (fst (handle_available s e True))"
  by (cases s; cases e)
    (simp_all add: available_defs status_agrees_def status_upd_def status_def is_error_def
      split: UploadOutcome.splits bool.splits)

lemma led_skip_status [simp]: "status_upd adv (case_prod SetStatusLed led) = adv"
  by (simp add: status_upd_def split_beta)

interpretation advertised: machine_observer handle status_upd status_agrees
  by unfold_locales (simp add: handle_def fst_admit_step snd_admit_step available_status)

section \<open>Properties\<close>

text \<open>C1. Once the caller is recording an answer to question \<open>q\<close>, no interleaving of
  hang-ups, lifts, timeouts, prompts, stale uploads, power presses and pauses of admission
  loses it: when the recorder then delivers recording \<open>r\<close>, an upload of \<open>r\<close> as the
  answer to \<open>q\<close> is requested.\<close>
theorem answer_reaches_operator:
  assumes "pending_answer s = Some q"
    and "\<forall>ea \<in> set es. \<not> ends_recording (fst ea)"
  shows "UploadRecording r q \<in> set (snd (run_machine admit_step s (es @ [(RecordingFinished r, a)])))"
proof -
  let ?t = "fst (run_machine admit_step s es)"
  have "pending_answer ?t = Some q"
    using assms by (rule run_keeps_answer)
  then have "uploads (snd (admit_step ?t (RecordingFinished r, a))) = [(r, q)]"
    by (simp add: admit_step_def handle_with_uploads)
  then have "UploadRecording r q \<in> set (snd (admit_step ?t (RecordingFinished r, a)))"
    by (simp flip: set_uploads)
  then show ?thesis
    by (simp add: run_machine_append split_beta)
qed

theorem answer_reaches_operator_witness:
  "UploadRecording ''r'' ''q'' \<in> set (snd (run_machine admit_step (State.Recording ''q'')
     ([(HookOn, True), (Tick, False), (HookOff, False)] @ [(RecordingFinished ''r'', False)])))"
  by (rule answer_reaches_operator) (simp_all add: pending_answer_def ends_recording_def)

text \<open>C5. In every step, whatever the admission decision, the uploads requested are exactly
  the recording that just finished, paired with the question whose answer was being recorded
  or finalized; any other event or state requests none. So no recording is uploaded twice or
  under another question.\<close>
theorem uploads_exactly_the_finished_answer:
  "uploads (snd (handle_with_call_availability s e a)) =
     (case (e, pending_answer s) of (RecordingFinished r, Some q) \<Rightarrow> [(r, q)] | _ \<Rightarrow> [])"
  by (rule handle_with_uploads)

text \<open>The machine refines a handset: after any run, the hook position the state carries
  is the one of the last hook event (or the initial one), although it is stored differently
  by \<open>Idle\<close>, the paused, finishing and uploading states.\<close>
theorem handset_follows_last_hook_event:
  "handset (fst (run_machine admit_step s es)) = foldl handset_step (handset s) es"
  by (rule handset.run_simulates)

text \<open>C16. While admission is paused, no step plays a sound, writes a status, asks the operator
  for a clip, starts a recording or arms a timer.\<close>
theorem paused_steps_are_quiet:
  "list_all quiet (snd (handle_with_call_availability s e False))"
  using available_paused_quiet [of s e] by (simp add: snd_admit_step quiet_def split_beta)

text \<open>A paused step always ends in \<open>CallsPaused\<close> or in a state that still finalizes or
  uploads an answer, except that power-button events and uploads of other recordings leave
  the state as it was.\<close>
theorem paused_step_state:
  "is_paused (fst (handle_with_call_availability s e False)) \<or>
   protected (fst (handle_with_call_availability s e False)) \<or>
   fst (handle_with_call_availability s e False) = s"
proof (cases "is_power e \<or> (\<exists>r oc. e = UploadFinished r oc \<and> \<not> upload_awaited s r)")
  case True
  then show ?thesis
    by (auto simp: fst_admit_step available_stale available_power)
next
  case False
  then show ?thesis
    using available_paused_state [of e s] by (auto simp: fst_admit_step)
qed

text \<open>The LED effects are in step with the state: after any run, the last LED effect shows
  exactly the indication \<open>status_led_for\<close> gives the current state.\<close>
theorem led_shows_state:
  "foldl led_upd (status_led_for s) (snd (run_machine admit_step s es)) =
     status_led_for (fst (run_machine admit_step s es))"
  by (rule led.run_tracks)

text \<open>After any run, the recording-duration timer is armed exactly while the machine
  records: entering \<open>Recording\<close> arms it and every way out cancels it.\<close>
theorem recording_timer_armed_iff_recording:
  "foldl recording_timer_upd (is_recording s) (snd (run_machine admit_step s es)) =
     is_recording (fst (run_machine admit_step s es))"
  by (rule recording_timer.run_tracks)

text \<open>From the on-hook state, the pulse-group timer is armed whenever the caller is
  dialing, and it is never left armed in another state but \<open>Error\<close>, where its \<open>Tick\<close> is
  ignored.\<close>
theorem pulse_timer_armed_while_dialing:
  fixes es :: "(Event \<times> bool) list"
  defines "armed \<equiv> foldl pulse_timer_upd False (snd (run_machine admit_step State.Idle es))"
    and "s \<equiv> fst (run_machine admit_step State.Idle es)"
  shows "if is_dialing s then armed else if is_error s then True else \<not> armed"
proof -
  have "pulse_timer_agrees False State.Idle"
    by (simp add: pulse_timer_agrees_def is_dialing_def)
  from pulse_timer.agrees_run [OF this, of es] show ?thesis
    by (auto simp: pulse_timer_agrees_def armed_def s_def)
qed

text \<open>In every state reached from on hook, a pulse count is between 1 and 10, so the
  decoded digit is one of the ten and the \<open>u8\<close> counter never saturates.\<close>
theorem dialed_pulses_bounded:
  assumes "fst (run_machine admit_step State.Idle es) = Dialing p"
  shows "1 \<le> unat p \<and> unat p \<le> 10"
  using pulses.inv_run [of State.Idle es] assms
  by (simp add: pulses_ok_def MAX_PULSES_PER_DIGIT_def word_le_nat_alt)

theorem dialed_pulses_bounded_witness: "1 \<le> unat (2 :: u8) \<and> unat (2 :: u8) \<le> 10"
  by (rule dialed_pulses_bounded [of "[(HookOff, True), (RotaryPulse, True), (RotaryPulse, True)]"])
    (simp add: admit_step_def fst_admit_step available_defs MAX_PULSES_PER_DIGIT_def
      saturating_add_def)

text \<open>Rotary decoding end to end: off hook, \<open>n\<close> pulses followed by the group timeout
  start exactly the lookup of digit \<open>n mod 10\<close> (1 a question, 2 a message, 0 the
  instructions), or the call-unavailable prompt for 3 to 9; the pulses alone start none.\<close>
theorem rotary_digit_decoded:
  assumes "1 \<le> n" and "n \<le> 10"
  shows "let (s, effs) = run_machine handle State.DialTone (replicate n RotaryPulse @ [Tick]) in
     s = (if n = 1 \<or> n = 2 \<or> n = 10 then State.DialTone else State.CallUnavailable) \<and>
     filter is_fetch effs =
       (if n = 1 then [FetchRandomQuestion] else if n = 2 then [FetchRandomMessage]
        else if n = 10 then [FetchInstructions] else [])"
proof -
  have pulses: "run_machine handle State.DialTone (replicate n RotaryPulse) =
      (Dialing (of_nat n), StopAudio # replicate n ArmPulseTimeout)"
    using assms run_pulses [of "n - 1"] by simp
  have "n \<in> {1, 2, 3, 4, 5, 6, 7, 8, 9, 10}"
    using assms by (simp, arith)
  then show ?thesis
    by (auto simp: run_machine_append pulses handle_dialing_tick decode_digit_def is_fetch_def)
qed

theorem rotary_digit_decoded_witness:
  "let (s, effs) = run_machine handle State.DialTone (replicate 10 RotaryPulse @ [Tick]) in
     s = State.DialTone \<and> filter is_fetch effs = [FetchInstructions]"
  using rotary_digit_decoded [of 10] by simp

text \<open>The outcome of an upload the machine is not waiting for (one abandoned by an
  earlier caller) changes nothing and asks for nothing, in any state and admission.\<close>
theorem stale_upload_ignored:
  assumes "\<not> upload_awaited s r"
  shows "handle_with_call_availability s (UploadFinished r oc) a = (s, [])"
  using available_stale [OF assms] by (simp add: handle_with_call_availability_def)

theorem stale_upload_ignored_witness:
  "handle_with_call_availability (State.Uploading ''new'' ''q'' False)
     (UploadFinished ''old'' Complete) True = (State.Uploading ''new'' ''q'' False, [])"
  by (rule stale_upload_ignored) (simp add: upload_awaited_def)

text \<open>Hanging up, in any state that is not already paused and under either admission,
  stops the audio and the pulse timer, and starts no sound, lookup or recording.\<close>
theorem hang_up_resets_outputs:
  assumes "\<not> is_paused s"
  shows "{StopAudio, CancelPulseTimeout} \<subseteq> set (snd (handle_with_call_availability s HookOn a)) \<and>
    list_all (\<lambda>eff. \<not> is_fetch eff \<and> (\<forall>src. eff \<noteq> Play src) \<and> eff \<noteq> StartRecording)
      (snd (handle_with_call_availability s HookOn a))"
  using available_hook_on [OF assms, of a] by (auto simp: snd_admit_step is_fetch_def split_beta)

theorem hang_up_resets_outputs_witness:
  "{StopAudio, CancelPulseTimeout} \<subseteq>
     set (snd (handle_with_call_availability (State.Recording ''q'') HookOn False)) \<and>
   list_all (\<lambda>eff. \<not> is_fetch eff \<and> (\<forall>src. eff \<noteq> Play src) \<and> eff \<noteq> StartRecording)
     (snd (handle_with_call_availability (State.Recording ''q'') HookOn False))"
  by (rule hang_up_resets_outputs) (simp add: is_paused_def)

text \<open>C39. No state is a trap: from any state, hanging up, the recorder's answer and the
  upload's outcome (whichever of them the state ignores) leave the booth ready on hook.\<close>
theorem hang_up_recovers_to_idle:
  "fst (run_machine handle s [HookOn, RecordingFinished r, UploadFinished r oc]) = State.Idle"
  by (cases s; cases oc)
    (simp_all add: handle_def fst_admit_step available_defs)

text \<open>While calls are accepted, the last status written is the status of the current
  state, except in \<open>Error\<close>: a failed lookup or upload writes none, so the operator keeps
  the status from before the failure until the caller hangs up.\<close>
theorem advertised_status_agrees:
  fixes s :: State and es :: "Event list"
  defines "t \<equiv> fst (run_machine handle s es)"
  shows "is_error t \<or>
    foldl status_upd (status s) (snd (run_machine handle s es)) = status t"
  using advertised.agrees_run [of "status s" s es] by (simp add: status_agrees_def t_def)

text \<open>The divergence the previous property allows is real: when an off-hook caller's upload fails, the
  new state's status is \<open>Idle\<close> but the operator is left with \<open>Uploading\<close>.\<close>
theorem failed_upload_leaves_status_stale:
  "status (fst (handle (State.Uploading r q False) (Event.UploadFailed reason))) = BoothStatus.Idle \<and>
   foldl status_upd (status (State.Uploading r q False))
     (snd (handle (State.Uploading r q False) (Event.UploadFailed reason))) = BoothStatus.Uploading"
  by (simp add: handle_def handle_with_call_availability_def available_defs status_def
      status_upd_def status_led_for_def)

text \<open>A power-button event reboots or powers off in every state, paused or not, and
  leaves the call untouched.\<close>
theorem power_button_always_acts:
  assumes "is_power e"
  shows "handle_with_call_availability s e a =
    (s, [if e = PowerButtonPressed then Reboot else PowerOff])"
  using available_power [OF assms, of s a] by (simp add: handle_with_call_availability_def)

theorem power_button_always_acts_witness:
  "handle_with_call_availability (CallsPaused False) PowerButtonHeld False =
     (CallsPaused False, [PowerOff])"
  using power_button_always_acts [of PowerButtonHeld] by (simp add: is_power_def)

end
