(* ===== verification/Flac.thy ===== *)
theory Flac
  imports Prelude
begin

text \<open>
  The FLAC post-processing pass of \<open>crates/booth-pi/src/flac_frame.rs\<close>: it patches the
  sample-rate code into every frame header of an encoded stream and recomputes the header
  CRC-8 and the frame CRC-16. A stream is a list of bytes; \<open>&mut [u8]\<close> is state passing;
  \<open>usize\<close> values are naturals, with the platform's \<open>usize::MAX\<close> an argument where the
  code checks for overflow. Logging is left out.
\<close>

unbundle bit_operations_syntax

section \<open>Checksums\<close>

definition CRC8_POLY :: u8 where "CRC8_POLY = 0x07"
definition CRC16_POLY :: u16 where "CRC16_POLY = 0x8005"

definition FRAME_HEADER_PREFIX_LEN :: nat where "FRAME_HEADER_PREFIX_LEN = 4"
definition FRAME_FOOTER_LEN :: nat where "FRAME_FOOTER_LEN = 2"

definition crc8_bit :: "u8 \<Rightarrow> u8" where
  "crc8_bit crc = (if crc AND 0x80 = 0 then push_bit 1 crc else push_bit 1 crc XOR CRC8_POLY)"

definition crc16_bit :: "u16 \<Rightarrow> u16" where
  "crc16_bit crc = (if crc AND 0x8000 = 0 then push_bit 1 crc else push_bit 1 crc XOR CRC16_POLY)"

text \<open>The table entry for \<open>i\<close>: eight rounds of the inner \<open>while\<close> loop.\<close>

definition build_crc8_table :: "u8 list" where
  "build_crc8_table = map (\<lambda>i. (crc8_bit ^^ 8) (of_nat i)) [0..<256]"

definition build_crc16_table :: "u16 list" where
  "build_crc16_table = map (\<lambda>i. (crc16_bit ^^ 8) (push_bit 8 (of_nat i))) [0..<256]"

definition crc8 :: "u8 list \<Rightarrow> u8" where
  "crc8 bytes = foldl (\<lambda>crc byte. build_crc8_table ! unat (crc XOR byte)) 0 bytes"

definition crc16 :: "u8 list \<Rightarrow> u16" where
  "crc16 bytes = foldl (\<lambda>crc byte.
     push_bit 8 crc XOR build_crc16_table ! unat (ucast (drop_bit 8 crc) XOR byte :: u8)) 0 bytes"

definition to_be_bytes :: "u16 \<Rightarrow> u8 list" where
  "to_be_bytes w = [ucast (drop_bit 8 w), ucast w]"

section \<open>Frame headers\<close>

definition sample_rate_code :: "u32 \<Rightarrow> u8 option" where
  "sample_rate_code rate_hz =
     (if rate_hz = 88200 then Some 1
      else if rate_hz = 176400 then Some 2
      else if rate_hz = 192000 then Some 3
      else if rate_hz = 8000 then Some 4
      else if rate_hz = 16000 then Some 5
      else if rate_hz = 22050 then Some 6
      else if rate_hz = 24000 then Some 7
      else if rate_hz = 32000 then Some 8
      else if rate_hz = 44100 then Some 9
      else if rate_hz = 48000 then Some 10
      else if rate_hz = 96000 then Some 11
      else None)"

definition utf8_coded_number_len :: "u8 \<Rightarrow> nat option" where
  "utf8_coded_number_len lead =
     (if lead \<le> 0x7F then Some 1
      else if 0xC0 \<le> lead \<and> lead \<le> 0xDF then Some 2
      else if 0xE0 \<le> lead \<and> lead \<le> 0xEF then Some 3
      else if 0xF0 \<le> lead \<and> lead \<le> 0xF7 then Some 4
      else if 0xF8 \<le> lead \<and> lead \<le> 0xFB then Some 5
      else if 0xFC \<le> lead \<and> lead \<le> 0xFD then Some 6
      else if lead = 0xFE then Some 7
      else None)"

definition block_size_len :: "u8 \<Rightarrow> nat" where
  "block_size_len b = (if drop_bit 4 b = 6 then 1 else if drop_bit 4 b = 7 then 2 else 0)"

definition sample_rate_len :: "u8 \<Rightarrow> nat option" where
  "sample_rate_len b =
     (if b AND 0x0F = 12 then Some 1
      else if b AND 0x0F = 13 \<or> b AND 0x0F = 14 then Some 2
      else if b AND 0x0F = 15 then None
      else Some 0)"

definition frame_header_len :: "u8 list \<Rightarrow> nat option" where
  "frame_header_len frame =
     (if length frame < FRAME_HEADER_PREFIX_LEN + 2 \<or> frame ! 0 \<noteq> 0xFF \<or>
         frame ! 1 AND 0xFC \<noteq> 0xF8
      then None
      else case utf8_coded_number_len (frame ! FRAME_HEADER_PREFIX_LEN) of
        None \<Rightarrow> None
      | Some coded_number_len \<Rightarrow>
          (case sample_rate_len (frame ! 2) of
             None \<Rightarrow> None
           | Some rate_len \<Rightarrow>
               Some (FRAME_HEADER_PREFIX_LEN + coded_number_len + block_size_len (frame ! 2)
                 + rate_len + 1)))"

section \<open>The pass\<close>

datatype Preflight = Rewritable | AlreadyExplicit | Ineligible

text \<open>\<open>encoded.get(offset..offset + len)\<close>.\<close>

definition get_slice :: "u8 list \<Rightarrow> nat \<Rightarrow> nat \<Rightarrow> u8 list option" where
  "get_slice bytes offset len =
     (if offset + len \<le> length bytes then Some (take len (drop offset bytes)) else None)"

text \<open>Writing a slice back, as the \<open>&mut\<close> borrow of \<open>get_mut\<close> does.\<close>

definition put_slice :: "u8 list \<Rightarrow> nat \<Rightarrow> u8 list \<Rightarrow> u8 list" where
  "put_slice bytes offset part =
     take offset bytes @ part @ drop (offset + length part) bytes"

text \<open>The loop of \<open>preflight\<close>; \<open>None\<close> is its early \<open>return Ineligible\<close>.\<close>

fun preflight_loop ::
    "u8 list \<Rightarrow> u8 \<Rightarrow> nat list \<Rightarrow> nat \<Rightarrow> nat \<Rightarrow> nat \<Rightarrow> (nat \<times> nat) option" where
  "preflight_loop encoded code [] offset unspecified explicit = Some (unspecified, explicit)"
| "preflight_loop encoded code (len # lens) offset unspecified explicit =
     (case get_slice encoded offset len of
        None \<Rightarrow> None
      | Some frame \<Rightarrow>
          (case frame_header_len frame of
             None \<Rightarrow> None
           | Some header_len \<Rightarrow>
               if length frame < header_len + FRAME_FOOTER_LEN \<or>
                  frame ! (header_len - 1) \<noteq> crc8 (take (header_len - 1) frame)
               then None
               else if frame ! 2 AND 0x0F = 0 then
                 preflight_loop encoded code lens (offset + len) (unspecified + 1) explicit
               else if frame ! 2 AND 0x0F = code then
                 preflight_loop encoded code lens (offset + len) unspecified (explicit + 1)
               else None))"

definition preflight :: "u8 list \<Rightarrow> nat \<Rightarrow> nat list \<Rightarrow> u8 \<Rightarrow> Preflight" where
  "preflight encoded first_frame frame_lengths code =
     (case preflight_loop encoded code frame_lengths first_frame 0 0 of
        None \<Rightarrow> Ineligible
      | Some (unspecified, explicit) \<Rightarrow>
          if unspecified = length frame_lengths then Rewritable
          else if explicit = length frame_lengths then AlreadyExplicit
          else Ineligible)"

definition rewrite_frame :: "u8 list \<Rightarrow> u8 \<Rightarrow> u8 list \<times> bool" where
  "rewrite_frame frame code =
     (case frame_header_len frame of
        None \<Rightarrow> (frame, False)
      | Some header_len \<Rightarrow>
          if frame ! 2 AND 0x0F \<noteq> 0 \<or> length frame < header_len + FRAME_FOOTER_LEN
          then (frame, False)
          else
            let frame1 = frame[2 := (frame ! 2 AND 0xF0) OR code];
                crc8_index = header_len - 1;
                frame2 = frame1[crc8_index := crc8 (take crc8_index frame1)];
                footer_index = length frame2 - FRAME_FOOTER_LEN;
                checksum = to_be_bytes (crc16 (take footer_index frame2))
            in (take footer_index frame2 @ checksum, True))"

text \<open>The rewriting loop; a slice out of range breaks out of it.\<close>

fun rewrite_loop :: "u8 list \<Rightarrow> u8 \<Rightarrow> nat list \<Rightarrow> nat \<Rightarrow> nat \<Rightarrow> u8 list \<times> nat" where
  "rewrite_loop encoded code [] offset rewritten = (encoded, rewritten)"
| "rewrite_loop encoded code (len # lens) offset rewritten =
     (case get_slice encoded offset len of
        None \<Rightarrow> (encoded, rewritten)
      | Some frame \<Rightarrow>
          (let (frame', ok) = rewrite_frame frame code in
           rewrite_loop (put_slice encoded offset frame') code lens (offset + len)
             (if ok then rewritten + 1 else rewritten)))"

text \<open>\<open>try_fold\<close> with \<open>usize::checked_add\<close>.\<close>

fun checked_sum :: "nat \<Rightarrow> nat list \<Rightarrow> nat \<Rightarrow> nat option" where
  "checked_sum usize_max [] acc = Some acc"
| "checked_sum usize_max (len # lens) acc =
     (if acc + len \<le> usize_max then checked_sum usize_max lens (acc + len) else None)"

definition flac_magic :: "u8 list" where
  "flac_magic = [0x66, 0x4C, 0x61, 0x43]"   \<comment> \<open>\<open>b"fLaC"\<close>\<close>

definition rewrite_frame_sample_rates ::
    "nat \<Rightarrow> u8 list \<Rightarrow> nat list \<Rightarrow> u32 \<Rightarrow> u8 list \<times> nat" where
  "rewrite_frame_sample_rates usize_max encoded frame_lengths rate_hz =
     (case sample_rate_code rate_hz of
        None \<Rightarrow> (encoded, 0)
      | Some code \<Rightarrow>
          (case checked_sum usize_max frame_lengths 0 of
             None \<Rightarrow> (encoded, 0)
           | Some total_len \<Rightarrow>
               if length encoded < total_len then (encoded, 0)
               else
                 let first_frame = length encoded - total_len in
                 if take 4 encoded \<noteq> flac_magic then (encoded, 0)
                 else
                   (case preflight encoded first_frame frame_lengths code of
                      Rewritable \<Rightarrow> rewrite_loop encoded code frame_lengths first_frame 0
                    | AlreadyExplicit \<Rightarrow> (encoded, 0)
                    | Ineligible \<Rightarrow> (encoded, 0))))"

section \<open>One frame\<close>

definition header_valid :: "u8 \<Rightarrow> u8 list \<Rightarrow> bool" where
  "header_valid code frame =
     (case frame_header_len frame of
        None \<Rightarrow> False
      | Some h \<Rightarrow> h + FRAME_FOOTER_LEN \<le> length frame \<and>
          frame ! (h - 1) = crc8 (take (h - 1) frame) \<and> frame ! 2 AND 0x0F = code)"

definition footer_valid :: "u8 list \<Rightarrow> bool" where
  "footer_valid frame =
     (drop (length frame - 2) frame = to_be_bytes (crc16 (take (length frame - 2) frame)))"

text \<open>What the pass must not touch: all bytes but the rate nibble, the CRC-8 and the CRC-16.\<close>

definition payload :: "u8 list \<Rightarrow> u8 list" where
  "payload frame =
     (case frame_header_len frame of
        None \<Rightarrow> frame
      | Some h \<Rightarrow>
          take (h - 1) (frame[2 := frame ! 2 AND 0xF0]) @
          take (length frame - 2 - h) (drop h frame))"

text \<open>The fixed-width codes: a non-zero nibble below the variable-width ones.\<close>

definition good_code :: "u8 \<Rightarrow> bool" where
  "good_code code = (code \<noteq> 0 \<and> code AND 0x0F = code \<and> code AND 0xF0 = 0 \<and>
     drop_bit 4 code = 0 \<and> sample_rate_len code = Some 0)"

lemma good_sample_rate_code: "sample_rate_code rate = Some code \<Longrightarrow> good_code code"
  by (auto simp: sample_rate_code_def good_code_def sample_rate_len_def split: if_splits)

lemma high_nibble [simp]: "drop_bit 4 (x :: u8) AND 0xF = drop_bit 4 x"
proof -
  have "(0xF :: u8) = mask 4" by (simp add: mask_eq_exp_minus_1)
  then have "drop_bit 4 x AND 0xF = take_bit 4 (drop_bit 4 x)"
    by (simp add: take_bit_eq_mask)
  also have "\<dots> = drop_bit 4 (take_bit 8 x)"
    by (simp add: drop_bit_take_bit)
  also have "take_bit 8 x = x"
    by (rule take_bit_word_eq_self) simp
  finally show ?thesis .
qed

lemma patched_nibble:
  assumes "good_code code"
  shows "(x AND 0xF0 OR code) AND 0x0F = code"
    and "(x AND 0xF0 OR code) AND 0xF0 = x AND 0xF0"
    and "drop_bit 4 (x AND 0xF0 OR code) = drop_bit 4 x"
  using assms
  by (simp_all add: good_code_def bit.conj_disj_distrib2 and.assoc drop_bit_or drop_bit_and)

lemma patched_lens:
  assumes "good_code code" and "x AND 0x0F = 0"
  shows "sample_rate_len (x AND 0xF0 OR code) = sample_rate_len x"
    and "block_size_len (x AND 0xF0 OR code) = block_size_len x"
proof -
  show "block_size_len (x AND 0xF0 OR code) = block_size_len x"
    unfolding block_size_len_def patched_nibble(3) [OF assms(1)] ..
  have "sample_rate_len (x AND 0xF0 OR code) = sample_rate_len code"
    unfolding sample_rate_len_def patched_nibble(1) [OF assms(1)]
    using assms(1) by (simp add: good_code_def)
  also have "\<dots> = sample_rate_len x"
    using assms by (simp add: good_code_def) (simp add: sample_rate_len_def)
  finally show "sample_rate_len (x AND 0xF0 OR code) = sample_rate_len x" .
qed

lemma frame_header_len_bounds:
  "frame_header_len frame = Some h \<Longrightarrow> 6 \<le> h \<and> 6 \<le> length frame"
  by (auto simp: frame_header_len_def FRAME_HEADER_PREFIX_LEN_def utf8_coded_number_len_def
      split: option.splits if_splits)

lemma frame_header_len_cong:
  assumes "length g = length f" and "g ! 0 = f ! 0" and "g ! 1 = f ! 1" and "g ! 4 = f ! 4"
    and "sample_rate_len (g ! 2) = sample_rate_len (f ! 2)"
    and "block_size_len (g ! 2) = block_size_len (f ! 2)"
  shows "frame_header_len g = frame_header_len f"
  using assms by (simp add: frame_header_len_def FRAME_HEADER_PREFIX_LEN_def split: option.split)

text \<open>
  The rewritten frame, byte by byte: the patched rate nibble at 2, the CRC-8 at the end of
  the header, the CRC-16 in the last two bytes.
\<close>

definition patched :: "u8 list \<Rightarrow> u8 \<Rightarrow> nat \<Rightarrow> u8 list" where
  "patched frame code h =
     (let frame1 = frame[2 := (frame ! 2 AND 0xF0) OR code]
      in frame1[h - 1 := crc8 (take (h - 1) frame1)])"

lemma rewrite_frame_valid:
  assumes "header_valid 0 frame"
  obtains h where "frame_header_len frame = Some h" and "h + 2 \<le> length frame" and "6 \<le> h"
    and "frame ! 2 AND 0x0F = 0"
    and "rewrite_frame frame code =
      (take (length frame - 2) (patched frame code h) @
         to_be_bytes (crc16 (take (length frame - 2) (patched frame code h))), True)"
proof -
  obtain h where h: "frame_header_len frame = Some h" "h + 2 \<le> length frame"
    "frame ! 2 AND 0x0F = 0"
    using assms by (auto simp: header_valid_def FRAME_FOOTER_LEN_def split: option.splits)
  then show ?thesis
    using that frame_header_len_bounds [OF h(1)]
    by (simp add: rewrite_frame_def FRAME_FOOTER_LEN_def patched_def Let_def)
qed

lemma length_patched [simp]: "length (patched frame code h) = length frame"
  by (simp add: patched_def Let_def)

lemma length_to_be_bytes [simp]: "length (to_be_bytes w) = 2"
  by (simp add: to_be_bytes_def)

lemma nth_patched:
  "i < length frame \<Longrightarrow> i \<noteq> h - 1 \<Longrightarrow>
   patched frame code h ! i = (if i = 2 then (frame ! 2 AND 0xF0) OR code else frame ! i)"
  by (auto simp: patched_def Let_def nth_list_update)

lemma patched_crc8:
  "h - 1 < length frame \<Longrightarrow>
   patched frame code h ! (h - 1) = crc8 (take (h - 1) (patched frame code h))"
  by (simp add: patched_def Let_def)

lemma take_patched:
  "take (h - 1) (patched frame code h) = take (h - 1) (frame[2 := (frame ! 2 AND 0xF0) OR code])"
  by (simp add: patched_def Let_def)

lemma drop_patched: "2 < h \<Longrightarrow> drop h (patched frame code h) = drop h frame"
  by (simp add: patched_def Let_def)

lemma rewrite_frame_result:
  assumes "header_valid 0 frame" and "good_code code"
  defines "frame' \<equiv> fst (rewrite_frame frame code)"
  shows "length frame' = length frame"
    and "snd (rewrite_frame frame code)"
    and "header_valid code frame'"
    and "footer_valid frame'"
    and "payload frame' = payload frame"
proof -
  obtain h where h: "frame_header_len frame = Some h" "h + 2 \<le> length frame" "6 \<le> h"
    "frame ! 2 AND 0x0F = 0"
    and rw: "rewrite_frame frame code =
      (take (length frame - 2) (patched frame code h) @
         to_be_bytes (crc16 (take (length frame - 2) (patched frame code h))), True)"
    using rewrite_frame_valid [OF assms(1)] by metis
  let ?p = "patched frame code h"
  have frame': "frame' = take (length frame - 2) ?p @
      to_be_bytes (crc16 (take (length frame - 2) ?p))"
    by (simp add: frame'_def rw)
  show len: "length frame' = length frame"
    using h by (simp add: frame')
  show "snd (rewrite_frame frame code)"
    by (simp add: rw)
  have nth: "frame' ! i = ?p ! i" if "i < length frame - 2" for i
    using that by (simp add: frame' nth_append)
  have take_eq: "take k frame' = take k ?p" if "k \<le> length frame - 2" for k
    using that h by (auto simp: frame' min_def)
  have early: "?p ! i = (if i = 2 then (frame ! 2 AND 0xF0) OR code else frame ! i)" if "i < 5" for i
    by (rule nth_patched) (use that h in auto)
  have two: "frame' ! 2 = (frame ! 2 AND 0xF0) OR code"
    using h by (simp add: nth early)
  have header: "frame_header_len frame' = Some h"
    using h patched_lens [OF assms(2) h(4)]
    by (subst frame_header_len_cong [of frame' frame]) (simp_all add: len nth early two)
  have "?p ! (h - 1) = crc8 (take (h - 1) ?p)"
    by (rule patched_crc8) (use h in simp)
  then show "header_valid code frame'"
    using h patched_nibble(1) [OF assms(2)]
    by (simp add: header_valid_def header len two FRAME_FOOTER_LEN_def nth take_eq)
  show "footer_valid frame'"
    using h by (simp add: footer_valid_def len frame')
  have "take (h - 1) (frame'[2 := frame' ! 2 AND 0xF0]) =
      (take (h - 1) frame)[2 := frame ! 2 AND 0xF0]"
    using h by (simp add: take_update_swap take_eq take_patched [unfolded One_nat_def] two
        patched_nibble [OF assms(2)])
  moreover have "take (length frame - 2 - h) (drop h frame') = take (length frame - 2 - h) (drop h frame)"
    using h by (simp add: frame' drop_take drop_patched)
  ultimately show "payload frame' = payload frame"
    by (simp add: payload_def header h len take_update_swap)
qed

section \<open>The stream\<close>

text \<open>The frames the lengths cut out of a stream, from an offset on.\<close>

fun slices :: "u8 list \<Rightarrow> nat list \<Rightarrow> nat \<Rightarrow> u8 list list" where
  "slices encoded [] offset = []"
| "slices encoded (len # lens) offset =
     take len (drop offset encoded) # slices encoded lens (offset + len)"

lemma length_slices [simp]: "length (slices encoded lens offset) = length lens"
  by (induction lens arbitrary: offset) simp_all

lemma slices_drop:
  "drop offset xs = drop offset ys \<Longrightarrow> slices xs lens offset = slices ys lens offset"
proof (induction lens arbitrary: offset)
  case (Cons len lens)
  then have "drop (offset + len) xs = drop (offset + len) ys"
    by (metis add.commute drop_drop)
  then show ?case
    using Cons by simp
qed simp

lemma slices_concat:
  "slices (pre @ concat fs @ rest) (map length fs) (length pre) = fs"
proof (induction fs arbitrary: pre)
  case (Cons f fs)
  have "slices (pre @ concat (f # fs) @ rest) (map length fs) (length pre + length f) = fs"
    using Cons.IH [of "pre @ f"] by simp
  then show ?case by simp
qed simp

lemma concat_slices:
  "offset + sum_list lens \<le> length encoded \<Longrightarrow>
   concat (slices encoded lens offset) = take (sum_list lens) (drop offset encoded)"
  by (induction lens arbitrary: offset) (simp_all add: take_add add.assoc add.commute)

lemma map_length_slices:
  "offset + sum_list lens \<le> length encoded \<Longrightarrow> map length (slices encoded lens offset) = lens"
  by (induction lens arbitrary: offset) (simp_all add: add.assoc)

lemma checked_sum_Some:
  "checked_sum m lens acc = Some t \<Longrightarrow> t = acc + sum_list lens"
  by (induction lens arbitrary: acc) (fastforce split: if_splits simp: add.assoc)+

subsection \<open>Pre-flight\<close>

lemma preflight_loop_Cons:
  "preflight_loop encoded code (len # lens) offset u e =
     (case get_slice encoded offset len of
        None \<Rightarrow> None
      | Some frame \<Rightarrow>
          if header_valid 0 frame then preflight_loop encoded code lens (offset + len) (u + 1) e
          else if header_valid code frame then preflight_loop encoded code lens (offset + len) u (e + 1)
          else None)"
  by (auto simp: header_valid_def split: option.split)

lemma preflight_loop_unspecified:
  "preflight_loop encoded code lens offset u e = Some (u', e') \<Longrightarrow>
   u' \<le> u + length lens \<and>
   (u' = u + length lens \<longrightarrow> list_all (header_valid 0) (slices encoded lens offset))"
proof (induction lens arbitrary: offset u e)
  case (Cons len lens)
  let ?f = "take len (drop offset encoded)"
  show ?case
  proof (cases "header_valid 0 ?f")
    case True
    then show ?thesis
      using Cons.prems Cons.IH [of "offset + len" "u + 1" e]
      by (simp add: preflight_loop_Cons get_slice_def del: preflight_loop.simps split: if_splits)
  next
    case False
    then show ?thesis
      using Cons.prems Cons.IH [of "offset + len" u "e + 1"]
      by (simp add: preflight_loop_Cons get_slice_def del: preflight_loop.simps split: if_splits)
  qed
qed simp

lemma header_valid_unique: "header_valid a frame \<Longrightarrow> header_valid b frame \<Longrightarrow> a = b"
  by (simp add: header_valid_def split: option.splits)

lemma preflight_loop_explicit:
  "offset + sum_list lens \<le> length encoded \<Longrightarrow> code \<noteq> 0 \<Longrightarrow>
   list_all (header_valid code) (slices encoded lens offset) \<Longrightarrow>
   preflight_loop encoded code lens offset u e = Some (u, e + length lens)"
proof (induction lens arbitrary: offset e)
  case (Cons len lens)
  have "\<not> header_valid 0 (take len (drop offset encoded))"
    using Cons.prems header_valid_unique by fastforce
  then show ?case
    using Cons.prems Cons.IH [of "offset + len" "e + 1"]
    by (simp add: preflight_loop_Cons get_slice_def add.assoc del: preflight_loop.simps)
qed simp

lemma preflight_Rewritable:
  "preflight encoded first lens code = Rewritable \<Longrightarrow>
   list_all (header_valid 0) (slices encoded lens first)"
  by (auto simp: preflight_def dest!: preflight_loop_unspecified split: option.splits if_splits)

subsection \<open>Rewriting\<close>

lemma rewrite_loop_valid:
  assumes "good_code code"
  shows "offset + sum_list lens \<le> length encoded \<Longrightarrow>
    list_all (header_valid 0) (slices encoded lens offset) \<Longrightarrow>
    rewrite_loop encoded code lens offset n =
      (take offset encoded @
         concat (map (\<lambda>f. fst (rewrite_frame f code)) (slices encoded lens offset)) @
         drop (offset + sum_list lens) encoded,
       n + length lens)"
proof (induction lens arbitrary: encoded offset n)
  case Nil
  then show ?case by simp
next
  case (Cons len lens)
  let ?f = "take len (drop offset encoded)"
  let ?f' = "fst (rewrite_frame ?f code)"
  let ?enc = "put_slice encoded offset ?f'"
  have f: "header_valid 0 ?f" and rest: "list_all (header_valid 0) (slices encoded lens (offset + len))"
    using Cons.prems(2) by simp_all
  note f' = rewrite_frame_result [OF f assms]
  have len': "length ?f' = len"
    using Cons.prems(1) f'(1) by simp
  have enc: "take (offset + len) ?enc = take offset encoded @ ?f'"
    "drop (offset + len) ?enc = drop (offset + len) encoded"
    "length ?enc = length encoded"
    using Cons.prems(1) len' by (simp_all add: put_slice_def)
  have slices: "slices ?enc lens (offset + len) = slices encoded lens (offset + len)"
    using enc(2) by (rule slices_drop)
  have drop: "drop (offset + len + sum_list lens) ?enc = drop (offset + len + sum_list lens) encoded"
    using enc(2) by (metis add.commute drop_drop)
  have "rewrite_loop ?enc code lens (offset + len) (Suc n) =
      (take (offset + len) ?enc @
         concat (map (\<lambda>f. fst (rewrite_frame f code)) (slices ?enc lens (offset + len))) @
         drop (offset + len + sum_list lens) ?enc,
       Suc n + length lens)"
    using Cons.prems(1) rest by (intro Cons.IH) (simp_all add: enc slices)
  then show ?case
    using Cons.prems(1) f'(2) by (simp add: get_slice_def split_beta Let_def enc slices drop [unfolded add.assoc] add.assoc)
qed

section \<open>The checksums against bit-serial references\<close>

text \<open>
  A CRC register clocked one bit at a time is linear for exclusive or; that is all the
  table-driven form needs.
\<close>

locale crc_register =
  fixes bit_step :: "'a::len word \<Rightarrow> 'a word"
  assumes linear: "bit_step (x XOR y) = bit_step x XOR bit_step y"
begin

lemma steps_linear: "(bit_step ^^ n) (x XOR y) = (bit_step ^^ n) x XOR (bit_step ^^ n) y"
  by (induction n) (simp_all add: linear)

lemma steps_zero: "(bit_step ^^ n) 0 = 0"
  using steps_linear [of n 0 0] by simp

end

lemma crc8_bit_alt: "crc8_bit x = push_bit 1 x XOR (if bit x 7 then CRC8_POLY else 0)"
proof -
  have "x AND 0x80 = 0 \<longleftrightarrow> \<not> bit x 7"
    using and_exp_eq_0_iff_not_bit [of x 7] by simp
  then show ?thesis by (simp add: crc8_bit_def)
qed

lemma crc16_bit_alt: "crc16_bit x = push_bit 1 x XOR (if bit x 15 then CRC16_POLY else 0)"
proof -
  have "x AND 0x8000 = 0 \<longleftrightarrow> \<not> bit x 15"
    using and_exp_eq_0_iff_not_bit [of x 15] by simp
  then show ?thesis by (simp add: crc16_bit_def)
qed

interpretation crc8_register: crc_register crc8_bit
  by unfold_locales
    (auto simp: crc8_bit_alt push_bit_xor bit_xor_iff xor.assoc xor.left_commute)

interpretation crc16_register: crc_register crc16_bit
  by unfold_locales
    (auto simp: crc16_bit_alt push_bit_xor bit_xor_iff xor.assoc xor.left_commute)

definition crc8_reference :: "u8 list \<Rightarrow> u8" where
  "crc8_reference bytes = foldl (\<lambda>crc byte. (crc8_bit ^^ 8) (crc XOR byte)) 0 bytes"

definition crc16_reference :: "u8 list \<Rightarrow> u16" where
  "crc16_reference bytes =
     foldl (\<lambda>crc byte. (crc16_bit ^^ 8) (crc XOR push_bit 8 (ucast byte))) 0 bytes"

lemma unat_u8_less: "unat (x :: u8) < 256"
  by (rule order_less_le_trans [OF unsigned_less]) simp

lemma crc8_table_nth: "build_crc8_table ! unat x = (crc8_bit ^^ 8) (x :: u8)"
  using unat_u8_less [of x] by (simp add: build_crc8_table_def)

lemma crc16_table_nth:
  "build_crc16_table ! unat (x :: u8) = (crc16_bit ^^ 8) (push_bit 8 (ucast x))"
  using unat_u8_less [of x] by (simp add: build_crc16_table_def)

lemma crc16_bit_low:
  assumes "take_bit 15 x = x"
  shows "crc16_bit x = push_bit 1 x"
proof -
  have "\<not> bit (take_bit 15 x) 15" by (simp add: bit_take_bit_iff)
  then have "\<not> bit x 15" by (simp only: assms not_False_eq_True)
  then show ?thesis by (simp add: crc16_bit_alt)
qed

lemma crc16_bits_low: "k \<le> 8 \<Longrightarrow> (crc16_bit ^^ k) (take_bit 8 x) = push_bit k (take_bit 8 x)"
proof (induction k)
  case (Suc k)
  have "take_bit 15 (push_bit k (take_bit 8 x)) = push_bit k (take_bit 8 x)"
    using Suc.prems by (intro bit_word_eqI) (auto simp: bit_simps)
  then show ?case
    using Suc by (simp add: crc16_bit_low push_bit_push_bit)
qed simp

lemma crc16_step:
  "(crc16_bit ^^ 8) (crc XOR push_bit 8 (ucast (byte :: u8))) =
     push_bit 8 crc XOR build_crc16_table ! unat (ucast (drop_bit 8 crc) XOR byte :: u8)"
proof -
  have "crc XOR push_bit 8 (ucast byte) =
      take_bit 8 crc XOR push_bit 8 (ucast (ucast (drop_bit 8 crc) XOR byte :: u8))"
    by (rule bit_word_eqI) (auto simp: bit_simps)
  then have "(crc16_bit ^^ 8) (crc XOR push_bit 8 (ucast byte)) =
      push_bit 8 (take_bit 8 crc) XOR
      (crc16_bit ^^ 8) (push_bit 8 (ucast (ucast (drop_bit 8 crc) XOR byte :: u8)))"
    by (simp only: crc16_register.steps_linear crc16_bits_low order.refl)
  also have "push_bit 8 (take_bit 8 crc) = push_bit 8 crc"
    by (rule bit_word_eqI) (auto simp: bit_simps)
  finally show ?thesis
    by (simp only: crc16_table_nth)
qed

lemma crc8_eq_reference: "crc8 bytes = crc8_reference bytes"
  by (simp only: crc8_def crc8_reference_def crc8_table_nth)

lemma crc16_eq_reference: "crc16 bytes = crc16_reference bytes"
  by (simp only: crc16_def crc16_reference_def crc16_step)

lemma crc8_residue: "crc8 (bytes @ [crc8 bytes]) = 0"
  by (simp add: crc8_eq_reference) (simp add: crc8_reference_def crc8_register.steps_zero)

lemma crc16_two:
  "crc16 (bytes @ [x, y]) =
     (crc16_bit ^^ 8) ((crc16_bit ^^ 8) (crc16 bytes XOR push_bit 8 (ucast x)) XOR push_bit 8 (ucast y))"
  by (simp only: crc16_eq_reference) (simp only: crc16_reference_def foldl_append foldl.simps)

lemma crc16_residue: "crc16 (bytes @ to_be_bytes (crc16 bytes)) = 0"
proof -
  let ?c = "crc16 bytes"
  have "build_crc16_table ! unat (0 :: u8) = 0"
    by (simp only: crc16_table_nth) (simp add: crc16_register.steps_zero)
  then have hi: "(crc16_bit ^^ 8) (?c XOR push_bit 8 (ucast (ucast (drop_bit 8 ?c) :: u8))) =
      push_bit 8 ?c"
    by (simp only: crc16_step xor_self_eq xor.right_neutral)
  have lo: "push_bit 8 ?c XOR push_bit 8 (ucast (ucast ?c :: u8)) = 0"
    by (rule bit_word_eqI) (auto simp: bit_simps)
  show ?thesis
    by (simp only: to_be_bytes_def crc16_two hi lo crc16_register.steps_zero)
qed

lemma footer_valid_residue:
  assumes "footer_valid frame"
  shows "crc16 frame = 0"
proof -
  let ?k = "length frame - 2"
  have "frame = take ?k frame @ to_be_bytes (crc16 (take ?k frame))"
    using assms append_take_drop_id [of ?k frame] by (simp add: footer_valid_def)
  then show ?thesis
    by (metis crc16_residue)
qed


section \<open>Properties\<close>

text \<open>
  A stream is eligible when its rate has a fixed-width code, it starts with the FLAC magic,
  the frame lengths fit it, and every frame they cut out has a sound header that leaves the
  rate unspecified.
\<close>

definition rewritable :: "nat \<Rightarrow> u8 list \<Rightarrow> nat list \<Rightarrow> u32 \<Rightarrow> bool" where
  "rewritable usize_max encoded lens rate_hz =
     (sample_rate_code rate_hz \<noteq> None \<and> checked_sum usize_max lens 0 \<noteq> None \<and>
      sum_list lens \<le> length encoded \<and> take 4 encoded = flac_magic \<and>
      list_all (header_valid 0) (slices encoded lens (length encoded - sum_list lens)))"

lemma preflight_loop_rewritable:
  "offset + sum_list lens \<le> length encoded \<Longrightarrow>
   list_all (header_valid 0) (slices encoded lens offset) \<Longrightarrow>
   preflight_loop encoded code lens offset u e = Some (u + length lens, e)"
proof (induction lens arbitrary: offset u)
  case (Cons len lens)
  then show ?case
    using Cons.IH [of "offset + len" "u + 1"]
    by (simp add: preflight_loop_Cons get_slice_def add.assoc del: preflight_loop.simps)
qed simp

lemma preflight_Rewritable_iff:
  "first + sum_list lens \<le> length encoded \<Longrightarrow>
   preflight encoded first lens code = Rewritable \<longleftrightarrow>
     list_all (header_valid 0) (slices encoded lens first)"
  using preflight_Rewritable [of encoded first lens code]
  by (cases "list_all (header_valid 0) (slices encoded lens first)")
    (auto simp: preflight_def preflight_loop_rewritable)

text \<open>The result in both cases, with the rewritten frames spelt out.\<close>

lemma rewrite_untouched:
  "\<not> rewritable m encoded lens rate \<Longrightarrow> rewrite_frame_sample_rates m encoded lens rate = (encoded, 0)"
  by (auto simp: rewrite_frame_sample_rates_def rewritable_def preflight_Rewritable_iff Let_def
      split: option.split Preflight.split dest: checked_sum_Some)

definition rewritten_frames :: "u8 \<Rightarrow> u8 list \<Rightarrow> nat list \<Rightarrow> u8 list list" where
  "rewritten_frames code encoded lens =
     map (\<lambda>f. fst (rewrite_frame f code)) (slices encoded lens (length encoded - sum_list lens))"

lemma rewrite_rewritable:
  assumes "rewritable m encoded lens rate" and "sample_rate_code rate = Some code"
  shows "rewrite_frame_sample_rates m encoded lens rate =
    (take (length encoded - sum_list lens) encoded @ concat (rewritten_frames code encoded lens),
     length lens)"
proof -
  obtain t where t: "checked_sum m lens 0 = Some t"
    using assms(1) by (auto simp: rewritable_def)
  have "t = sum_list lens"
    using checked_sum_Some [OF t] by simp
  moreover have "preflight encoded (length encoded - sum_list lens) lens code = Rewritable"
    using assms(1) by (simp add: rewritable_def preflight_Rewritable_iff)
  ultimately show ?thesis using t
    using assms rewrite_loop_valid [OF good_sample_rate_code [OF assms(2)],
        of "length encoded - sum_list lens" lens encoded 0]
    by (simp add: rewrite_frame_sample_rates_def rewritable_def rewritten_frames_def Let_def)
qed

lemma rewritten_frames_valid:
  assumes "rewritable m encoded lens rate" and "sample_rate_code rate = Some code"
  shows "list_all (\<lambda>f. header_valid code f \<and> footer_valid f) (rewritten_frames code encoded lens)"
    and "map payload (rewritten_frames code encoded lens) =
      map payload (slices encoded lens (length encoded - sum_list lens))"
    and "map length (rewritten_frames code encoded lens) = lens"
proof -
  let ?fs = "slices encoded lens (length encoded - sum_list lens)"
  have valid: "list_all (header_valid 0) ?fs" and len: "map length ?fs = lens"
    using assms(1) by (simp_all add: rewritable_def map_length_slices)
  note frame = rewrite_frame_result [OF _ good_sample_rate_code [OF assms(2)]]
  show "list_all (\<lambda>f. header_valid code f \<and> footer_valid f) (rewritten_frames code encoded lens)"
    using valid frame by (simp add: rewritten_frames_def list_all_iff)
  show "map payload (rewritten_frames code encoded lens) = map payload ?fs"
    using valid frame by (simp add: rewritten_frames_def list_all_iff)
  have "map length (rewritten_frames code encoded lens) = map length ?fs"
    using valid frame by (simp add: rewritten_frames_def list_all_iff)
  then show "map length (rewritten_frames code encoded lens) = lens"
    by (simp add: len)
qed

lemma slices_rewritten:
  assumes "rewritable m encoded lens rate" and "sample_rate_code rate = Some code"
  defines "out \<equiv> fst (rewrite_frame_sample_rates m encoded lens rate)"
  shows "slices out lens (length encoded - sum_list lens) = rewritten_frames code encoded lens"
    and "length out = length encoded"
    and "take (length encoded - sum_list lens) out = take (length encoded - sum_list lens) encoded"
proof -
  let ?k = "length encoded - sum_list lens"
  let ?fs = "rewritten_frames code encoded lens"
  have len: "map length ?fs = lens" and fits: "sum_list lens \<le> length encoded"
    using rewritten_frames_valid(3) [OF assms(1,2)] assms(1) by (simp_all add: rewritable_def)
  have out: "out = take ?k encoded @ concat ?fs @ []"
    by (simp add: out_def rewrite_rewritable [OF assms(1,2)])
  show "slices out lens ?k = ?fs"
    using slices_concat [of "take ?k encoded" ?fs "[]"] by (simp add: out len)
  show "length out = length encoded"
    using fits by (simp add: out length_concat len)
  show "take ?k out = take ?k encoded"
    by (simp add: out)
qed

text \<open>The magic is never overwritten: no frame of an eligible stream starts before byte 4.\<close>

lemma first_frame_after_magic:
  assumes "rewritable m encoded lens rate" and "lens \<noteq> []"
  shows "4 \<le> length encoded - sum_list lens"
proof (rule ccontr)
  let ?k = "length encoded - sum_list lens"
  assume "\<not> 4 \<le> ?k"
  then have k: "?k < 4" by simp
  obtain len ls where lens: "lens = len # ls" using assms(2) by (cases lens) simp_all
  have "header_valid 0 (take len (drop ?k encoded))"
    using assms(1) by (simp add: rewritable_def lens)
  then have first: "6 \<le> len" "take len (drop ?k encoded) ! 0 = 0xFF"
    by (auto simp: header_valid_def frame_header_len_def FRAME_HEADER_PREFIX_LEN_def
        split: option.splits if_splits)
  have fits: "sum_list lens \<le> length encoded" and magic: "take 4 encoded = flac_magic"
    using assms(1) by (simp_all add: rewritable_def)
  have "encoded ! ?k = 0xFF"
    using first fits k by (simp add: lens)
  moreover have "encoded ! ?k = flac_magic ! ?k"
    using k by (simp flip: magic)
  moreover have "flac_magic ! i \<noteq> 0xFF" if "i < 4" for i
  proof -
    have "i = 0 \<or> i = 1 \<or> i = 2 \<or> i = 3" using that by arith
    then show ?thesis by (elim disjE) (simp_all add: flac_magic_def)
  qed
  ultimately show False using k by simp
qed


text \<open>The pass is all-or-nothing: an eligible stream has every one of its frames rewritten, keeps its length and every byte before the first frame; any other stream comes back byte for byte with a count of zero, so the \<open>debug_assert_eq!\<close> on the count never fires and no partial rewrite is possible.\<close>
theorem rewrite_all_or_nothing:
  "case rewrite_frame_sample_rates usize_max encoded lens rate of (encoded', n) \<Rightarrow>
     if rewritable usize_max encoded lens rate
     then n = length lens \<and> length encoded' = length encoded \<and>
       take (length encoded - sum_list lens) encoded' = take (length encoded - sum_list lens) encoded
     else encoded' = encoded \<and> n = 0"
proof (cases "rewritable usize_max encoded lens rate")
  case True
  then obtain code where code: "sample_rate_code rate = Some code"
    by (auto simp: rewritable_def)
  show ?thesis
    using True slices_rewritten(2,3) [OF True code]
    by (simp add: split_beta rewrite_rewritable [OF True code])
qed (simp add: rewrite_untouched)

text \<open>C24. When the pass reports rewritten frames, every frame of the new stream parses, declares the rate's explicit code, carries a header CRC-8 that matches its header and a CRC-16 footer that matches the frame, so that the CRC-16 over the whole frame is zero; everything else in each frame (blocking, block size, channels, coded number, audio payload) is what it was.\<close>
theorem rewrite_repairs_frames:
  assumes "rewrite_frame_sample_rates usize_max encoded lens rate = (encoded', n)" and "0 < n"
  shows "\<exists>code. sample_rate_code rate = Some code \<and>
    list_all (\<lambda>frame. header_valid code frame \<and> crc16 frame = 0)
      (slices encoded' lens (length encoded - sum_list lens)) \<and>
    map payload (slices encoded' lens (length encoded - sum_list lens)) =
      map payload (slices encoded lens (length encoded - sum_list lens))"
proof -
  have ok: "rewritable usize_max encoded lens rate"
    using assms rewrite_untouched [of usize_max encoded lens rate] by fastforce
  then obtain code where code: "sample_rate_code rate = Some code"
    by (auto simp: rewritable_def)
  have "slices encoded' lens (length encoded - sum_list lens) = rewritten_frames code encoded lens"
    using slices_rewritten(1) [OF ok code] by (simp add: assms(1))
  then show ?thesis
    using code rewritten_frames_valid(1,2) [OF ok code]
    by (auto simp: list_all_iff footer_valid_residue)
qed

text \<open>The pass is idempotent: run again on its own output it finds the frames explicit (or still ineligible), rewrites none and returns the stream unchanged.\<close>
theorem rewrite_idempotent:
  "rewrite_frame_sample_rates usize_max
     (fst (rewrite_frame_sample_rates usize_max encoded lens rate)) lens rate =
   (fst (rewrite_frame_sample_rates usize_max encoded lens rate), 0)"
proof (cases "rewritable usize_max encoded lens rate \<and> lens \<noteq> []")
  case True
  then have ok: "rewritable usize_max encoded lens rate" by simp
  then obtain code where code: "sample_rate_code rate = Some code"
    by (auto simp: rewritable_def)
  let ?out = "fst (rewrite_frame_sample_rates usize_max encoded lens rate)"
  note out = slices_rewritten [OF ok code]
  have "list_all (header_valid code) (slices ?out lens (length ?out - sum_list lens))"
    using out(1,2) rewritten_frames_valid(1) [OF ok code] by (simp add: list_all_iff)
  moreover have "code \<noteq> 0"
    using good_sample_rate_code [OF code] by (simp add: good_code_def)
  ultimately have "\<not> rewritable usize_max ?out lens rate"
    using True header_valid_unique
    by (cases lens) (fastforce simp: rewritable_def)+
  then show ?thesis by (rule rewrite_untouched)
next
  case False
  then show ?thesis
    using rewrite_untouched [of usize_max encoded lens rate]
    by (cases "rewritable usize_max encoded lens rate")
      (auto simp: rewritable_def rewrite_rewritable rewritten_frames_def)
qed

text \<open>The table-driven checksums compute what a shift register clocked bit by bit computes, CRC-8 with polynomial 0x07 and CRC-16 with 0x8005, on every byte string.\<close>
theorem table_checksums_correct:
  "crc8 bytes = crc8_reference bytes \<and> crc16 bytes = crc16_reference bytes"
  by (simp only: crc8_eq_reference crc16_eq_reference)


text \<open>One 9-byte frame behind the magic, at 44.1 kHz.\<close>

definition sample_stream :: "u8 list" where
  "sample_stream = [0x66, 0x4C, 0x61, 0x43, 0xFF, 0xF8, 0x10, 0, 0, 0x28, 0x55, 0, 0]"

lemma funpow_8: "(f ^^ 8) x = f (f (f (f (f (f (f (f x)))))))"
  by (simp add: eval_nat_numeral)

lemma sample_stream_rewritable: "rewritable 100 sample_stream [9] 44100"
proof -
  have "crc8 [0xFF, 0xF8, 0x10, 0, 0] = 0x28"
    by (simp add: crc8_eq_reference crc8_reference_def crc8_bit_def CRC8_POLY_def funpow_8)
  then show ?thesis
    by (simp add: rewritable_def sample_stream_def sample_rate_code_def flac_magic_def
        header_valid_def frame_header_len_def FRAME_HEADER_PREFIX_LEN_def FRAME_FOOTER_LEN_def
        utf8_coded_number_len_def block_size_len_def sample_rate_len_def)
qed

lemma rewrite_repairs_frames_witness:
  "\<exists>encoded'. rewrite_frame_sample_rates 100 sample_stream [9] 44100 = (encoded', 1) \<and>
     list_all (\<lambda>frame. header_valid 9 frame \<and> crc16 frame = 0)
       (slices encoded' [9] (length sample_stream - sum_list [9]))"
proof -
  have code: "sample_rate_code 44100 = Some 9"
    by (simp add: sample_rate_code_def)
  obtain encoded' where run: "rewrite_frame_sample_rates 100 sample_stream [9] 44100 = (encoded', 1)"
    using rewrite_rewritable [OF sample_stream_rewritable code] by simp
  then show ?thesis
    using rewrite_repairs_frames [OF run] code by auto
qed

end
