(* ===== verification/Strings.thy ===== *)
theory Strings
  imports Prelude
begin

text \<open>
  String operations of the Rust standard library that several components use: searching for
  a character, file-name extension and stem, parsing and zero-padded printing of unsigned
  decimals. A \<open>&str\<close> is the list of its bytes.
\<close>

section \<open>Searching\<close>

text \<open>\<open>str::find\<close> and \<open>str::rfind\<close> of a character.\<close>

fun find_char :: "char \<Rightarrow> string \<Rightarrow> nat option" where
  "find_char c [] = None"
| "find_char c (x # xs) = (if x = c then Some 0 else map_option Suc (find_char c xs))"

fun rfind_char :: "char \<Rightarrow> string \<Rightarrow> nat option" where
  "rfind_char c [] = None"
| "rfind_char c (x # xs) =
     (case rfind_char c xs of
        Some n \<Rightarrow> Some (Suc n)
      | None \<Rightarrow> (if x = c then Some 0 else None))"

lemma find_char_takeWhile:
  "find_char c s = (if c \<in> set s then Some (length (takeWhile (\<lambda>x. x \<noteq> c) s)) else None)"
  by (induction s) auto

lemma take_find_char:
  "take (case find_char c s of Some n \<Rightarrow> n | None \<Rightarrow> length s) s = takeWhile (\<lambda>x. x \<noteq> c) s"
  by (induction s) (auto split: option.splits)

lemma rfind_char_None_iff: "rfind_char c xs = None \<longleftrightarrow> c \<notin> set xs"
  by (induction xs) (auto split: option.splits)

lemma rfind_char_append: "c \<notin> set ys \<Longrightarrow> rfind_char c (xs @ c # ys) = Some (length xs)"
  by (induction xs) (auto simp: rfind_char_None_iff [symmetric])

lemma rfind_char_SomeD:
  "rfind_char c xs = Some n \<Longrightarrow> c \<notin> set (drop (Suc n) xs) \<and> n < length xs"
  by (induction xs arbitrary: n) (auto simp: rfind_char_None_iff split: if_splits option.splits)

section \<open>File names\<close>

text \<open>
  \<open>Path::file_stem\<close> and \<open>Path::extension\<close> of a file name that does not start with a dot
  (the code looks at no others).
\<close>

definition file_stem :: "string \<Rightarrow> string" where
  "file_stem name = (case rfind_char (CHR ''.'') name of None \<Rightarrow> name | Some n \<Rightarrow> take n name)"

definition extension :: "string \<Rightarrow> string option" where
  "extension name = map_option (\<lambda>n. drop (Suc n) name) (rfind_char (CHR ''.'') name)"

definition is_hidden :: "string \<Rightarrow> bool" where
  "is_hidden name = (case name of [] \<Rightarrow> False | c # _ \<Rightarrow> c = CHR ''.'')"

lemma file_name_parts:
  assumes "CHR ''.'' \<notin> set ext"
  shows "file_stem (stem @ CHR ''.'' # ext) = stem" "extension (stem @ CHR ''.'' # ext) = Some ext"
  by (simp_all add: file_stem_def extension_def rfind_char_append [OF assms])

section \<open>Unsigned decimals\<close>

definition digit_value :: "char \<Rightarrow> nat option" where
  "digit_value c = (let n = of_char c :: nat in if 48 \<le> n \<and> n \<le> 57 then Some (n - 48) else None)"

fun parse_digits :: "nat \<Rightarrow> string \<Rightarrow> nat option" where
  "parse_digits acc [] = Some acc"
| "parse_digits acc (c # cs) =
     (case digit_value c of None \<Rightarrow> None | Some d \<Rightarrow> parse_digits (acc * 10 + d) cs)"

text \<open>\<open>str::parse\<close> to an unsigned type with the given exclusive bound.\<close>

definition parse_unsigned :: "nat \<Rightarrow> string \<Rightarrow> nat option" where
  "parse_unsigned bound s =
     (let digits = (case s of [] \<Rightarrow> [] | c # cs \<Rightarrow> if c = CHR ''+'' then cs else s)
      in if digits = [] then None
         else case parse_digits 0 digits of
           None \<Rightarrow> None
         | Some n \<Rightarrow> (if n < bound then Some n else None))"

text \<open>\<open>{n:0width}\<close>.\<close>

definition show_padded :: "nat \<Rightarrow> nat \<Rightarrow> string" where
  "show_padded width n = replicate (width - length (show_nat n)) (CHR ''0'') @ show_nat n"

lemma of_char_digit_char: "d < 10 \<Longrightarrow> of_char (digit_char d) = (48 + d :: nat)"
  by (simp add: digit_char_def)

lemma digit_value_digit_char [simp]: "d < 10 \<Longrightarrow> digit_value (digit_char d) = Some d"
  by (simp add: digit_value_def of_char_digit_char)

lemma digit_value_zero [simp]: "digit_value (CHR ''0'') = Some 0"
  by (simp add: digit_value_def)

lemma parse_digits_append:
  "parse_digits acc (xs @ ys) =
     (case parse_digits acc xs of None \<Rightarrow> None | Some n \<Rightarrow> parse_digits n ys)"
  by (induction xs arbitrary: acc) (auto split: option.splits)

lemma parse_digits_show_nat: "parse_digits 0 (show_nat n) = Some n"
proof (induction n rule: less_induct)
  case (less n)
  show ?case
  proof (cases "n < 10")
    case False
    then have "parse_digits 0 (show_nat (n div 10)) = Some (n div 10)"
      by (intro less) simp
    then show ?thesis
      using False by (subst show_nat.simps) (simp add: parse_digits_append)
  qed simp
qed

lemma parse_digits_zeros: "parse_digits 0 (replicate k (CHR ''0'') @ s) = parse_digits 0 s"
  by (induction k) simp_all

lemma show_nat_digits: "set (show_nat n) \<subseteq> {c. digit_value c \<noteq> None}"
proof (induction n rule: less_induct)
  case (less n)
  show ?case
  proof (cases "n < 10")
    case False
    then have "set (show_nat (n div 10)) \<subseteq> {c. digit_value c \<noteq> None}"
      by (intro less) simp
    then show ?thesis
      using False by (subst show_nat.simps) simp
  qed simp
qed

lemma show_padded_digits: "set (show_padded w n) \<subseteq> {c. digit_value c \<noteq> None}"
  using show_nat_digits [of n] by (auto simp: show_padded_def)

lemma digit_value_special [simp]:
  "digit_value (CHR ''+'') = None" "digit_value (CHR ''.'') = None" "digit_value (CHR ''-'') = None"
  by (simp_all add: digit_value_def)

lemma parse_show_padded:
  assumes "n < bound"
  shows "parse_unsigned bound (show_padded w n) = Some n"
proof -
  obtain c cs where s: "show_padded w n = c # cs"
    by (cases "show_padded w n") (simp_all add: show_padded_def)
  have "digit_value c \<noteq> None"
    using show_padded_digits [of w n] by (auto simp: s)
  then have "c \<noteq> CHR ''+''" by auto
  then have "parse_unsigned bound (c # cs) =
      (case parse_digits 0 (c # cs) of None \<Rightarrow> None | Some n \<Rightarrow> if n < bound then Some n else None)"
    by (simp add: parse_unsigned_def Let_def)
  moreover have "parse_digits 0 (c # cs) = Some n"
    by (simp add: parse_digits_zeros parse_digits_show_nat show_padded_def flip: s)
  ultimately show ?thesis
    using assms by (simp add: s)
qed

lemma show_nat_inj: "show_nat m = show_nat n \<longleftrightarrow> m = n"
  by (metis parse_digits_show_nat option.inject)

section \<open>Case and white space\<close>

text \<open>\<open>to_ascii_lowercase\<close>, and \<open>trim\<close> of the white space ASCII has.\<close>

definition ascii_lower :: "char \<Rightarrow> char" where
  "ascii_lower c =
     (let n = of_char c :: nat in if 65 \<le> n \<and> n \<le> 90 then char_of (n + 32) else c)"

definition to_ascii_lowercase :: "string \<Rightarrow> string" where
  "to_ascii_lowercase s = map ascii_lower s"

definition is_whitespace :: "char \<Rightarrow> bool" where
  "is_whitespace c = (let n = of_char c :: nat in n = 32 \<or> 9 \<le> n \<and> n \<le> 13)"

definition trim_end :: "(char \<Rightarrow> bool) \<Rightarrow> string \<Rightarrow> string" where
  "trim_end p s = rev (dropWhile p (rev s))"

definition trim :: "string \<Rightarrow> string" where
  "trim s = trim_end is_whitespace (dropWhile is_whitespace s)"

end
