(* ===== verification/Redact.thy ===== *)
theory Redact
  imports Strings
begin

text \<open>
  \<open>redact_url\<close> of \<open>crates/booth-hal/src/lib.rs\<close>, which strips userinfo, query and
  fragment from a URL before it is logged. A \<open>&str\<close> is the list of its bytes; every
  offset the code slices at is that of an ASCII character, so byte and character slicing
  agree.
\<close>

section \<open>String searches\<close>

text \<open>\<open>str::find("://")\<close>: the first offset the rest of the string starts with it.\<close>

fun find_scheme :: "string \<Rightarrow> nat option" where
  "find_scheme [] = None"
| "find_scheme (x # xs) =
     (if take 3 (x # xs) = ''://'' then Some 0 else map_option Suc (find_scheme xs))"

section \<open>Redaction\<close>

definition strip_userinfo :: "string \<Rightarrow> string \<times> bool" where
  "strip_userinfo after_scheme =
     (let path_start = (case find_char (CHR ''/'') after_scheme of
                          Some n \<Rightarrow> n | None \<Rightarrow> length after_scheme)
      in case rfind_char (CHR ''@'') (take path_start after_scheme) of
           None \<Rightarrow> (after_scheme, False)
         | Some at_pos \<Rightarrow> (drop (at_pos + 1) after_scheme, True))"

definition redact_url :: "string \<Rightarrow> string" where
  "redact_url url =
     (case find_scheme url of
        None \<Rightarrow> url
      | Some scheme_end \<Rightarrow>
          let (authority_and_rest, userinfo_present) = strip_userinfo (drop (scheme_end + 3) url);
              has_query_or_fragment =
                CHR ''?'' \<in> set authority_and_rest \<or> CHR ''#'' \<in> set authority_and_rest
          in if \<not> has_query_or_fragment \<and> \<not> userinfo_present then url
             else
               let clean_end =
                     (case find_char (CHR ''?'') authority_and_rest of
                        Some n \<Rightarrow> n
                      | None \<Rightarrow> (case find_char (CHR ''#'') authority_and_rest of
                                 Some n \<Rightarrow> n | None \<Rightarrow> length authority_and_rest))
               in take scheme_end url @ ''://'' @ take clean_end authority_and_rest @
                  (if has_query_or_fragment then ''?<redacted>'' else []))"

section \<open>Searches on concatenations\<close>

lemma find_scheme_SomeD:
  "find_scheme url = Some n \<Longrightarrow> url = take n url @ ''://'' @ drop (n + 3) url"
proof (induction url arbitrary: n)
  case (Cons x xs)
  show ?case
  proof (cases "take 3 (x # xs) = ''://''")
    case True
    then show ?thesis
      using Cons.prems append_take_drop_id [of 3 "x # xs"] by simp
  next
    case False
    with Cons.prems obtain m where m: "n = Suc m" "find_scheme xs = Some m"
      by auto
    have "n + 3 = Suc (m + 3)"
      by (simp add: m(1))
    then have "drop (n + 3) (x # xs) = drop (m + 3) xs"
      by (simp only: drop_Suc_Cons)
    then show ?thesis
      using Cons.IH [OF m(2)] by (simp add: m(1))
  qed
qed simp

text \<open>Only the part up to the separator decides where the separator is found.\<close>

lemma find_scheme_prefix:
  "find_scheme (s @ ''://'' @ r) = Some (length s) \<longleftrightarrow>
   find_scheme (s @ ''://'' @ r') = Some (length s)"
proof (induction s)
  case (Cons x s)
  have "take 3 ((x # s) @ ''://'' @ r) = take 3 ((x # s) @ ''://'' @ r')"
    by (cases s rule: list.exhaust; cases "tl s") (auto simp: numeral_3_eq_3)
  then show ?case
    using Cons by (auto simp del: take_Suc_Cons)
qed simp

lemma find_scheme_bound: "find_scheme url = Some n \<Longrightarrow> n \<le> length url"
  by (induction url arbitrary: n) (auto split: if_splits)

lemma find_scheme_simple: "CHR '':'' \<notin> set s \<Longrightarrow> find_scheme (s @ ''://'' @ r) = Some (length s)"
  by (induction s) (auto simp: numeral_3_eq_3)

section \<open>The authority\<close>

lemma strip_userinfo_alt:
  "strip_userinfo s =
     (case rfind_char (CHR ''@'') (takeWhile (\<lambda>x. x \<noteq> CHR ''/'') s) of
        None \<Rightarrow> (s, False)
      | Some at_pos \<Rightarrow> (drop (at_pos + 1) s, True))"
  by (simp add: strip_userinfo_def take_find_char)

lemma strip_userinfo_absent:
  "CHR ''@'' \<notin> set (takeWhile (\<lambda>x. x \<noteq> CHR ''/'') s) \<Longrightarrow> strip_userinfo s = (s, False)"
  by (simp add: strip_userinfo_alt rfind_char_None_iff [THEN iffD2])

lemma strip_userinfo_present:
  assumes "CHR ''/'' \<notin> set (user @ host)" and "CHR ''@'' \<notin> set host"
  shows "strip_userinfo (user @ CHR ''@'' # host @ CHR ''/'' # rest) = (host @ CHR ''/'' # rest, True)"
proof -
  have "takeWhile (\<lambda>x. x \<noteq> CHR ''/'') ((user @ CHR ''@'' # host) @ CHR ''/'' # rest) =
      user @ CHR ''@'' # host"
    using assms(1) by (subst takeWhile_append2) auto
  moreover have "rfind_char (CHR ''@'') (user @ CHR ''@'' # host) = Some (length user)"
    by (rule rfind_char_append) (rule assms(2))
  ultimately show ?thesis
    by (simp add: strip_userinfo_alt)
qed

lemma takeWhile_drop:
  "n \<le> length (takeWhile P s) \<Longrightarrow> takeWhile P (drop n s) = drop n (takeWhile P s)"
  by (induction s arbitrary: n) (auto simp: drop_Cons' split: if_splits)

text \<open>The stripped authority has no \<open>@\<close> left, wherever the string is cut afterwards.\<close>

lemma stripped_authority:
  assumes "strip_userinfo s = (r, u)"
  shows "CHR ''@'' \<notin> set (takeWhile (\<lambda>x. x \<noteq> CHR ''/'') r)"
proof (cases "rfind_char (CHR ''@'') (takeWhile (\<lambda>x. x \<noteq> CHR ''/'') s)")
  case None
  then show ?thesis
    using assms by (auto simp: strip_userinfo_alt dest: rfind_char_None_iff [THEN iffD1])
next
  case (Some p)
  then show ?thesis
    using assms rfind_char_SomeD [OF Some]
    by (auto simp: strip_userinfo_alt takeWhile_drop Suc_le_eq)
qed

lemma set_takeWhile_take: "set (takeWhile P (take n r)) \<subseteq> set (takeWhile P r)"
proof (induction r arbitrary: n)
  case (Cons x r)
  show ?case
    using Cons.IH [of "n - 1"] by (cases n) auto
qed simp

lemma set_takeWhile_append: "set (takeWhile P (xs @ ys)) \<subseteq> set (takeWhile P xs) \<union> set ys"
proof (induction xs)
  case Nil
  then show ?case by (auto dest: set_takeWhileD)
qed auto

lemma strip_userinfo_cut:
  assumes "strip_userinfo s = (r, u)" and "CHR ''@'' \<notin> set suffix"
  shows "strip_userinfo (take n r @ suffix) = (take n r @ suffix, False)"
proof (rule strip_userinfo_absent)
  let ?P = "\<lambda>x. x \<noteq> CHR ''/''"
  have "set (takeWhile ?P (take n r @ suffix)) \<subseteq> set (takeWhile ?P (take n r)) \<union> set suffix"
    by (rule set_takeWhile_append)
  moreover have "set (takeWhile ?P (take n r)) \<subseteq> set (takeWhile ?P r)"
    by (rule set_takeWhile_take)
  ultimately have "set (takeWhile ?P (take n r @ suffix)) \<subseteq> set (takeWhile ?P r) \<union> set suffix"
    by blast
  then show "CHR ''@'' \<notin> set (takeWhile ?P (take n r @ suffix))"
    using stripped_authority [OF assms(1)] assms(2) by auto
qed

section \<open>Redaction, case by case\<close>

lemma redact_url_scheme:
  assumes "find_scheme url = Some n" and "strip_userinfo (drop (n + 3) url) = (r, u)"
  shows "redact_url url =
    (if CHR ''?'' \<in> set r
     then take n url @ ''://'' @ takeWhile (\<lambda>c. c \<noteq> CHR ''?'') r @ ''?<redacted>''
     else if CHR ''#'' \<in> set r
     then take n url @ ''://'' @ takeWhile (\<lambda>c. c \<noteq> CHR ''#'') r @ ''?<redacted>''
     else if u then take n url @ ''://'' @ r else url)"
  using assms by (simp add: redact_url_def find_char_takeWhile takeWhile_eq_take [symmetric])

lemma redact_url_parts:
  assumes "CHR '':'' \<notin> set scheme" and "strip_userinfo rest = (r, u)"
    and "CHR ''?'' \<in> set r \<or> CHR ''#'' \<in> set r"
  shows "redact_url (scheme @ ''://'' @ rest) = scheme @ ''://'' @
    takeWhile (\<lambda>c. c \<noteq> (if CHR ''?'' \<in> set r then CHR ''?'' else CHR ''#'')) r @ ''?<redacted>''"
  using redact_url_scheme [OF find_scheme_simple [OF assms(1)], of rest r u] assms(2,3)
  by auto

section \<open>Properties\<close>

text \<open>On a URL \<open>scheme://[user@]host/path\<close> followed by a query, or by a fragment free
  of question marks, the result is \<open>scheme://host/path?<redacted>\<close>: it depends on neither
  the credentials nor the query nor the fragment, so none of them can reach a log.\<close>
theorem redact_url_hides_secrets:
  assumes "CHR '':'' \<notin> set scheme" and "CHR ''/'' \<notin> set (user @ host)"
    and "set host \<inter> {CHR ''@'', CHR ''?'', CHR ''#''} = {}"
    and "set path \<inter> {CHR ''?'', CHR ''#''} = {}"
    and "mark = CHR ''?'' \<or> mark = CHR ''#'' \<and> CHR ''?'' \<notin> set secret"
  shows "redact_url (scheme @ ''://'' @ user @ ''@'' @ host @ ''/'' @ path @ [mark] @ secret) =
      scheme @ ''://'' @ host @ ''/'' @ path @ ''?<redacted>'' \<and>
    redact_url (scheme @ ''://'' @ host @ ''/'' @ path @ [mark] @ secret) =
      scheme @ ''://'' @ host @ ''/'' @ path @ ''?<redacted>''"
proof -
  let ?r = "host @ ''/'' @ path @ [mark] @ secret"
  have "strip_userinfo (user @ CHR ''@'' # host @ CHR ''/'' # (path @ [mark] @ secret)) = (?r, True)"
    by (subst strip_userinfo_present) (use assms in auto)
  moreover have "strip_userinfo ?r = (?r, False)"
    by (rule strip_userinfo_absent) (use assms in \<open>auto simp: takeWhile_append\<close>)
  moreover have "takeWhile (\<lambda>c. c \<noteq> (if CHR ''?'' \<in> set ?r then CHR ''?'' else CHR ''#'')) ?r =
      host @ ''/'' @ path"
    using assms by (auto simp: takeWhile_append)
  moreover have "CHR ''?'' \<in> set ?r \<or> CHR ''#'' \<in> set ?r"
    using assms(5) by auto
  ultimately show ?thesis
    using redact_url_parts [OF assms(1), of "user @ ''@'' @ ?r" ?r True]
      redact_url_parts [OF assms(1), of ?r ?r False] by (simp del: set_append)
qed

theorem redact_url_hides_secrets_witness:
  "redact_url ''https://user:pw@host/clip?sig=1'' = ''https://host/clip?<redacted>'' \<and>
   redact_url ''https://host/clip?sig=1'' = ''https://host/clip?<redacted>''"
  using redact_url_hides_secrets
    [of "''https''" "''user:pw''" "''host''" "''clip''" "CHR ''?''" "''sig=1''"]
  by simp

text \<open>Redacting is idempotent: a string that went through it once is printed as is by
  every later pass.\<close>
theorem redact_url_idempotent: "redact_url (redact_url url) = redact_url url"
proof (cases "find_scheme url")
  case None
  then show ?thesis by (simp add: redact_url_def)
next
  case (Some n)
  obtain r u where r: "strip_userinfo (drop (n + 3) url) = (r, u)"
    by fastforce
  have url: "url = take n url @ ''://'' @ drop (n + 3) url" and n: "length (take n url) = n"
    using find_scheme_SomeD [OF Some] find_scheme_bound [OF Some] by simp_all
  have scheme: "find_scheme (take n url @ ''://'' @ t) = Some n" for t
    using Some find_scheme_prefix [of "take n url" "drop (n + 3) url" t] url n by simp
  have rest: "drop (n + 3) (take n url @ ''://'' @ t) = t" for t
    using n by simp
  have cut: "redact_url (take n url @ ''://'' @ takeWhile (\<lambda>x. x \<noteq> c) r @ ''?<redacted>'') =
      take n url @ ''://'' @ takeWhile (\<lambda>x. x \<noteq> c) r @ ''?<redacted>''"
    if "CHR ''?'' \<notin> set (takeWhile (\<lambda>x. x \<noteq> c) r)" for c
  proof -
    let ?t = "takeWhile (\<lambda>x. x \<noteq> c) r @ ''?<redacted>''"
    have "strip_userinfo ?t = (?t, False)"
      using strip_userinfo_cut [OF r, of "''?<redacted>''" "length (takeWhile (\<lambda>x. x \<noteq> c) r)"]
      by (simp add: takeWhile_eq_take [symmetric])
    moreover have "takeWhile (\<lambda>x. x \<noteq> CHR ''?'') ?t = takeWhile (\<lambda>x. x \<noteq> c) r"
      using that by (auto simp: takeWhile_append)
    ultimately show ?thesis
      using redact_url_scheme [OF scheme [of ?t], unfolded rest, of ?t False] n by simp
  qed
  have whole: "redact_url (take n url @ ''://'' @ r) = take n url @ ''://'' @ r"
    if "CHR ''?'' \<notin> set r" and "CHR ''#'' \<notin> set r"
    using redact_url_scheme [OF scheme [of r], unfolded rest, of r False]
      strip_userinfo_cut [OF r, of "[]" "length r"] that by simp
  have "CHR ''?'' \<notin> set (takeWhile (\<lambda>x. x \<noteq> CHR ''?'') r)"
    by (auto dest: set_takeWhileD)
  moreover have "CHR ''?'' \<notin> set r \<Longrightarrow> CHR ''?'' \<notin> set (takeWhile (\<lambda>x. x \<noteq> CHR ''#'') r)"
    by (auto dest: set_takeWhileD)
  ultimately show ?thesis
    using cut whole redact_url_scheme [OF Some r] by auto
qed

text \<open>Two URLs the redaction fails on. A query mark inside a fragment makes it keep the
  fragment up to there; and an \<open>@\<close> in the query of a URL without a path is taken for the end
  of the userinfo, so the host is dropped and the rest of the query is printed.\<close>
theorem redact_url_leaks:
  "redact_url ''https://h/p#secret?x'' = ''https://h/p#secret?<redacted>'' \<and>
   redact_url ''https://h?key=a@secret'' = ''https://secret''"
  by code_simp

end
