(* ===== verification/Gpio.thy ===== *)
theory Gpio
  imports Hal
begin

text \<open>
  The GPIO side of \<open>crates/booth-pi\<close>: \<open>GpioConfig\<close> of \<open>src/lib.rs\<close> and the debounced
  polling loop \<open>poll_edges\<close> of \<open>src/gpio.rs\<close>. One iteration of the loop is \<open>poll_tick\<close>. What
  the loop reads from outside in an iteration (the clock, the pins, what each \<open>try_send\<close> on
  the bounded channel answers and whether the receiver is gone) is an argument; every
  theorem holds for all of them, so for any channel capacity and any consumer. The four-element
  arrays indexed by \<open>role_index\<close> are functions of the role. Metrics and logs are left out,
  except that dropped edges are counted.
\<close>

section \<open>Configuration\<close>

datatype GpioPull = Up | Down

definition gpio_pull_default :: GpioPull where "gpio_pull_default = Up"

record GpioInvertConfig =
  inv_rotary_pulse :: bool
  inv_rotary_read :: bool
  inv_hook :: bool
  inv_power_button :: bool

record GpioConfig =
  pin_rotary_pulse :: u8
  pin_rotary_read :: u8
  pin_hook :: u8
  pin_power_button :: u8
  power_button_enabled :: bool
  pull :: GpioPull
  debounce_ms :: u64
  channel_capacity :: u16
  invert :: GpioInvertConfig

definition gpio_invert_default :: GpioInvertConfig where
  "gpio_invert_default =
     \<lparr>inv_rotary_pulse = True, inv_rotary_read = False, inv_hook = False, inv_power_button = True\<rparr>"

definition gpio_config_default :: GpioConfig where
  "gpio_config_default =
     \<lparr>pin_rotary_pulse = 27, pin_rotary_read = 22, pin_hook = 17, pin_power_button = 26,
      power_button_enabled = False, pull = gpio_pull_default, debounce_ms = 25,
      channel_capacity = 64, invert = gpio_invert_default\<rparr>"

definition bcm_for :: "GpioConfig \<Rightarrow> PinRole \<Rightarrow> u8" where
  "bcm_for config r = (case r of
     RotaryPulse \<Rightarrow> pin_rotary_pulse config
   | RotaryRead \<Rightarrow> pin_rotary_read config
   | Hook \<Rightarrow> pin_hook config
   | PowerButton \<Rightarrow> pin_power_button config)"

definition inverted :: "GpioConfig \<Rightarrow> PinRole \<Rightarrow> bool" where
  "inverted config r = (case r of
     RotaryPulse \<Rightarrow> inv_rotary_pulse (invert config)
   | RotaryRead \<Rightarrow> inv_rotary_read (invert config)
   | Hook \<Rightarrow> inv_hook (invert config)
   | PowerButton \<Rightarrow> inv_power_button (invert config))"

section \<open>The polling loop\<close>

definition ROLES :: "PinRole list" where
  "ROLES = [Hook, RotaryPulse, RotaryRead, PowerButton]"

definition apply_invert :: "bool \<Rightarrow> bool \<Rightarrow> bool" where
  "apply_invert high flip = (if flip then \<not> high else high)"

text \<open>\<open>u64::try_from\<close> of the elapsed nanoseconds, or \<open>u64::MAX\<close>.\<close>

definition monotonic_ns :: "nat \<Rightarrow> u64" where
  "monotonic_ns elapsed = (if elapsed < 2 ^ 64 then of_nat elapsed else - 1)"

text \<open>What \<open>try_send\<close> answers, and what one iteration of the loop sees.\<close>

datatype TrySend = Sent | Full | Closed

record Sample =
  now :: nat                            \<comment> \<open>the monotonic clock, in nanoseconds\<close>
  physical :: "PinRole \<Rightarrow> bool"         \<comment> \<open>\<open>is_high\<close> of the pin\<close>
  elapsed :: "PinRole \<Rightarrow> nat"           \<comment> \<open>nanoseconds since the start, as the role's edge is built\<close>
  retry_send :: TrySend                 \<comment> \<open>the answer to the retry of a waiting button edge\<close>
  edge_send :: "PinRole \<Rightarrow> TrySend"     \<comment> \<open>the answer to the role's own edge\<close>
  receiver_gone :: bool                 \<comment> \<open>\<open>tx.is_closed()\<close> at the end\<close>

record Poller =
  confirmed :: "PinRole \<Rightarrow> bool"
  pending :: "PinRole \<Rightarrow> (bool \<times> nat) option"   \<comment> \<open>candidate level, since when\<close>
  pending_power :: "GpioEdge option"
  levels :: "PinRole \<Rightarrow> bool"
  delivered :: "GpioEdge list"                   \<comment> \<open>what the channel accepted\<close>
  dropped :: "PinRole \<Rightarrow> nat"
  stopped :: bool

definition is_active :: "GpioConfig \<Rightarrow> PinRole \<Rightarrow> bool" where
  "is_active config r = (r = PowerButton \<longrightarrow> power_button_enabled config)"

definition physical_high :: "GpioConfig \<Rightarrow> (PinRole \<Rightarrow> bool) \<Rightarrow> PinRole \<Rightarrow> bool" where
  "physical_high config pins r =
     (if r = PowerButton \<and> \<not> power_button_enabled config then False else pins r)"

definition logical_level :: "GpioConfig \<Rightarrow> (PinRole \<Rightarrow> bool) \<Rightarrow> PinRole \<Rightarrow> bool" where
  "logical_level config pins r =
     apply_invert (physical_high config pins r) (inverted config r)"

definition poller_start :: "GpioConfig \<Rightarrow> (PinRole \<Rightarrow> bool) \<Rightarrow> Poller" where
  "poller_start config pins =
     \<lparr>confirmed = logical_level config pins, pending = (\<lambda>_. None), pending_power = None,
      levels = logical_level config pins, delivered = [], dropped = (\<lambda>_. 0), stopped = False\<rparr>"

text \<open>\<open>try_send_edge\<close>: \<open>Some\<close> gives the edge back when the queue was full.\<close>

definition try_send_edge :: "TrySend \<Rightarrow> GpioEdge \<Rightarrow> Poller \<Rightarrow> GpioEdge option \<times> Poller" where
  "try_send_edge answer edge p = (case answer of
     Sent \<Rightarrow> (None, p\<lparr>delivered := delivered p @ [edge]\<rparr>)
   | Full \<Rightarrow> (Some edge, p)
   | Closed \<Rightarrow> (None, p))"

definition gpio_edge :: "PinRole \<Rightarrow> bool \<Rightarrow> nat \<Rightarrow> GpioEdge" where
  "gpio_edge r l ns = \<lparr>role = r, level = l, at_monotonic_ns = monotonic_ns ns\<rparr>"

definition forward_edge ::
    "TrySend \<Rightarrow> PinRole \<Rightarrow> bool \<Rightarrow> nat \<Rightarrow> Poller \<Rightarrow> GpioEdge option \<times> Poller" where
  "forward_edge answer r l ns p = try_send_edge answer (gpio_edge r l ns) p"

text \<open>A confirmed change of a role's level: delivered, coalesced, kept for a retry or dropped.\<close>

definition deliver :: "Sample \<Rightarrow> PinRole \<Rightarrow> bool \<Rightarrow> Poller \<Rightarrow> Poller" where
  "deliver t r raw p =
     (case (if r = PowerButton then pending_power p else None) of
        Some waiting \<Rightarrow>
          (if level waiting \<or> \<not> raw
           then p\<lparr>pending_power := Some (gpio_edge r raw (elapsed t r))\<rparr> else p)
      | None \<Rightarrow>
          (case forward_edge (edge_send t r) r raw (elapsed t r) p of
             (None, p') \<Rightarrow> p'
           | (Some undelivered, p') \<Rightarrow>
               (if role undelivered = PowerButton then p'\<lparr>pending_power := Some undelivered\<rparr>
                else p'\<lparr>dropped := (dropped p')(role undelivered := dropped p' (role undelivered) + 1)\<rparr>)))"

definition poll_role :: "GpioConfig \<Rightarrow> Sample \<Rightarrow> PinRole \<Rightarrow> Poller \<Rightarrow> Poller" where
  "poll_role config t r p =
     (if \<not> is_active config r then p
      else
        let raw = logical_level config (physical t) r;
            p1 = p\<lparr>levels := (levels p)(r := raw)\<rparr>
        in if raw = confirmed p1 r then p1\<lparr>pending := (pending p1)(r := None)\<rparr>
           else
             (case pending p1 r of
                Some (l, since) \<Rightarrow>
                  (if l = raw then
                     (if unat (debounce_ms config) * 1000000 \<le> now t - since then
                        deliver t r raw
                          (p1\<lparr>confirmed := (confirmed p1)(r := raw), pending := (pending p1)(r := None)\<rparr>)
                      else p1)
                   else p1\<lparr>pending := (pending p1)(r := Some (raw, now t))\<rparr>)
              | None \<Rightarrow> p1\<lparr>pending := (pending p1)(r := Some (raw, now t))\<rparr>))"

definition retry_power :: "Sample \<Rightarrow> Poller \<Rightarrow> Poller" where
  "retry_power t p =
     (case pending_power p of
        None \<Rightarrow> p
      | Some edge \<Rightarrow>
          (let (back, p') = try_send_edge (retry_send t) edge (p\<lparr>pending_power := None\<rparr>)
           in p'\<lparr>pending_power := back\<rparr>))"

definition poll_tick :: "GpioConfig \<Rightarrow> Sample \<Rightarrow> Poller \<Rightarrow> Poller" where
  "poll_tick config t p =
     (if stopped p then p
      else
        let p' = fold (poll_role config t) ROLES (retry_power t p)
        in p'\<lparr>stopped := receiver_gone t\<rparr>)"

definition poll_edges :: "GpioConfig \<Rightarrow> (PinRole \<Rightarrow> bool) \<Rightarrow> Sample list \<Rightarrow> Poller" where
  "poll_edges config pins ts = foldl (\<lambda>p t. poll_tick config t p) (poller_start config pins) ts"

section \<open>One role at a time\<close>

lemma deliver_debounce [simp]:
  "confirmed (deliver t r raw p) = confirmed p"
  "pending (deliver t r raw p) = pending p"
  "stopped (deliver t r raw p) = stopped p"
  by (auto simp: deliver_def forward_edge_def try_send_edge_def split: option.split TrySend.split prod.split)

lemma retry_power_debounce [simp]:
  "confirmed (retry_power t p) = confirmed p"
  "pending (retry_power t p) = pending p"
  "stopped (retry_power t p) = stopped p"
  by (auto simp: retry_power_def try_send_edge_def split: option.split TrySend.split)

text \<open>The debouncer of a single input: its confirmed level and candidate.\<close>

definition debounce_step ::
    "GpioConfig \<Rightarrow> Sample \<Rightarrow> PinRole \<Rightarrow> bool \<times> (bool \<times> nat) option \<Rightarrow> bool \<times> (bool \<times> nat) option" where
  "debounce_step config t r cp =
     (let raw = logical_level config (physical t) r in
      if raw = fst cp then (fst cp, None)
      else case snd cp of
        Some (l, since) \<Rightarrow>
          if l = raw then
            if unat (debounce_ms config) * 1000000 \<le> now t - since then (raw, None) else cp
          else (fst cp, Some (raw, now t))
      | None \<Rightarrow> (fst cp, Some (raw, now t)))"

lemma poll_role_debounce:
  "(confirmed (poll_role config t r p) r', pending (poll_role config t r p) r') =
     (if r' = r \<and> is_active config r then debounce_step config t r (confirmed p r, pending p r)
      else (confirmed p r', pending p r'))"
  by (auto simp: poll_role_def debounce_step_def Let_def split: option.split)

lemma poll_role_other:
  assumes "r' \<noteq> r"
  shows "confirmed (poll_role config t r p) r' = confirmed p r'"
    and "pending (poll_role config t r p) r' = pending p r'"
  using poll_role_debounce [of config t r p r'] assms by simp_all

lemma poll_tick_debounce:
  assumes "\<not> stopped p" and "is_active config r"
  shows "(confirmed (poll_tick config t p) r, pending (poll_tick config t p) r) =
    debounce_step config t r (confirmed p r, pending p r)"
  using assms
  by (cases r) (simp_all add: poll_tick_def ROLES_def poll_role_debounce)

section \<open>Debouncing over a history of samples\<close>

lemma poll_edges_simps:
  "poll_edges config pins [] = poller_start config pins"
  "poll_edges config pins (ts @ [t]) = poll_tick config t (poll_edges config pins ts)"
  by (simp_all add: poll_edges_def)

lemma poll_tick_stopped [simp]: "stopped p \<Longrightarrow> poll_tick config t p = p"
  by (simp add: poll_tick_def)

lemma poll_tick_inactive:
  assumes "\<not> is_active config r"
  shows "confirmed (poll_tick config t p) r = confirmed p r"
    and "pending (poll_tick config t p) r = pending p r"
proof -
  have r: "r = PowerButton" using assms by (simp add: is_active_def)
  then have "poll_role config t PowerButton q = q" for q
    using assms by (simp add: poll_role_def)
  then show "confirmed (poll_tick config t p) r = confirmed p r"
    and "pending (poll_tick config t p) r = pending p r"
    by (simp_all add: r poll_tick_def ROLES_def poll_role_other)
qed

text \<open>A candidate has been the level of every sample since it was first seen.\<close>

definition steady_since :: "GpioConfig \<Rightarrow> PinRole \<Rightarrow> bool \<Rightarrow> nat \<Rightarrow> Sample list \<Rightarrow> bool" where
  "steady_since config r l since ts =
     (\<exists>us v vs. ts = us @ v # vs \<and> now v = since \<and>
       (\<forall>x \<in> set (v # vs). logical_level config (physical x) r = l))"

lemma steady_since_snoc:
  assumes "steady_since config r l since ts" and "logical_level config (physical t) r = l"
  shows "steady_since config r l since (ts @ [t])"
proof -
  obtain us v vs where ts: "ts = us @ v # vs" and v: "now v = since"
    and steady: "\<forall>x \<in> set (v # vs). logical_level config (physical x) r = l"
    using assms(1) unfolding steady_since_def by blast
  have "ts @ [t] = us @ v # (vs @ [t])" by (simp add: ts)
  moreover have "\<forall>x \<in> set (v # (vs @ [t])). logical_level config (physical x) r = l"
    using steady assms(2) by simp
  ultimately show ?thesis
    using v unfolding steady_since_def by blast
qed

lemma steady_since_new: "steady_since config r (logical_level config (physical t) r) (now t) (ts @ [t])"
  unfolding steady_since_def
  by (intro exI [of _ ts] exI [of _ t] exI [of _ "[]"]) simp

lemma candidate_steady:
  "\<not> stopped (poll_edges config pins ts) \<Longrightarrow>
   pending (poll_edges config pins ts) r = Some (l, since) \<Longrightarrow> steady_since config r l since ts"
proof (induction ts arbitrary: l since rule: rev_induct)
  case Nil
  then show ?case by (simp add: poll_edges_simps poller_start_def)
next
  case (snoc t ts)
  let ?p = "poll_edges config pins ts"
  have run: "\<not> stopped ?p"
    using snoc.prems(1) by (auto simp: poll_edges_simps)
  show ?case
  proof (cases "is_active config r")
    case True
    have "debounce_step config t r (confirmed ?p r, pending ?p r) =
        (confirmed (poll_tick config t ?p) r, Some (l, since))"
      using poll_tick_debounce [OF run True, of t, symmetric] snoc.prems(2)
      by (simp add: poll_edges_simps)
    then show ?thesis
      using snoc.IH [OF run] steady_since_new steady_since_snoc
      by (fastforce simp: debounce_step_def Let_def split: if_splits option.splits)
  next
    case False
    have "pending (poll_edges config pins us) r = None" for us
      by (induction us rule: rev_induct)
        (simp_all add: poll_edges_simps poller_start_def poll_tick_inactive [OF False])
    then show ?thesis using snoc.prems(2) by simp
  qed
qed

section \<open>The power button\<close>

text \<open>The button levels the consumer has been given.\<close>

definition button_levels :: "Poller \<Rightarrow> bool list" where
  "button_levels p = map level (filter (\<lambda>e. role e = PowerButton) (delivered p))"

text \<open>
  What must hold between two actions on the button: a waiting press is news to the consumer
  and still true; the consumer thinks the button is down only while it is, or while the
  release waits for delivery.
\<close>

definition no_double_press :: "bool list \<Rightarrow> bool" where
  "no_double_press ls = successively (\<lambda>a b. \<not> (a \<and> b)) ls"

definition ends_pressed :: "bool list \<Rightarrow> bool" where
  "ends_pressed ls = (ls \<noteq> [] \<and> last ls)"

definition button_ok :: "Poller \<Rightarrow> bool" where
  "button_ok p =
     (no_double_press (button_levels p) \<and>
      (case pending_power p of
         None \<Rightarrow> ends_pressed (button_levels p) \<longrightarrow> confirmed p PowerButton
       | Some e \<Rightarrow> role e = PowerButton \<and>
           (level e \<longrightarrow> confirmed p PowerButton \<and> \<not> ends_pressed (button_levels p))))"

lemma no_double_press_simps [simp]:
  "no_double_press []"
  "no_double_press (ls @ [l]) \<longleftrightarrow> no_double_press ls \<and> \<not> (ends_pressed ls \<and> l)"
  by (auto simp: no_double_press_def ends_pressed_def successively_append_iff)

lemma ends_pressed_simps [simp]:
  "\<not> ends_pressed []"
  "ends_pressed (ls @ [l]) = l"
  by (simp_all add: ends_pressed_def)

lemma button_levels_snoc:
  "button_levels (p\<lparr>delivered := delivered p @ [e]\<rparr>) =
     button_levels p @ (if role e = PowerButton then [level e] else [])"
  by (simp add: button_levels_def)

lemma button_levels_cong: "delivered p = delivered q \<Longrightarrow> button_levels p = button_levels q"
  by (simp add: button_levels_def)

lemma try_send_button_levels:
  "button_levels (snd (try_send_edge answer e p)) =
     button_levels p @ (if answer = Sent \<and> role e = PowerButton then [level e] else [])"
  "fst (try_send_edge answer e p) = (if answer = Full then Some e else None)"
  "confirmed (snd (try_send_edge answer e p)) = confirmed p"
  "pending_power (snd (try_send_edge answer e p)) = pending_power p"
  by (cases answer; simp add: try_send_edge_def button_levels_def)+

lemma button_levels_update [simp]:
  "button_levels (p\<lparr>pending_power := w\<rparr>) = button_levels p"
  "button_levels (p\<lparr>confirmed := c\<rparr>) = button_levels p"
  "button_levels (p\<lparr>pending := d\<rparr>) = button_levels p"
  "button_levels (p\<lparr>levels := l\<rparr>) = button_levels p"
  "button_levels (p\<lparr>dropped := x\<rparr>) = button_levels p"
  "button_levels (p\<lparr>stopped := st\<rparr>) = button_levels p"
  by (simp_all add: button_levels_def)

lemma retry_power_button_ok:
  assumes "button_ok p" and "retry_send t \<noteq> Closed"
  shows "button_ok (retry_power t p)"
  using assms
  by (cases "pending_power p"; cases "retry_send t")
    (auto simp: button_ok_def retry_power_def try_send_button_levels split_beta Let_def)

lemma deliver_button_ok:
  assumes "button_ok p" and "edge_send t PowerButton \<noteq> Closed" and "confirmed p PowerButton \<noteq> raw"
  shows "button_ok (deliver t PowerButton raw
    (p\<lparr>confirmed := (confirmed p)(PowerButton := raw), pending := q\<rparr>))"
proof (cases "pending_power p")
  case None
  then show ?thesis
    using assms
    by (cases "edge_send t PowerButton")
      (auto simp: button_ok_def deliver_def forward_edge_def gpio_edge_def try_send_edge_def
        button_levels_def)
next
  case (Some w)
  then show ?thesis
    using assms
    by (cases "level w"; cases raw) (auto simp: button_ok_def deliver_def gpio_edge_def)
qed

lemma deliver_other_ok:
  assumes "button_ok p" and "r \<noteq> PowerButton"
  shows "button_ok (deliver t r raw (p\<lparr>confirmed := (confirmed p)(r := raw), pending := q\<rparr>))"
  using assms
  by (cases "edge_send t r")
    (auto simp: button_ok_def deliver_def forward_edge_def gpio_edge_def try_send_edge_def
      button_levels_def split: option.splits)

lemma button_ok_update [simp]:
  "button_ok (p\<lparr>pending := q\<rparr>) = button_ok p"
  "button_ok (p\<lparr>levels := l\<rparr>) = button_ok p"
  "button_ok (p\<lparr>stopped := st\<rparr>) = button_ok p"
  by (simp_all add: button_ok_def split: option.split)

lemma poll_role_button_ok:
  assumes "button_ok p" and "edge_send t r \<noteq> Closed"
  shows "button_ok (poll_role config t r p)"
proof -
  let ?raw = "logical_level config (physical t) r"
  let ?p = "p\<lparr>levels := (levels p)(r := ?raw)\<rparr>"
  have "button_ok (deliver t r ?raw
      (?p\<lparr>confirmed := (confirmed ?p)(r := ?raw), pending := (pending ?p)(r := None)\<rparr>))"
    if "?raw \<noteq> confirmed p r"
    using deliver_button_ok [of ?p t ?raw] deliver_other_ok [of ?p r t ?raw] assms that
    by (cases "r = PowerButton") auto
  then show ?thesis
    using assms by (auto simp: poll_role_def Let_def split: option.split)
qed

lemma poll_tick_button_ok:
  assumes "button_ok p" and "retry_send t \<noteq> Closed" and "\<And>r. edge_send t r \<noteq> Closed"
  shows "button_ok (poll_tick config t p)"
  using assms by (simp add: poll_tick_def ROLES_def poll_role_button_ok retry_power_button_ok)

text \<open>
  A booth with a button: pressed at 0 ms and confirmed at 25 ms into a full queue, released
  at 30 ms and confirmed at 55 ms.
\<close>

definition button_config :: GpioConfig where
  "button_config = gpio_config_default\<lparr>power_button_enabled := True\<rparr>"

definition button_sample :: "nat \<Rightarrow> bool \<Rightarrow> TrySend \<Rightarrow> Sample" where
  "button_sample ms pressed answer =
     \<lparr>now = ms * 1000000, physical = (\<lambda>r. r = PowerButton \<and> \<not> pressed),
      elapsed = (\<lambda>_. ms * 1000000), retry_send = answer, edge_send = (\<lambda>_. answer),
      receiver_gone = False\<rparr>"

lemmas gpio_eval = poll_edges_def poll_tick_def ROLES_def poll_role_def retry_power_def
  deliver_def forward_edge_def try_send_edge_def gpio_edge_def logical_level_def
  physical_high_def apply_invert_def inverted_def is_active_def poller_start_def
  button_config_def button_sample_def gpio_config_default_def gpio_invert_default_def

section \<open>Properties\<close>

text \<open>C33. An edge is confirmed only after a full debounce window: when the poller changes a
  role's confirmed level, every sample it took of that pin over a window at least
  \<open>debounce_ms\<close> long, up to and including the current one, read the new level. A shorter
  glitch never becomes an edge.\<close>
theorem edges_are_debounced:
  assumes "confirmed (poll_edges config pins (ts @ [t])) r \<noteq> confirmed (poll_edges config pins ts) r"
  shows "\<exists>us v vs. ts = us @ v # vs \<and> unat (debounce_ms config) * 1000000 \<le> now t - now v \<and>
    (\<forall>x \<in> set (v # vs @ [t]).
       logical_level config (physical x) r = confirmed (poll_edges config pins (ts @ [t])) r)"
proof -
  let ?p = "poll_edges config pins ts"
  have run: "\<not> stopped ?p"
    using assms by (auto simp: poll_edges_simps)
  have active: "is_active config r"
    using assms poll_tick_inactive(1) [of config r t ?p] by (cases "is_active config r") (simp_all add: poll_edges_simps)
  let ?raw = "logical_level config (physical t) r"
  have "fst (debounce_step config t r (confirmed ?p r, pending ?p r)) \<noteq> confirmed ?p r"
    using assms by (simp add: poll_edges_simps flip: poll_tick_debounce [OF run active])
  then obtain since where "pending ?p r = Some (?raw, since)"
    and window: "unat (debounce_ms config) * 1000000 \<le> now t - since"
    and "fst (debounce_step config t r (confirmed ?p r, pending ?p r)) = ?raw"
    by (fastforce simp: debounce_step_def Let_def split: if_splits option.splits)
  moreover have "confirmed (poll_edges config pins (ts @ [t])) r =
      fst (debounce_step config t r (confirmed ?p r, pending ?p r))"
    by (simp add: poll_edges_simps flip: poll_tick_debounce [OF run active])
  ultimately have "steady_since config r ?raw since ts"
    and "confirmed (poll_edges config pins (ts @ [t])) r = ?raw"
    using candidate_steady [OF run] by simp_all
  then show ?thesis
    using window unfolding steady_since_def by fastforce
qed

theorem edges_are_debounced_witness:
  "\<exists>us v vs. [button_sample 0 True Full] = us @ v # vs \<and>
     unat (debounce_ms button_config) * 1000000 \<le> now (button_sample 25 True Full) - now v"
proof -
  have "confirmed (poll_edges button_config (\<lambda>r. r = PowerButton)
        ([button_sample 0 True Full] @ [button_sample 25 True Full])) PowerButton \<noteq>
      confirmed (poll_edges button_config (\<lambda>r. r = PowerButton) [button_sample 0 True Full]) PowerButton"
    by (simp add: gpio_eval)
  from edges_are_debounced [OF this] show ?thesis by fast
qed

text \<open>C34. The consumer of the power button is never misled into a long hold, whatever the
  queue accepts and whenever: it is never given two presses without a release in between,
  and if the last level it was given is a press although the button is up, the release is
  waiting to be retried.\<close>
theorem button_release_never_lost:
  assumes "\<forall>t \<in> set ts. retry_send t \<noteq> Closed \<and> (\<forall>r. edge_send t r \<noteq> Closed)"
  shows "no_double_press (button_levels (poll_edges config pins ts)) \<and>
    (ends_pressed (button_levels (poll_edges config pins ts)) \<longrightarrow>
     confirmed (poll_edges config pins ts) PowerButton \<or>
     (\<exists>e. pending_power (poll_edges config pins ts) = Some e \<and> \<not> level e))"
proof -
  have "button_ok (poll_edges config pins ts)"
    using assms
  proof (induction ts rule: rev_induct)
    case Nil
    then show ?case
      by (simp add: poll_edges_simps poller_start_def button_ok_def button_levels_def)
  next
    case (snoc t ts)
    then show ?case by (simp add: poll_edges_simps poll_tick_button_ok)
  qed
  then show ?thesis
    by (auto simp: button_ok_def split: option.splits)
qed

theorem button_release_never_lost_witness:
  "no_double_press (button_levels (poll_edges button_config (\<lambda>r. r = PowerButton)
     [button_sample 0 True Sent, button_sample 25 True Sent, button_sample 30 False Full,
      button_sample 55 False Full]))"
  using button_release_never_lost
    [of "[button_sample 0 True Sent, button_sample 25 True Sent, button_sample 30 False Full,
      button_sample 55 False Full]" button_config "\<lambda>r. r = PowerButton"]
  by (simp add: button_sample_def)

end
