(* ===== verification/GpioTask.thy ===== *)
theory GpioTask
  imports CoreSpec Gpio
begin

text \<open>
  The runtime's input side (\<open>crates/booth-bin/src/lib.rs\<close>): \<open>gpio_task\<close>, which turns edges
  into core events, recovers from a lost edge stream and reconciles the levels afterwards,
  and \<open>power_button_task\<close>, which times presses of the power button. Both tasks are step
  functions; what an iteration gets from outside (edges, snapshots, the answers of the
  channels, the clock) is its argument. Channels are first-in first-out.
\<close>

section \<open>From edges to events\<close>

datatype PowerButtonSignal = Level bool | Interrupted

definition event_from_gpio :: "GpioEdge \<Rightarrow> Event option" where
  "event_from_gpio edge = (case role edge of
     Hook \<Rightarrow> Some (if level edge then HookOn else HookOff)
   | PinRole.RotaryPulse \<Rightarrow> (if \<not> level edge then Some Event.RotaryPulse else None)
   | RotaryRead \<Rightarrow> None
   | PowerButton \<Rightarrow> None)"

definition role_metric_label :: "PinRole \<Rightarrow> string" where
  "role_metric_label r = (case r of
     Hook \<Rightarrow> ''hook''
   | PinRole.RotaryPulse \<Rightarrow> ''rotary_pulse''
   | RotaryRead \<Rightarrow> ''rotary_read''
   | PowerButton \<Rightarrow> ''power_button'')"

definition GPIO_REBUILD_BACKOFF_BASE :: nat where "GPIO_REBUILD_BACKOFF_BASE = 200"   \<comment> \<open>ms\<close>
definition GPIO_REBUILD_BACKOFF_MAX :: nat where "GPIO_REBUILD_BACKOFF_MAX = 30000"   \<comment> \<open>ms\<close>

section \<open>The GPIO task\<close>

record GpioTask =
  adapter :: bool                     \<comment> \<open>\<open>current.is_some()\<close>\<close>
  backoff :: nat                      \<comment> \<open>milliseconds\<close>
  queued :: "Event list"              \<comment> \<open>handed to the forwarder\<close>
  signals :: "PowerButtonSignal list" \<comment> \<open>sent to \<open>power_button_task\<close>\<close>
  published :: "TelemetryEvent list"  \<comment> \<open>on the telemetry bus\<close>
  dropped_events :: "string list"     \<comment> \<open>\<open>record_dropped_gpio_event\<close> labels\<close>
  running :: bool

definition gpio_task_start :: GpioTask where
  "gpio_task_start =
     \<lparr>adapter = True, backoff = GPIO_REBUILD_BACKOFF_BASE, queued = [], signals = [],
      published = [], dropped_events = [], running = True\<rparr>"

text \<open>
  What one iteration gets: an edge with the answers of the event queue and of the button
  channel (\<open>False\<close>: receiver gone); a stream error; a rebuilt adapter with its hook and
  button snapshots; or a failed rebuild.
\<close>

datatype GpioOutcome =
    Edge GpioEdge TrySend bool
  | Lost string bool
  | Rebuilt "string + bool" TrySend "string + bool" bool u64
  | RebuildFailed string

definition publish_event :: "TelemetryEvent \<Rightarrow> GpioTask \<Rightarrow> GpioTask" where
  "publish_event e task = task\<lparr>published := published task @ [e]\<rparr>"

text \<open>\<open>queue_event\<close>; the result is \<open>False\<close> when the forwarder is gone.\<close>

definition queue_event :: "TrySend \<Rightarrow> Event \<Rightarrow> PinRole \<Rightarrow> GpioTask \<Rightarrow> bool \<times> GpioTask" where
  "queue_event answer event r task = (case answer of
     Sent \<Rightarrow> (True, task\<lparr>queued := queued task @ [event]\<rparr>)
   | Full \<Rightarrow> (True, task\<lparr>dropped_events := dropped_events task @ [role_metric_label r]\<rparr>)
   | Closed \<Rightarrow> (False, task))"

definition send_signal :: "bool \<Rightarrow> PowerButtonSignal \<Rightarrow> GpioTask \<Rightarrow> bool \<times> GpioTask" where
  "send_signal open sig task =
     (if open then (True, task\<lparr>signals := signals task @ [sig]\<rparr>) else (False, task))"

definition reconcile_hook :: "string + bool \<Rightarrow> TrySend \<Rightarrow> GpioTask \<Rightarrow> bool \<times> GpioTask" where
  "reconcile_hook snapshot answer task = (case snapshot of
     Inr lv \<Rightarrow>
       (let edge = \<lparr>role = Hook, level = lv, at_monotonic_ns = 0\<rparr>;
            task1 = publish_event (GpioEdgeEvent edge) task
        in case event_from_gpio edge of
             Some event \<Rightarrow> queue_event answer event Hook task1
           | None \<Rightarrow> (True, task1))
   | Inl err \<Rightarrow> (True, task))"

definition reconcile_power_button ::
    "string + bool \<Rightarrow> bool \<Rightarrow> bool \<Rightarrow> u64 \<Rightarrow> GpioTask \<Rightarrow> bool \<times> GpioTask" where
  "reconcile_power_button snapshot configured open ns task =
     (if \<not> configured then (True, task)
      else case snapshot of
        Inr lv \<Rightarrow> send_signal open (Level lv)
          (publish_event (GpioEdgeEvent \<lparr>role = PowerButton, level = lv, at_monotonic_ns = ns\<rparr>) task)
      | Inl err \<Rightarrow> (True, task))"

text \<open>
  One iteration. \<open>rebuild\<close> says whether a rebuild factory is attached, \<open>configured\<close> whether
  there is a power-button channel. An outcome that does not fit the adapter's state (an edge
  without an adapter) is not one the iteration can get.
\<close>

definition gpio_iteration :: "bool \<Rightarrow> bool \<Rightarrow> GpioTask \<Rightarrow> GpioOutcome \<Rightarrow> GpioTask" where
  "gpio_iteration rebuild configured task outcome =
     (if \<not> running task then task
      else if \<not> adapter task then
        (if \<not> rebuild then task\<lparr>running := False\<rparr>
         else
           let task1 = task\<lparr>backoff := min (backoff task * 2) GPIO_REBUILD_BACKOFF_MAX\<rparr>
           in case outcome of
                Rebuilt hook answer button open ns \<Rightarrow>
                  (let (ok, task2) = reconcile_hook hook answer task1 in
                   if \<not> ok then task2\<lparr>running := False\<rparr>
                   else
                     let (ok', task3) = reconcile_power_button button configured open ns task2 in
                     if \<not> ok' then task3\<lparr>running := False\<rparr> else task3\<lparr>adapter := True\<rparr>)
              | RebuildFailed err \<Rightarrow>
                  publish_event (TelemetryEvent.Error ''gpio'' (''gpio rebuild failed: '' @ err)) task1
              | _ \<Rightarrow> task)
      else
        (case outcome of
           Edge edge answer open \<Rightarrow>
             (let task1 = publish_event (GpioEdgeEvent edge)
                    (task\<lparr>backoff := GPIO_REBUILD_BACKOFF_BASE\<rparr>);
                  (ok, task2) =
                    (if role edge = PowerButton then
                       (if configured then send_signal open (Level (level edge)) task1
                        else (True, task1))
                     else case event_from_gpio edge of
                       Some event \<Rightarrow> queue_event answer event (role edge) task1
                     | None \<Rightarrow> (True, task1))
              in if ok then task2 else task2\<lparr>running := False, adapter := False\<rparr>)
         | Lost err open \<Rightarrow>
             (let task1 = publish_event (TelemetryEvent.Error ''gpio'' err) (task\<lparr>adapter := False\<rparr>)
              in if configured then
                   (let (ok, task2) = send_signal open Interrupted task1
                    in if ok then task2 else task2\<lparr>running := False\<rparr>)
                 else task1)
         | _ \<Rightarrow> task))"

definition gpio_run :: "bool \<Rightarrow> bool \<Rightarrow> GpioOutcome list \<Rightarrow> GpioTask" where
  "gpio_run rebuild configured outcomes =
     foldl (gpio_iteration rebuild configured) gpio_task_start outcomes"

section \<open>The power-button task\<close>

datatype ButtonPhase = Waiting | Timing nat bool | Finished   \<comment> \<open>deadline, held\<close>

record ButtonTask =
  phase :: ButtonPhase
  inbox :: "PowerButtonSignal list"    \<comment> \<open>arrived, not yet received\<close>
  sender_gone :: bool

definition button_start :: ButtonTask where
  "button_start = \<lparr>phase = Waiting, inbox = [], sender_gone = False\<rparr>"

fun drain_release :: "bool \<Rightarrow> PowerButtonSignal list \<Rightarrow> bool option \<times> PowerButtonSignal list" where
  "drain_release gone [] = (if gone then Some False else None, [])"
| "drain_release gone (Level True # q) = drain_release gone q"
| "drain_release gone (Level False # q) = (Some True, q)"
| "drain_release gone (Interrupted # q) = (Some False, q)"

text \<open>
  One turn of the task at time \<open>time\<close>: the outer \<open>recv\<close>, or one \<open>select!\<close> with its timer
  branch first. \<open>open\<close> says whether the core still takes events; without it a send fails and
  the task returns.
\<close>

definition button_turn :: "nat \<Rightarrow> nat \<Rightarrow> bool \<Rightarrow> ButtonTask \<Rightarrow> ButtonTask \<times> Event list" where
  "button_turn hold time open b = (case phase b of
     Finished \<Rightarrow> (b, [])
   | Waiting \<Rightarrow>
       (case inbox b of
          [] \<Rightarrow> (if sender_gone b then b\<lparr>phase := Finished\<rparr> else b, [])
        | sig # q \<Rightarrow>
            (b\<lparr>inbox := q, phase := (if sig = Level True then Timing (time + hold) False else Waiting)\<rparr>,
             []))
   | Timing deadline held \<Rightarrow>
       (if \<not> held \<and> deadline \<le> time then
          (case drain_release (sender_gone b) (inbox b) of
             (Some released, q) \<Rightarrow>
               (if released then
                  (if open then (b\<lparr>inbox := q, phase := Waiting\<rparr>, [PowerButtonPressed])
                   else (b\<lparr>inbox := q, phase := Finished\<rparr>, []))
                else (b\<lparr>inbox := q, phase := Waiting\<rparr>, []))
           | (None, q) \<Rightarrow>
               (if open then (b\<lparr>inbox := q, phase := Timing deadline True\<rparr>, [PowerButtonHeld])
                else (b\<lparr>inbox := q, phase := Finished\<rparr>, [])))
        else
          (case inbox b of
             [] \<Rightarrow> (if sender_gone b then b\<lparr>phase := Finished\<rparr> else b, [])
           | Level True # q \<Rightarrow> (b\<lparr>inbox := q\<rparr>, [])
           | Level False # q \<Rightarrow>
               (if held then (b\<lparr>inbox := q, phase := Waiting\<rparr>, [])
                else if open then (b\<lparr>inbox := q, phase := Waiting\<rparr>, [PowerButtonPressed])
                else (b\<lparr>inbox := q, phase := Finished\<rparr>, []))
           | Interrupted # q \<Rightarrow> (b\<lparr>inbox := q, phase := Waiting\<rparr>, []))))"

text \<open>The task among its environment: signals arrive, the sender goes away, a turn is taken.\<close>

datatype ButtonInput = Arrive PowerButtonSignal | SenderGone | Turn nat bool   \<comment> \<open>time, open\<close>

definition button_step :: "nat \<Rightarrow> ButtonTask \<Rightarrow> ButtonInput \<Rightarrow> ButtonTask \<times> Event list" where
  "button_step hold b input = (case input of
     Arrive sig \<Rightarrow> (b\<lparr>inbox := inbox b @ [sig]\<rparr>, [])
   | SenderGone \<Rightarrow> (b\<lparr>sender_gone := True\<rparr>, [])
   | Turn time open \<Rightarrow> button_turn hold time open b)"

section \<open>The handset through an outage\<close>

text \<open>The hook level the booth last saw, in an edge or in the snapshot after a rebuild.\<close>

definition seen_hook :: "bool \<Rightarrow> bool \<Rightarrow> bool \<Rightarrow> GpioTask \<Rightarrow> GpioOutcome \<Rightarrow> bool" where
  "seen_hook rebuild configured h task outcome =
     (if \<not> running task then h
      else case outcome of
        Edge edge _ _ \<Rightarrow> if adapter task \<and> role edge = Hook then level edge else h
      | Rebuilt (Inr lv) _ _ _ _ \<Rightarrow> if \<not> adapter task \<and> rebuild then lv else h
      | _ \<Rightarrow> h)"

fun gpio_trace :: "bool \<Rightarrow> bool \<Rightarrow> GpioTask \<times> bool \<Rightarrow> GpioOutcome list \<Rightarrow> GpioTask \<times> bool" where
  "gpio_trace rebuild configured th [] = th"
| "gpio_trace rebuild configured th (outcome # rest) =
     gpio_trace rebuild configured
       (gpio_iteration rebuild configured (fst th) outcome,
        seen_hook rebuild configured (snd th) (fst th) outcome) rest"

definition answers_sent :: "GpioOutcome \<Rightarrow> bool" where
  "answers_sent outcome = (case outcome of
     Edge _ answer _ \<Rightarrow> answer = Sent
   | Rebuilt _ answer _ _ _ \<Rightarrow> answer = Sent
   | _ \<Rightarrow> True)"

text \<open>What the core makes of the queued events.\<close>

definition core_handset :: "Event list \<Rightarrow> bool" where
  "core_handset es = handset (fst (run_machine handle State.Idle es))"

lemma run_handle: "run_machine handle s es = run_machine admit_step s (map (\<lambda>e. (e, True)) es)"
  by (induction es arbitrary: s) (simp_all add: handle_def admit_step_def)

lemma core_handset_eq: "core_handset es = foldl handset_step True (map (\<lambda>e. (e, True)) es)"
  by (simp add: core_handset_def run_handle handset.run_simulates)
    (simp add: handset_def on_hook_after_def)

lemma core_handset_simps:
  "core_handset []"
  "core_handset (es @ [HookOn])"
  "\<not> core_handset (es @ [HookOff])"
  "core_handset (es @ [Event.RotaryPulse]) = core_handset es"
  by (simp_all add: core_handset_eq handset_step_def)

lemma gpio_iteration_handset:
  assumes "core_handset (queued task) = h" and "answers_sent outcome"
  shows "core_handset (queued (gpio_iteration rebuild configured task outcome)) =
    seen_hook rebuild configured h task outcome"
  using assms
  by (auto simp: gpio_iteration_def publish_event_def queue_event_def send_signal_def
      reconcile_hook_def reconcile_power_button_def answers_sent_def seen_hook_def event_from_gpio_def
      core_handset_simps Let_def split_beta
      split: GpioOutcome.split TrySend.split option.split sum.split PinRole.split)

lemma gpio_trace_handset:
  "list_all answers_sent outcomes \<Longrightarrow> core_handset (queued task) = h \<Longrightarrow>
   core_handset (queued (fst (gpio_trace rebuild configured (task, h) outcomes))) =
     snd (gpio_trace rebuild configured (task, h) outcomes)"
proof (induction outcomes arbitrary: task h)
  case (Cons outcome rest)
  then have "core_handset (queued (gpio_iteration rebuild configured task outcome)) =
      seen_hook rebuild configured h task outcome"
    by (intro gpio_iteration_handset) simp_all
  then show ?case
    using Cons.prems(1) by (simp only: gpio_trace.simps fst_conv snd_conv) (rule Cons.IH, simp_all)
qed simp

section \<open>Recovery\<close>

lemma gpio_lost:
  "running (gpio_iteration rebuild configured gpio_task_start (Lost err True))"
  "\<not> adapter (gpio_iteration rebuild configured gpio_task_start (Lost err True))"
  "backoff (gpio_iteration rebuild configured gpio_task_start (Lost err True)) = 200"
  "length (published (gpio_iteration rebuild configured gpio_task_start (Lost err True))) = 1"
  by (simp_all add: gpio_task_start_def gpio_iteration_def publish_event_def send_signal_def
      GPIO_REBUILD_BACKOFF_BASE_def Let_def)

lemma gpio_rebuild_failed:
  "running task \<Longrightarrow> \<not> adapter task \<Longrightarrow>
   gpio_iteration True configured task (RebuildFailed err) =
     task\<lparr>backoff := min (backoff task * 2) 30000,
       published := published task @ [TelemetryEvent.Error ''gpio'' (''gpio rebuild failed: '' @ err)]\<rparr>"
  by (simp add: gpio_iteration_def publish_event_def GPIO_REBUILD_BACKOFF_MAX_def Let_def)

section \<open>When the power-off is reached\<close>

text \<open>The signals that arrived over a list of inputs.\<close>

fun arrivals :: "ButtonInput list \<Rightarrow> PowerButtonSignal list" where
  "arrivals [] = []"
| "arrivals (Arrive sig # inputs) = sig # arrivals inputs"
| "arrivals (_ # inputs) = arrivals inputs"

lemma arrivals_append [simp]: "arrivals (xs @ ys) = arrivals xs @ arrivals ys"
  by (induction xs rule: arrivals.induct) simp_all

definition button_after :: "nat \<Rightarrow> ButtonInput list \<Rightarrow> ButtonTask" where
  "button_after hold inputs = fst (run_machine (button_step hold) button_start inputs)"

lemma button_after_simps:
  "button_after hold [] = button_start"
  "button_after hold (inputs @ [i]) = fst (button_step hold (button_after hold inputs) i)"
  by (simp_all add: button_after_def run_machine_append)

text \<open>
  While a press is timed: the turn that received it, and only presses since then, some
  already received and the rest still in the inbox.
\<close>

definition timed_press :: "nat \<Rightarrow> ButtonInput list \<Rightarrow> nat \<Rightarrow> bool" where
  "timed_press hold inputs deadline =
     (\<exists>pre start op post q k. inputs = pre @ Turn start op # post \<and> deadline = start + hold \<and>
       phase (button_after hold pre) = Waiting \<and>
       inbox (button_after hold pre) = Level True # q \<and>
       q @ arrivals post = replicate k (Level True) @ inbox (button_after hold inputs))"

lemma timed_press_start:
  assumes "phase (button_after hold inputs) = Waiting"
    and "inbox (button_after hold inputs) = Level True # q"
  shows "timed_press hold (inputs @ [Turn start op]) (start + hold)"
  unfolding timed_press_def
  by (rule exI [of _ inputs], rule exI [of _ start], rule exI [of _ op], rule exI [of _ "[]"],
      rule exI [of _ q], rule exI [of _ 0])
    (simp add: assms button_after_simps button_step_def button_turn_def)

lemma timed_press_extend:
  assumes "timed_press hold inputs deadline"
    and "inbox (button_after hold inputs) @ arrivals [i] =
      replicate k' (Level True) @ inbox (button_after hold (inputs @ [i]))"
  shows "timed_press hold (inputs @ [i]) deadline"
proof -
  obtain pre start op post q k where old: "inputs = pre @ Turn start op # post"
    "deadline = start + hold" "phase (button_after hold pre) = Waiting"
    "inbox (button_after hold pre) = Level True # q"
    "q @ arrivals post = replicate k (Level True) @ inbox (button_after hold inputs)"
    using assms(1) unfolding timed_press_def by blast
  have "q @ arrivals (post @ [i]) =
      replicate k (Level True) @ (inbox (button_after hold inputs) @ arrivals [i])"
    using old(5) by simp
  also have "\<dots> = replicate (k + k') (Level True) @ inbox (button_after hold (inputs @ [i]))"
    by (simp only: assms(2) replicate_add append_assoc)
  finally show ?thesis
    unfolding timed_press_def using old
    by (intro exI [of _ pre] exI [of _ start] exI [of _ op] exI [of _ "post @ [i]"] exI [of _ q]
        exI [of _ "k + k'"]) simp
qed

lemma phase_timing:
  "phase (button_after hold inputs) = Timing deadline False \<Longrightarrow> timed_press hold inputs deadline"
proof (induction inputs rule: rev_induct)
  case Nil
  then show ?case by (simp add: button_after_simps button_start_def)
next
  case (snoc i inputs)
  let ?b = "button_after hold inputs"
  show ?case
  proof (cases i)
    case (Arrive sig)
    then show ?thesis
      using snoc timed_press_extend [of hold inputs deadline i 0]
      by (simp add: button_after_simps button_step_def)
  next
    case SenderGone
    then show ?thesis
      using snoc timed_press_extend [of hold inputs deadline i 0]
      by (simp add: button_after_simps button_step_def)
  next
    case (Turn time op)
    show ?thesis
    proof (cases "phase ?b")
      case Waiting
      then obtain q where "inbox ?b = Level True # q" and "deadline = time + hold"
        using snoc.prems Turn
        by (auto simp: button_after_simps button_step_def button_turn_def split: list.splits if_splits)
      then show ?thesis
        using timed_press_start [OF Waiting] Turn by simp
    next
      case (Timing d held)
      then have old: "timed_press hold inputs deadline"
        using snoc Turn
        by (auto simp: button_after_simps button_step_def button_turn_def
            split: list.splits if_splits option.splits prod.splits PowerButtonSignal.splits bool.splits)
      have "inbox ?b = replicate 0 (Level True) @ inbox (button_after hold (inputs @ [i])) \<or>
          inbox ?b = replicate 1 (Level True) @ inbox (button_after hold (inputs @ [i]))"
        using Timing snoc.prems Turn
        by (auto simp: button_after_simps button_step_def button_turn_def
            split: list.splits if_splits option.splits prod.splits PowerButtonSignal.splits bool.splits)
      then show ?thesis
        using timed_press_extend [OF old, of i 0] timed_press_extend [OF old, of i 1] Turn
        by (elim disjE) simp_all
    next
      case Finished
      then show ?thesis
        using snoc.prems Turn by (simp add: button_after_simps button_step_def button_turn_def)
    qed
  qed
qed

lemma drain_release_None:
  "drain_release gone q = (None, q') \<Longrightarrow> q = replicate (length q) (Level True)"
  by (induction gone q rule: drain_release.induct) simp_all

section \<open>Properties\<close>

text \<open>C31. A lift or hang-up is never lost to an outage: as long as the event queue takes the
  events, the handset position the core arrives at is always the hook level the booth last
  saw, whether in an edge or in the snapshot taken after the adapter was rebuilt.\<close>
theorem core_hook_follows_adapter:
  assumes "list_all answers_sent outcomes"
  shows "core_handset (queued (fst (gpio_trace rebuild configured (gpio_task_start, True) outcomes))) =
    snd (gpio_trace rebuild configured (gpio_task_start, True) outcomes)"
  using assms by (rule gpio_trace_handset) (simp add: gpio_task_start_def core_handset_simps)

theorem core_hook_follows_adapter_witness:
  "core_handset (queued (fst (gpio_trace True True (gpio_task_start, True)
     [Lost ''eof'' True, RebuildFailed ''busy'', Rebuilt (Inr False) Sent (Inr False) True 0]))) = False"
  using core_hook_follows_adapter
    [of "[Lost ''eof'' True, RebuildFailed ''busy'', Rebuilt (Inr False) Sent (Inr False) True 0]" True True]
  by (simp add: answers_sent_def gpio_task_start_def seen_hook_def gpio_iteration_def
      publish_event_def send_signal_def reconcile_hook_def reconcile_power_button_def
      queue_event_def event_from_gpio_def Let_def)

text \<open>Recovery backs off exponentially within bounds and reports once: after a loss and
  \<open>n\<close> failed rebuilds the task is still running, the next delay is 200 ms doubled \<open>n\<close> times
  and capped at 30 s, and exactly \<open>n + 1\<close> errors were published.\<close>
theorem gpio_recovery_backoff:
  "let task = gpio_run True configured (Lost err True # replicate n (RebuildFailed err')) in
     running task \<and> backoff task = min (200 * 2 ^ n) 30000 \<and> length (published task) = Suc n"
proof -
  let ?lost = "gpio_iteration True configured gpio_task_start (Lost err True)"
  let ?failed = "\<lambda>n. foldl (gpio_iteration True configured) ?lost (replicate n (RebuildFailed err'))"
  have "running (?failed n) \<and> \<not> adapter (?failed n) \<and>
      backoff (?failed n) = min (200 * 2 ^ n) 30000 \<and> length (published (?failed n)) = Suc n"
  proof (induction n)
    case 0
    then show ?case by (simp add: gpio_lost)
  next
    case (Suc n)
    have "?failed (Suc n) = gpio_iteration True configured (?failed n) (RebuildFailed err')"
      by (simp flip: replicate_append_same)
    then show ?case
      using Suc by (simp add: gpio_rebuild_failed min_def)
  qed
  then show ?thesis by (simp add: gpio_run_def Let_def)
qed

text \<open>C32. The booth is powered off only for a press that really lasted: \<open>PowerButtonHeld\<close> is
  emitted only in a turn at least \<open>hold\<close> after the turn that received the press, and only if
  no release and no loss of the edge stream has arrived since, received or still waiting.\<close>
theorem power_off_needs_a_hold:
  assumes "PowerButtonHeld \<in> set (snd (button_step hold (button_after hold inputs) i))"
  shows "\<exists>time op' pre start op post q. i = Turn time op' \<and>
    inputs = pre @ Turn start op # post \<and> start + hold \<le> time \<and>
    phase (button_after hold pre) = Waiting \<and> inbox (button_after hold pre) = Level True # q \<and>
    set (q @ arrivals post) \<subseteq> {Level True}"
proof -
  let ?b = "button_after hold inputs"
  obtain time op' deadline q' where i: "i = Turn time op'"
    and timing: "phase ?b = Timing deadline False" and "deadline \<le> time"
    and "drain_release (sender_gone ?b) (inbox ?b) = (None, q')"
    using assms
    by (auto simp: button_step_def button_turn_def
        split: ButtonInput.splits ButtonPhase.splits list.splits if_splits option.splits
          prod.splits PowerButtonSignal.splits bool.splits)
  then have rest: "inbox ?b = replicate (length (inbox ?b)) (Level True)"
    using drain_release_None by blast
  obtain pre start op post q k where old: "inputs = pre @ Turn start op # post"
    "deadline = start + hold" "phase (button_after hold pre) = Waiting"
    "inbox (button_after hold pre) = Level True # q"
    "q @ arrivals post = replicate k (Level True) @ inbox ?b"
    using phase_timing [OF timing] unfolding timed_press_def by blast
  have "set (q @ arrivals post) \<subseteq> {Level True}"
    unfolding old(5) by (subst rest) (auto simp: set_replicate_conv_if)
  then show ?thesis
    using i old \<open>deadline \<le> time\<close> by blast
qed

theorem power_off_needs_a_hold_witness:
  "\<exists>pre start op post. [Arrive (Level True), Turn 0 True] = pre @ Turn start op # post \<and> start + 5 \<le> 5"
proof -
  have "PowerButtonHeld \<in> set (snd (button_step 5
      (button_after 5 [Arrive (Level True), Turn 0 True]) (Turn 5 True)))"
    by (simp add: button_after_def button_step_def button_turn_def button_start_def)
  from power_off_needs_a_hold [OF this] show ?thesis by fastforce
qed

text \<open>What a press does, end to end through the core, in any call state: a release that
  has arrived by the time the task looks again reboots, even if the hold time has passed (a
  tie is a short press); a press with no release by the deadline powers off, once, and the
  later release does nothing; a press whose edge stream is lost does nothing.\<close>
theorem button_press_outcomes:
  "snd (run_machine handle s (snd (run_machine (button_step hold) button_start
     [Arrive (Level True), Turn t0 True, Arrive (Level False), Turn t1 True]))) = [Reboot] \<and>
   snd (run_machine handle s (snd (run_machine (button_step hold) button_start
     [Arrive (Level True), Turn t0 True, Turn (t0 + hold + d) True, Arrive (Level False),
      Turn t2 True]))) = [PowerOff] \<and>
   snd (run_machine handle s (snd (run_machine (button_step hold) button_start
     [Arrive (Level True), Turn t0 True, Arrive Interrupted, Turn t1 True]))) = []"
proof -
  have press: "run_machine handle s [PowerButtonPressed] = (s, [Reboot])"
    and held: "run_machine handle s [PowerButtonHeld] = (s, [PowerOff])"
    by (simp_all add: handle_def handle_with_call_availability_def available_power is_power_def)
  note turn = run_machine.simps(2) button_step_def button_turn_def button_start_def
  have "snd (run_machine (button_step hold) button_start
      [Arrive (Level True), Turn t0 True, Arrive (Level False), Turn t1 True]) = [PowerButtonPressed]"
    by (simp add: turn del: run_machine_Cons)
  moreover have "snd (run_machine (button_step hold) button_start
      [Arrive (Level True), Turn t0 True, Turn (t0 + hold + d) True, Arrive (Level False),
       Turn t2 True]) = [PowerButtonHeld]"
    by (simp add: turn del: run_machine_Cons)
  moreover have "snd (run_machine (button_step hold) button_start
      [Arrive (Level True), Turn t0 True, Arrive Interrupted, Turn t1 True]) = []"
    by (simp add: turn del: run_machine_Cons)
  ultimately show ?thesis
    by (simp only: press held snd_conv run_machine.simps(1))
qed

end
