(* ===== verification/Installation.thy ===== *)
theory Installation
  imports Hal
begin

text \<open>
  The operator-controlled admission of calls, \<open>crates/booth-bin/src/installation.rs\<close>: the
  gate's mode, lease and revision; \<open>observe\<close> and \<open>reconcile\<close>; the reconciler task, whose probe
  is in flight while other tasks use the gate; and the gated operator client. \<open>FetchGeneration\<close>
  is that of \<open>crates/booth-bin/src/lib.rs\<close>. Times are nanoseconds of the monotonic clock and
  arguments of the operations. The operator service is outside: its answers are arguments.
\<close>

section \<open>Fetch generations\<close>

text \<open>A token remembers the generation it was issued in.\<close>

definition invalidate :: "u64 \<Rightarrow> u64" where
  "invalidate generation = generation + 1"

definition current_token :: "u64 \<Rightarrow> u64" where
  "current_token generation = generation"

definition is_current :: "u64 \<Rightarrow> u64 \<Rightarrow> bool" where
  "is_current generation issued = (generation = issued)"

section \<open>The gate\<close>

definition ACTIVE_LEASE :: nat where "ACTIVE_LEASE = 15 * 1000000000"

datatype Mode = Unknown | Legacy | Active | BetweenExhibitions

record Observation =
  mode :: Mode
  checked :: nat
  revision :: u64

record InstallationGate =
  state :: Observation
  fetch_generation :: u64

definition gate_new :: "bool \<Rightarrow> nat \<Rightarrow> InstallationGate" where
  "gate_new reconciled now =
     \<lparr>state = \<lparr>mode = (if reconciled then Unknown else Legacy), checked = now, revision = 0\<rparr>,
      fetch_generation = 0\<rparr>"

definition check :: "nat \<Rightarrow> InstallationGate \<Rightarrow> (unit, OperatorError) result" where
  "check now gate = (case mode (state gate) of
     Legacy \<Rightarrow> Inr ()
   | Active \<Rightarrow>
       (if now - checked (state gate) < ACTIVE_LEASE then Inr ()
        else Inl (Transport ''installation lifecycle is unknown or stale; waiting for GET /v1/status''))
   | BetweenExhibitions \<Rightarrow>
       Inl (InstallationInactive ''waiting for an operator to start the next exhibition'')
   | Unknown \<Rightarrow>
       Inl (Transport ''installation lifecycle is unknown or stale; waiting for GET /v1/status''))"

definition accepting_calls :: "nat \<Rightarrow> InstallationGate \<Rightarrow> bool" where
  "accepting_calls now gate = (case check now gate of Inr _ \<Rightarrow> True | Inl _ \<Rightarrow> False)"

definition is_inactive :: "('t, OperatorError) result \<Rightarrow> bool" where
  "is_inactive result = (case result of Inl (InstallationInactive _) \<Rightarrow> True | _ \<Rightarrow> False)"

text \<open>\<open>observe\<close>: the gate, and whether the watchers are notified. The result passes through.\<close>

definition observe :: "('t, OperatorError) result \<Rightarrow> InstallationGate \<Rightarrow> InstallationGate \<times> bool" where
  "observe result gate =
     (if is_inactive result then
        (let st = (state gate)\<lparr>revision := revision (state gate) + 1\<rparr>
         in if mode st \<noteq> BetweenExhibitions then
              (gate\<lparr>state := st\<lparr>mode := BetweenExhibitions\<rparr>,
                 fetch_generation := invalidate (fetch_generation gate)\<rparr>, True)
            else (gate\<lparr>state := st\<rparr>, False))
      else (gate, False))"

text \<open>The next mode a probe's result asks for; \<open>None\<close> is the early \<open>return false\<close>.\<close>

definition next_mode ::
    "nat \<Rightarrow> Observation \<Rightarrow> (InstallationState option, OperatorError) result \<Rightarrow> Mode option" where
  "next_mode now st result = (case result of
     Inr (Some InstallationState.Active) \<Rightarrow> Some Active
   | Inr (Some InstallationState.BetweenExhibitions) \<Rightarrow> Some BetweenExhibitions
   | Inr None \<Rightarrow> Some Legacy
   | Inl _ \<Rightarrow> (if mode st = Active \<and> ACTIVE_LEASE \<le> now - checked st then Some Unknown else None))"

definition reconcile ::
    "nat \<Rightarrow> u64 \<Rightarrow> (InstallationState option, OperatorError) result \<Rightarrow> InstallationGate \<Rightarrow>
     InstallationGate \<times> bool" where
  "reconcile now seen result gate =
     (if revision (state gate) \<noteq> seen then (gate, False)
      else case next_mode now (state gate) result of
        None \<Rightarrow> (gate, False)
      | Some next \<Rightarrow>
          (gate\<lparr>
             fetch_generation :=
               (if next \<noteq> mode (state gate) \<and> (next = Unknown \<or> next = BetweenExhibitions)
                then invalidate (fetch_generation gate) else fetch_generation gate),
             state := \<lparr>mode = next, checked = now, revision = revision (state gate) + 1\<rparr>\<rparr>, True))"

section \<open>The reconciler among the other tasks\<close>

text \<open>
  The reconciler reads the revision, waits for the operator's answer (or its own time-out,
  a transport error) and reconciles. Any other task may observe an answer meanwhile.
\<close>

record GateSystem =
  gate :: InstallationGate
  probe :: "u64 option"           \<comment> \<open>the revision the probe in flight has read\<close>

datatype GateInput =
    ProbeStart
  | ProbeEnd nat "(InstallationState option, OperatorError) result"
  | Observed "(unit, OperatorError) result"

definition gate_step :: "GateSystem \<Rightarrow> GateInput \<Rightarrow> GateSystem" where
  "gate_step sys input = (case input of
     ProbeStart \<Rightarrow>
       (case probe sys of
          None \<Rightarrow> sys\<lparr>probe := Some (revision (state (gate sys)))\<rparr>
        | Some _ \<Rightarrow> sys)
   | ProbeEnd now result \<Rightarrow>
       (case probe sys of
          None \<Rightarrow> sys
        | Some seen \<Rightarrow> sys\<lparr>gate := fst (reconcile now seen result (gate sys)), probe := None\<rparr>)
   | Observed result \<Rightarrow> sys\<lparr>gate := fst (observe result (gate sys))\<rparr>)"

definition gate_run :: "bool \<Rightarrow> nat \<Rightarrow> GateInput list \<Rightarrow> GateSystem" where
  "gate_run reconciled now inputs =
     foldl gate_step \<lparr>gate = gate_new reconciled now, probe = None\<rparr> inputs"

section \<open>The gated client\<close>

text \<open>
  A gated call: \<open>check\<close> on entry; then, when the operator's answer arrives and the gate may
  have changed meanwhile, \<open>observe\<close>; fetches \<open>check\<close> once more before the value is used.
  The result is paired with the gate and with whether the operator was asked at all.
\<close>

definition gated_fetch ::
    "nat \<Rightarrow> InstallationGate \<Rightarrow> nat \<Rightarrow> InstallationGate \<Rightarrow> ('t, OperatorError) result \<Rightarrow>
     ('t, OperatorError) result \<times> InstallationGate \<times> bool" where
  "gated_fetch t0 gate0 t1 gate1 answer =
     (case check t0 gate0 of
        Inl err \<Rightarrow> (Inl err, gate0, False)
      | Inr _ \<Rightarrow>
          (let gate2 = fst (observe answer gate1) in
           case answer of
             Inl err \<Rightarrow> (Inl err, gate2, True)
           | Inr v \<Rightarrow> (case check t1 gate2 of
               Inl err \<Rightarrow> (Inl err, gate2, True)
             | Inr _ \<Rightarrow> (Inr v, gate2, True))))"

definition gated_write ::
    "nat \<Rightarrow> InstallationGate \<Rightarrow> nat \<Rightarrow> InstallationGate \<Rightarrow> ('t, OperatorError) result \<Rightarrow>
     ('t, OperatorError) result \<times> InstallationGate \<times> bool" where
  "gated_write t0 gate0 t1 gate1 answer =
     (case check t0 gate0 of
        Inl err \<Rightarrow> (Inl err, gate0, False)
      | Inr _ \<Rightarrow> (answer, fst (observe answer gate1), True))"

section \<open>What a step does to the gate\<close>

lemma observe_gate:
  "revision (state (fst (observe result g))) =
     revision (state g) + (if is_inactive result then 1 else 0)"
  "mode (state (fst (observe result g))) =
     (if is_inactive result then BetweenExhibitions else mode (state g))"
  "checked (state (fst (observe result g))) = checked (state g)"
  by (auto simp: observe_def Let_def)

lemma accepting_iff:
  "accepting_calls now g \<longleftrightarrow>
     mode (state g) = Legacy \<or>
     mode (state g) = Active \<and> now - checked (state g) < ACTIVE_LEASE"
  by (simp add: accepting_calls_def check_def split: Mode.split)

lemma gate_run_snoc:
  "gate_run b now0 (inputs @ [i]) = gate_step (gate_run b now0 inputs) i"
  "gate_run b now0 [] = \<lparr>gate = gate_new b now0, probe = None\<rparr>"
  by (simp_all add: gate_run_def)

text \<open>The probe in flight read the revision at most as many changes ago as there were steps.\<close>

definition probe_behind :: "nat \<Rightarrow> nat \<Rightarrow> GateSystem \<Rightarrow> bool" where
  "probe_behind lo hi sys =
     (case probe sys of
        None \<Rightarrow> True
      | Some seen \<Rightarrow> \<exists>k. lo \<le> k \<and> k \<le> hi \<and> revision (state (gate sys)) = seen + of_nat k)"

lemma probe_behind_start: "probe_behind 0 (length inputs) (gate_run b now0 inputs)"
proof (induction inputs rule: rev_induct)
  case Nil
  then show ?case by (simp add: gate_run_snoc probe_behind_def)
next
  case (snoc i inputs)
  let ?sys = "gate_run b now0 inputs"
  show ?case
  proof (cases i)
    case ProbeStart
    then show ?thesis
      using snoc.IH
      by (auto simp: gate_run_snoc gate_step_def probe_behind_def le_Suc_eq split: option.splits
          intro: exI [of _ 0])
  next
    case (ProbeEnd now result)
    then show ?thesis
      using snoc.IH by (auto simp: gate_run_snoc gate_step_def probe_behind_def split: option.splits)
  next
    case (Observed result)
    show ?thesis
    proof (cases "probe ?sys")
      case None
      then show ?thesis using Observed by (simp add: gate_run_snoc gate_step_def probe_behind_def)
    next
      case (Some seen)
      then obtain k where "k \<le> length inputs" "revision (state (gate ?sys)) = seen + of_nat k"
        using snoc.IH by (auto simp: probe_behind_def)
      then have "revision (state (fst (observe result (gate ?sys)))) =
          seen + of_nat (if is_inactive result then Suc k else k)"
        by (simp add: observe_gate)
      then show ?thesis
        using Some Observed \<open>k \<le> length inputs\<close>
        by (auto simp: gate_run_snoc gate_step_def probe_behind_def
            intro!: exI [of _ "if is_inactive result then Suc k else k"])
    qed
  qed
qed

lemma of_nat_word_eq_0: "0 < k \<Longrightarrow> k < 2 ^ 64 \<Longrightarrow> (of_nat k :: u64) \<noteq> 0"
  by (auto simp: word_of_nat_eq_0_iff dest: nat_dvd_not_less)

lemma inactive_step:
  assumes "mode (state (gate sys)) = BetweenExhibitions" and "probe_behind 1 n sys"
    and "n < 2 ^ 64" and "i \<noteq> ProbeStart"
  shows "mode (state (gate (gate_step sys i))) = BetweenExhibitions \<and>
    probe_behind 1 (Suc n) (gate_step sys i)"
proof (cases "probe sys")
  case None
  then show ?thesis
    using assms by (cases i) (simp_all add: gate_step_def observe_gate probe_behind_def)
next
  case (Some seen)
  then obtain k where k: "1 \<le> k" "k \<le> n" and rv: "revision (state (gate sys)) = seen + of_nat k"
    using assms(2) by (auto simp: probe_behind_def)
  then have stale: "revision (state (gate sys)) \<noteq> seen"
    using of_nat_word_eq_0 [of k] assms(3) by simp
  show ?thesis
  proof (cases i)
    case ProbeStart
    then show ?thesis using assms(4) by simp
  next
    case (ProbeEnd now result)
    then show ?thesis
      using Some stale assms(1) by (simp add: gate_step_def reconcile_def probe_behind_def)
  next
    case (Observed result)
    have "revision (state (fst (observe result (gate sys)))) =
        seen + of_nat (if is_inactive result then Suc k else k)"
      by (simp add: observe_gate rv)
    then show ?thesis
      using Some Observed assms(1) k
      by (auto simp: gate_step_def observe_gate probe_behind_def
          intro!: exI [of _ "if is_inactive result then Suc k else k"])
  qed
qed

lemma inactive_run:
  "mode (state (gate sys)) = BetweenExhibitions \<Longrightarrow> probe_behind 1 n sys \<Longrightarrow>
   n + length post < 2 ^ 64 \<Longrightarrow> ProbeStart \<notin> set post \<Longrightarrow>
   mode (state (gate (foldl gate_step sys post))) = BetweenExhibitions"
proof (induction post arbitrary: sys n)
  case (Cons i post)
  then have "mode (state (gate (gate_step sys i))) = BetweenExhibitions \<and>
      probe_behind 1 (Suc n) (gate_step sys i)"
    by (intro inactive_step) auto
  then show ?case
    using Cons.IH [of "gate_step sys i" "Suc n"] Cons.prems by simp
qed simp

lemma observed_inactive:
  assumes "is_inactive result" and "probe_behind 0 n sys"
  shows "probe_behind 1 (Suc n) (gate_step sys (Observed result))"
  using assms by (force simp: probe_behind_def gate_step_def observe_gate split: option.splits)

text \<open>Where the mode comes from, for a gate that is reconciled.\<close>

definition confirmed_by :: "InstallationState option \<Rightarrow> nat \<Rightarrow> GateInput list \<Rightarrow> bool" where
  "confirmed_by answer now inputs = (ProbeEnd now (Inr answer) \<in> set inputs)"

lemma mode_confirmed:
  "(mode (state (gate (gate_run True now0 inputs))) = Active \<longrightarrow>
      confirmed_by (Some InstallationState.Active)
        (checked (state (gate (gate_run True now0 inputs)))) inputs) \<and>
   (mode (state (gate (gate_run True now0 inputs))) = Legacy \<longrightarrow>
      (\<exists>t. confirmed_by None t inputs))"
proof (induction inputs rule: rev_induct)
  case Nil
  then show ?case by (simp add: gate_run_snoc gate_new_def)
next
  case (snoc i inputs)
  show ?case
  proof (cases i)
    case ProbeStart
    then show ?thesis
      using snoc.IH by (auto simp: gate_run_snoc gate_step_def confirmed_by_def split: option.splits)
  next
    case (ProbeEnd now result)
    show ?thesis
      using snoc.IH
      by (auto simp: ProbeEnd gate_run_snoc gate_step_def confirmed_by_def reconcile_def next_mode_def
          split: option.splits sum.splits InstallationState.splits if_splits)
  next
    case (Observed result)
    then show ?thesis
      using snoc.IH by (auto simp: gate_run_snoc gate_step_def confirmed_by_def observe_gate)
  qed
qed

section \<open>Properties\<close>

text \<open>C35. Once the operator has answered any request with "installation inactive", no calls
  are admitted, at any time, until a probe that was started afterwards says otherwise: a
  slower probe already in flight can not re-open the gate, nor can errors or repeated
  conflicts. (The revision is a wrapping 64-bit counter; fewer than \<open>2^64\<close> steps.)\<close>
theorem inactive_is_sticky:
  assumes "is_inactive result" and "ProbeStart \<notin> set post" and "length pre + length post + 1 < 2 ^ 64"
  shows "\<not> accepting_calls t (gate (gate_run reconciled now0 (pre @ Observed result # post)))"
proof -
  let ?sys = "gate_step (gate_run reconciled now0 pre) (Observed result)"
  have "probe_behind 1 (Suc (length pre)) ?sys"
    by (rule observed_inactive [OF assms(1) probe_behind_start])
  moreover have "mode (state (gate ?sys)) = BetweenExhibitions"
    using assms(1) by (simp add: gate_step_def observe_gate)
  moreover have "gate_run reconciled now0 (pre @ Observed result # post) = foldl gate_step ?sys post"
    by (simp add: gate_run_def)
  ultimately show ?thesis
    using inactive_run [of ?sys "Suc (length pre)" post] assms(2,3)
    by (simp add: accepting_iff)
qed

theorem inactive_is_sticky_witness:
  "\<not> accepting_calls 9 (gate (gate_run True 0
     ([ProbeStart, ProbeEnd 1 (Inr (Some InstallationState.Active)), ProbeStart] @
      Observed (Inl (InstallationInactive ''gap'')) #
      [ProbeEnd 8 (Inr (Some InstallationState.Active))])))"
  by (rule inactive_is_sticky) (simp_all add: is_inactive_def)

text \<open>C36. Calls are admitted only on fresh evidence: when a reconciled gate accepts a call at
  time \<open>t\<close>, a probe was answered "active" less than the 15-second lease before \<open>t\<close>, or one
  was answered by an operator that has no installation state.\<close>
theorem admission_needs_confirmation:
  assumes "accepting_calls t (gate (gate_run True now0 inputs))"
  shows "\<exists>t'. confirmed_by (Some InstallationState.Active) t' inputs \<and> t - t' < ACTIVE_LEASE \<or>
    confirmed_by None t' inputs"
  using assms mode_confirmed [of now0 inputs] by (auto simp: accepting_iff)

theorem admission_needs_confirmation_witness:
  "\<exists>t'. confirmed_by (Some InstallationState.Active) t'
       [ProbeStart, ProbeEnd 1 (Inr (Some InstallationState.Active))] \<and> 9 - t' < ACTIVE_LEASE \<or>
     confirmed_by None t' [ProbeStart, ProbeEnd 1 (Inr (Some InstallationState.Active))]"
  by (rule admission_needs_confirmation [of 9 0])
    (simp add: gate_run_def gate_step_def gate_new_def reconcile_def next_mode_def accepting_iff
      ACTIVE_LEASE_def)

section \<open>Gated calls\<close>

text \<open>
  The contract every gated operation of the client keeps: a call the gate refuses on entry
  never reaches the operator, and an answer "installation inactive" closes the gate.
\<close>

locale gated_call =
  fixes call :: "nat \<Rightarrow> InstallationGate \<Rightarrow> nat \<Rightarrow> InstallationGate \<Rightarrow> ('t, OperatorError) result \<Rightarrow>
    ('t, OperatorError) result \<times> InstallationGate \<times> bool"
  assumes refused: "\<not> accepting_calls t0 g0 \<Longrightarrow>
      (\<exists>err. fst (call t0 g0 t1 g1 answer) = Inl err) \<and> \<not> snd (snd (call t0 g0 t1 g1 answer))"
    and asked: "accepting_calls t0 g0 \<Longrightarrow>
      fst (snd (call t0 g0 t1 g1 answer)) = fst (observe answer g1) \<and>
      snd (snd (call t0 g0 t1 g1 answer))"
begin

text \<open>After an inactive answer the next call is refused without asking the operator.\<close>

lemma no_call_after_inactive:
  assumes "accepting_calls t0 g0" and "is_inactive answer"
  shows "\<not> snd (snd (call t (fst (snd (call t0 g0 t1 g1 answer))) t' g' answer'))"
proof -
  have "\<not> accepting_calls t (fst (snd (call t0 g0 t1 g1 answer)))"
    using asked [OF assms(1)] assms(2) by (simp add: accepting_iff observe_gate)
  then show ?thesis using refused by blast
qed

end

interpretation fetch_call: gated_call gated_fetch
  by unfold_locales
    (auto simp: gated_fetch_def accepting_calls_def Let_def split: sum.splits)

interpretation put_call: gated_call gated_write
  by unfold_locales
    (auto simp: gated_write_def accepting_calls_def split: sum.splits)

text \<open>A prompt fetched while the gate closes is never played: when the operator answers a
  fetch with a value, the caller gets it only if the gate still admits calls at that moment,
  otherwise an error; a request refused on entry never reaches the operator; and an answer
  that closes the gate also makes every token of an earlier fetch stale.\<close>
theorem gated_fetch_safe:
  "case gated_fetch t0 g0 t1 g1 answer of (result, g2, asked) \<Rightarrow>
     asked = accepting_calls t0 g0 \<and>
     (case result of Inl _ \<Rightarrow> True | Inr v \<Rightarrow> answer = Inr v \<and> asked \<and> accepting_calls t1 g2) \<and>
     (if asked \<and> is_inactive answer \<and> mode (state g1) \<noteq> BetweenExhibitions
      then \<not> is_current (fetch_generation g2) (current_token (fetch_generation g1)) else True)"
  by (auto simp: gated_fetch_def accepting_calls_def observe_def is_inactive_def is_current_def
      current_token_def invalidate_def Let_def split: sum.splits)

end
