(* ===== verification/AudioFetch.thy ===== *)
theory AudioFetch
  imports Strings
begin

text \<open>
  Remote prompts: the URL policy of \<open>crates/booth-pi/src/url_policy.rs\<close> and the \<open>RemoteUrl\<close>
  branch of \<open>PiAudioSink::play\<close> in \<open>crates/booth-pi/src/audio.rs\<close> up to the bytes that are
  decoded. Outside the sources, and arguments here: the URL parser (\<open>url\<close>), the resolver, the
  HTTP exchange (\<open>reqwest\<close>) and SHA-256. The \<open>AudioError::Source\<close> values, whose messages only
  add the redacted URL, are kept apart by the constructors of \<open>FetchError\<close>.
\<close>

unbundle bit_operations_syntax

section \<open>Addresses\<close>

datatype Ipv4Addr = Ipv4 u8 u8 u8 u8
datatype Ipv6Addr = Ipv6 u16 u16 u16 u16 u16 u16 u16 u16
datatype IpAddr = V4 Ipv4Addr | V6 Ipv6Addr

text \<open>The tests of the standard library.\<close>

definition v4_is_loopback :: "Ipv4Addr \<Rightarrow> bool" where
  "v4_is_loopback ip = (case ip of Ipv4 a b c d \<Rightarrow> a = 127)"

definition v4_is_private :: "Ipv4Addr \<Rightarrow> bool" where
  "v4_is_private ip = (case ip of Ipv4 a b c d \<Rightarrow>
     a = 10 \<or> a = 172 \<and> 16 \<le> b \<and> b \<le> 31 \<or> a = 192 \<and> b = 168)"

definition v4_is_link_local :: "Ipv4Addr \<Rightarrow> bool" where
  "v4_is_link_local ip = (case ip of Ipv4 a b c d \<Rightarrow> a = 169 \<and> b = 254)"

definition v4_is_broadcast :: "Ipv4Addr \<Rightarrow> bool" where
  "v4_is_broadcast ip = (ip = Ipv4 255 255 255 255)"

definition v4_is_unspecified :: "Ipv4Addr \<Rightarrow> bool" where
  "v4_is_unspecified ip = (ip = Ipv4 0 0 0 0)"

definition v6_is_loopback :: "Ipv6Addr \<Rightarrow> bool" where
  "v6_is_loopback ip = (ip = Ipv6 0 0 0 0 0 0 0 1)"

definition v6_is_unspecified :: "Ipv6Addr \<Rightarrow> bool" where
  "v6_is_unspecified ip = (ip = Ipv6 0 0 0 0 0 0 0 0)"

definition to_ipv4_mapped :: "Ipv6Addr \<Rightarrow> Ipv4Addr option" where
  "to_ipv4_mapped ip = (case ip of Ipv6 s0 s1 s2 s3 s4 s5 s6 s7 \<Rightarrow>
     if s0 = 0 \<and> s1 = 0 \<and> s2 = 0 \<and> s3 = 0 \<and> s4 = 0 \<and> s5 = 0xFFFF
     then Some (Ipv4 (ucast (drop_bit 8 s6)) (ucast s6) (ucast (drop_bit 8 s7)) (ucast s7))
     else None)"

text \<open>The tests of the module.\<close>

definition is_shared_address_space :: "Ipv4Addr \<Rightarrow> bool" where
  "is_shared_address_space ip = (case ip of Ipv4 a b c d \<Rightarrow> a = 100 \<and> b AND 0xC0 = 64)"

definition is_documentation_ipv4 :: "Ipv4Addr \<Rightarrow> bool" where
  "is_documentation_ipv4 ip = (case ip of Ipv4 a b c d \<Rightarrow>
     a = 192 \<and> b = 0 \<and> c = 2 \<or> a = 198 \<and> b = 51 \<and> c = 100 \<or> a = 203 \<and> b = 0 \<and> c = 113)"

definition is_metadata_service :: "Ipv4Addr \<Rightarrow> bool" where
  "is_metadata_service ip = (ip = Ipv4 169 254 169 254)"

definition is_private_ipv4 :: "Ipv4Addr \<Rightarrow> bool" where
  "is_private_ipv4 ip =
     (v4_is_loopback ip \<or> v4_is_private ip \<or> v4_is_link_local ip \<or> v4_is_broadcast ip \<or>
      v4_is_unspecified ip \<or> is_shared_address_space ip \<or> is_documentation_ipv4 ip \<or>
      is_metadata_service ip)"

definition is_unique_local_ipv6 :: "Ipv6Addr \<Rightarrow> bool" where
  "is_unique_local_ipv6 ip = (case ip of Ipv6 s0 s1 s2 s3 s4 s5 s6 s7 \<Rightarrow> s0 AND 0xFE00 = 0xFC00)"

definition is_link_local_ipv6 :: "Ipv6Addr \<Rightarrow> bool" where
  "is_link_local_ipv6 ip = (case ip of Ipv6 s0 s1 s2 s3 s4 s5 s6 s7 \<Rightarrow> s0 AND 0xFFC0 = 0xFE80)"

definition is_private_ipv6 :: "Ipv6Addr \<Rightarrow> bool" where
  "is_private_ipv6 ip =
     (v6_is_loopback ip \<or> v6_is_unspecified ip \<or> is_unique_local_ipv6 ip \<or> is_link_local_ipv6 ip \<or>
      (case to_ipv4_mapped ip of Some v4 \<Rightarrow> is_private_ipv4 v4 | None \<Rightarrow> False))"

definition is_private_or_reserved :: "IpAddr \<Rightarrow> bool" where
  "is_private_or_reserved addr =
     (case addr of V4 ip \<Rightarrow> is_private_ipv4 ip | V6 ip \<Rightarrow> is_private_ipv6 ip)"

section \<open>The policy\<close>

datatype Host = Domain string | HostV4 Ipv4Addr | HostV6 Ipv6Addr

text \<open>What the code asks of a parsed URL.\<close>

record Url =
  scheme :: string
  host_str :: "string option"
  host :: "Host option"

datatype UrlPolicyError =
    InvalidUrl string
  | DisallowedScheme string string      \<comment> \<open>scheme, allowed\<close>
  | HostNotAllowed string
  | PrivateAddress IpAddr
  | MissingHost

record AudioFetchPolicy =
  allow_http :: bool
  allowed_hosts :: "string list"
  allow_private_hosts :: bool

definition policy_default :: AudioFetchPolicy where
  "policy_default = \<lparr>allow_http = False, allowed_hosts = [], allow_private_hosts = False\<rparr>"

definition literal_ip :: "Url \<Rightarrow> IpAddr option" where
  "literal_ip u = (case host u of
     Some (HostV4 v4) \<Rightarrow> Some (V4 v4)
   | Some (HostV6 v6) \<Rightarrow> Some (V6 v6)
   | _ \<Rightarrow> None)"

definition validate ::
    "(string \<Rightarrow> string + Url) \<Rightarrow> AudioFetchPolicy \<Rightarrow> string \<Rightarrow> UrlPolicyError + Url" where
  "validate parse policy raw_url = (case parse raw_url of
     Inl e \<Rightarrow> Inl (InvalidUrl e)
   | Inr parsed \<Rightarrow>
       if \<not> (scheme parsed = ''https'' \<or> allow_http policy \<and> scheme parsed = ''http'') then
         Inl (DisallowedScheme (scheme parsed)
           (if allow_http policy then ''https, http'' else ''https''))
       else (case host_str parsed of
         None \<Rightarrow> Inl MissingHost
       | Some h \<Rightarrow>
           if allowed_hosts policy \<noteq> [] \<and>
              \<not> list_ex (\<lambda>a. to_ascii_lowercase a = to_ascii_lowercase h) (allowed_hosts policy)
           then Inl (HostNotAllowed h)
           else (case (if allow_private_hosts policy then None else literal_ip parsed) of
             Some addr \<Rightarrow>
               (if is_private_or_reserved addr then Inl (PrivateAddress addr) else Inr parsed)
           | None \<Rightarrow> Inr parsed)))"

definition check_resolved_ip :: "AudioFetchPolicy \<Rightarrow> IpAddr \<Rightarrow> UrlPolicyError + unit" where
  "check_resolved_ip policy addr =
     (if \<not> allow_private_hosts policy \<and> is_private_or_reserved addr
      then Inl (PrivateAddress addr) else Inr ())"

definition resolved_ok :: "AudioFetchPolicy \<Rightarrow> IpAddr \<Rightarrow> bool" where
  "resolved_ok policy addr = (case check_resolved_ip policy addr of Inl _ \<Rightarrow> False | Inr _ \<Rightarrow> True)"

section \<open>Fetching\<close>

datatype FetchError =
    PolicyRejected UrlPolicyError
  | DnsRejected UrlPolicyError
  | RequestFailed
  | RedirectBlocked nat
  | ErrorStatus nat
  | DeclaredTooLong u64
  | ReadFailed
  | BodyTooLong
  | HashMismatch

text \<open>The HTTP exchange: the status, the declared length and the body's chunks as they arrive.\<close>

record Response =
  http_status :: nat
  content_length :: "u64 option"
  chunks :: "(unit + u8 list) list"     \<comment> \<open>\<open>Inl\<close>: a transport error\<close>

fun read_chunks :: "nat \<Rightarrow> u8 list \<Rightarrow> (unit + u8 list) list \<Rightarrow> FetchError + u8 list" where
  "read_chunks limit body [] = Inr body"
| "read_chunks limit body (Inl _ # _) = Inl ReadFailed"
| "read_chunks limit body (Inr chunk # rest) =
     (if limit < length body + length chunk then Inl BodyTooLong
      else read_chunks limit (body @ chunk) rest)"

definition read_body_with_limit :: "u64 \<Rightarrow> Response \<Rightarrow> FetchError + u8 list" where
  "read_body_with_limit max_bytes resp =
     (case content_length resp of
        Some n \<Rightarrow> (if max_bytes < n then Inl (DeclaredTooLong n)
                  else read_chunks (unat max_bytes) [] (chunks resp))
      | None \<Rightarrow> read_chunks (unat max_bytes) [] (chunks resp))"

definition verify_sha256 :: "(u8 list \<Rightarrow> string) \<Rightarrow> u8 list \<Rightarrow> string \<Rightarrow> FetchError + unit" where
  "verify_sha256 hex_sha256 bytes expected_hex =
     (if hex_sha256 bytes \<noteq> to_ascii_lowercase expected_hex then Inl HashMismatch else Inr ())"

text \<open>
  The branch: \<open>lookup\<close> is what the resolver says of the host (\<open>None\<close>: it failed, which the
  code ignores), \<open>exchange\<close> the outcome of the request.
\<close>

definition fetch_remote ::
    "(string \<Rightarrow> string + Url) \<Rightarrow> (u8 list \<Rightarrow> string) \<Rightarrow> AudioFetchPolicy \<Rightarrow> u64 \<Rightarrow>
     string \<Rightarrow> string option \<Rightarrow> IpAddr list option \<Rightarrow> Response option \<Rightarrow> FetchError + u8 list" where
  "fetch_remote parse hex_sha256 policy max_body url expected lookup exchange =
     (case validate parse policy url of
        Inl e \<Rightarrow> Inl (PolicyRejected e)
      | Inr parsed \<Rightarrow>
        (case (if host_str parsed = None then None
               else case lookup of
                 None \<Rightarrow> None
               | Some addrs \<Rightarrow> List.find (\<lambda>a. \<not> resolved_ok policy a) addrs) of
           Some bad \<Rightarrow> Inl (DnsRejected (PrivateAddress bad))
         | None \<Rightarrow>
           (case exchange of
              None \<Rightarrow> Inl RequestFailed
            | Some resp \<Rightarrow>
                if 300 \<le> http_status resp \<and> http_status resp < 400
                then Inl (RedirectBlocked (http_status resp))
                else if 400 \<le> http_status resp \<and> http_status resp < 600
                then Inl (ErrorStatus (http_status resp))
                else (case read_body_with_limit max_body resp of
                  Inl e \<Rightarrow> Inl e
                | Inr bytes \<Rightarrow>
                    (case expected of
                       None \<Rightarrow> Inr bytes
                     | Some hash \<Rightarrow>
                         (case verify_sha256 hex_sha256 bytes hash of
                            Inl e \<Rightarrow> Inl e | Inr _ \<Rightarrow> Inr bytes))))))"

section \<open>What a successful fetch has passed\<close>

lemma read_chunks_Inr:
  "read_chunks limit body cs = Inr bytes \<Longrightarrow>
   list_all (\<lambda>c. \<not> isl c) cs \<and> bytes = body @ concat (map projr cs) \<and>
   (length body \<le> limit \<longrightarrow> length bytes \<le> limit)"
  by (induction limit body cs rule: read_chunks.induct) (auto split: if_splits)

lemma read_body_Inr:
  "read_body_with_limit m resp = Inr bytes \<Longrightarrow>
   list_all (\<lambda>c. \<not> isl c) (chunks resp) \<and> bytes = concat (map projr (chunks resp)) \<and> length bytes \<le> unat m"
  by (auto simp: read_body_with_limit_def dest!: read_chunks_Inr split: option.splits if_splits)

lemma resolved_ok_iff:
  "resolved_ok policy addr \<longleftrightarrow> allow_private_hosts policy \<or> \<not> is_private_or_reserved addr"
  by (simp add: resolved_ok_def check_resolved_ip_def)

text \<open>The conditions of the policy on a parsed URL, as the configuration documents them.\<close>

definition policy_allows :: "AudioFetchPolicy \<Rightarrow> Url \<Rightarrow> bool" where
  "policy_allows policy parsed =
     ((scheme parsed = ''https'' \<or> allow_http policy \<and> scheme parsed = ''http'') \<and>
      (case host_str parsed of
         None \<Rightarrow> False
       | Some h \<Rightarrow> allowed_hosts policy = [] \<or>
           to_ascii_lowercase h \<in> set (map to_ascii_lowercase (allowed_hosts policy))) \<and>
      (case literal_ip parsed of None \<Rightarrow> True | Some a \<Rightarrow> resolved_ok policy a))"

lemma validate_Inr_iff:
  "validate parse policy url = Inr parsed \<longleftrightarrow> parse url = Inr parsed \<and> policy_allows policy parsed"
proof (cases "parse url")
  case (Inr u)
  have "list_ex (\<lambda>a. to_ascii_lowercase a = to_ascii_lowercase h) hs \<longleftrightarrow>
      to_ascii_lowercase h \<in> set (map to_ascii_lowercase hs)" for h hs
    by (simp add: list_ex_iff image_iff eq_commute)
  then show ?thesis
    using Inr
    by (auto simp: validate_def policy_allows_def resolved_ok_iff
        split: option.splits if_splits)
qed (simp add: validate_def)

section \<open>Properties\<close>

text \<open>C38. No byte of a remote prompt is decoded unless its URL passed the policy (TLS or
  explicitly allowed HTTP, allow-listed host, no private literal address), no address the
  resolver named was private, the answer was neither a redirect nor an error, the body
  arrived whole within the size limit, and its SHA-256 is the one the operator announced, if
  it announced one.\<close>
theorem fetched_audio_is_admissible:
  assumes "fetch_remote parse hex_sha256 policy max_body url expected lookup exchange = Inr bytes"
  shows "\<exists>parsed resp. parse url = Inr parsed \<and> policy_allows policy parsed \<and>
    (case lookup of None \<Rightarrow> True | Some addrs \<Rightarrow> list_all (resolved_ok policy) addrs) \<and>
    exchange = Some resp \<and> (http_status resp < 300 \<or> 600 \<le> http_status resp) \<and>
    list_all (\<lambda>c. \<not> isl c) (chunks resp) \<and> bytes = concat (map projr (chunks resp)) \<and>
    length bytes \<le> unat max_body \<and>
    (case expected of None \<Rightarrow> True | Some hash \<Rightarrow> hex_sha256 bytes = to_ascii_lowercase hash)"
proof -
  obtain parsed where v: "validate parse policy url = Inr parsed"
    using assms by (auto simp: fetch_remote_def split: sum.splits)
  then have parsed: "parse url = Inr parsed" "policy_allows policy parsed"
    by (simp_all add: validate_Inr_iff)
  then have "host_str parsed \<noteq> None"
    by (auto simp: policy_allows_def split: option.splits)
  moreover have "list_all (resolved_ok policy) addrs"
    if "List.find (\<lambda>a. \<not> resolved_ok policy a) addrs = None" for addrs
    using that by (auto simp: find_None_iff list_all_iff)
  ultimately show ?thesis
    using assms v parsed
    by (auto simp: fetch_remote_def verify_sha256_def dest!: read_body_Inr
        split: option.splits if_splits sum.splits)
qed

definition sample_url :: Url where
  "sample_url = \<lparr>scheme = ''https'', host_str = Some ''H'', host = Some (Domain ''H'')\<rparr>"

definition sample_policy :: AudioFetchPolicy where
  "sample_policy = policy_default\<lparr>allowed_hosts := [''h'']\<rparr>"

theorem fetched_audio_is_admissible_witness:
  "fetch_remote (\<lambda>_. Inr sample_url) (\<lambda>_. ''ab'') sample_policy 2 ''https://H''
     (Some ''AB'') (Some [V4 (Ipv4 8 8 8 8)])
     (Some \<lparr>http_status = 200, content_length = None, chunks = [Inr [1], Inr [2]]\<rparr>) = Inr [1, 2] \<and>
   policy_allows sample_policy sample_url"
proof -
  have run: "fetch_remote (\<lambda>_. Inr sample_url) (\<lambda>_. ''ab'') sample_policy 2 ''https://H''
     (Some ''AB'') (Some [V4 (Ipv4 8 8 8 8)])
     (Some \<lparr>http_status = 200, content_length = None, chunks = [Inr [1], Inr [2]]\<rparr>) = Inr [1, 2]"
    by code_simp
  with fetched_audio_is_admissible [OF run] show ?thesis by auto
qed

end
