(* ===== verification/OperatorCalls.thy ===== *)
theory OperatorCalls
  imports Hal Core
begin

text \<open>
  What the runtime does against the operator (\<open>crates/booth-bin/src/lib.rs\<close>): the bounded
  retry loop \<open>retry_operator\<close>, the upload of a recording and the three fetches. The operator's
  answers are outside: an exchange is one HTTP request's answer with the request's number
  and duration, and the answers to the attempts of one operation are a function of the attempt.
  What a function does in order (requests, published telemetry, sleeps, events sent) is the list
  of \<open>Action\<close>s it returns.
\<close>

section \<open>Requests and actions\<close>

datatype Request =
    RandomQuestion string                                \<comment> \<open>draw id\<close>
  | RandomMessage
  | RandomInstruction
  | InitUpload "QuestionId option" UploadMetadata
  | PutUpload UploadSlot string RecordingId              \<comment> \<open>slot, path\<close>
  | CompleteUpload string RecordingId u64                \<comment> \<open>slot id, duration\<close>
  | PutStatusRequest BoothStatus

datatype Action =
    Publish TelemetryEvent
  | Ask Request
  | Sleep nat                        \<comment> \<open>milliseconds\<close>
  | CleanupRecording RecordingId
  | SendEvent Event
  | DequeueSpool RecordingId

record 't exchange =
  seq :: u64                         \<comment> \<open>what \<open>OPERATOR_REQUEST_SEQ.fetch_add\<close> returned\<close>
  answer :: "('t, OperatorError) result"
  took_ms :: u64

section \<open>The retry loop\<close>

definition OPERATOR_ATTEMPTS :: u32 where "OPERATOR_ATTEMPTS = 3"
definition OPERATOR_BACKOFF_BASE :: nat where "OPERATOR_BACKOFF_BASE = 100"   \<comment> \<open>milliseconds\<close>

definition operator_status :: "('t, OperatorError) result \<Rightarrow> u16" where
  "operator_status result = (case result of
     Inr _ \<Rightarrow> 200
   | Inl err \<Rightarrow> (case err of
       Auth _ \<Rightarrow> 401 | Unauthorized _ \<Rightarrow> 401
     | DuplicateRecording _ \<Rightarrow> 409 | Conflict _ \<Rightarrow> 409 | InstallationInactive _ \<Rightarrow> 409
     | InvalidArgument _ \<Rightarrow> 422 | Unprocessable _ \<Rightarrow> 422
     | PayloadTooLarge _ _ \<Rightarrow> 413
     | Protocol _ \<Rightarrow> 502
     | Transport _ \<Rightarrow> 503 | OperatorError.Unsupported _ \<Rightarrow> 503
     | Server code _ \<Rightarrow> code))"

definition is_retryable_operator_error :: "OperatorError \<Rightarrow> bool" where
  "is_retryable_operator_error err = (case err of
     Transport _ \<Rightarrow> True | Server code _ \<Rightarrow> 500 \<le> code | _ \<Rightarrow> False)"

text \<open>\<open>checked_shl\<close> on \<open>u32\<close> is \<open>None\<close> from a shift of 32 on.\<close>

definition operator_backoff :: "u32 \<Rightarrow> nat" where
  "operator_backoff attempt =
     (let shift = unat attempt - 1;
          multiplier = (if shift < 32 then 2 ^ shift else 2 ^ 32 - 1)
      in OPERATOR_BACKOFF_BASE * multiplier)"

definition publish_operator_error :: "string \<Rightarrow> OperatorError \<Rightarrow> Action list" where
  "publish_operator_error src err = (case err of
     InstallationInactive _ \<Rightarrow> []
   | _ \<Rightarrow> [Publish (TelemetryEvent.Error src (operator_error_str err))])"

text \<open>What one attempt does before its result is looked at.\<close>

definition attempt_actions :: "string \<Rightarrow> Request \<Rightarrow> 't exchange \<Rightarrow> Action list" where
  "attempt_actions route req x =
     (let request_id = ''runtime-'' @ show_word (seq x + 1) in
      [Publish (OperatorRequest request_id route), Ask req,
       Publish (OperatorResponse request_id (operator_status (answer x)) (took_ms x))])"

text \<open>\<open>left\<close>: the attempts that remain of \<open>1..=OPERATOR_ATTEMPTS\<close>.\<close>

fun retry_from ::
    "nat \<Rightarrow> u32 \<Rightarrow> string \<Rightarrow> Request \<Rightarrow> (u32 \<Rightarrow> 't exchange) \<Rightarrow>
     ('t, OperatorError) result \<times> Action list" where
  "retry_from 0 attempt route req calls =
     (Inl (Transport ''operator retry loop exhausted''), [])"
| "retry_from (Suc left) attempt route req calls =
     (let done = attempt_actions route req (calls attempt) in
      case answer (calls attempt) of
        Inr v \<Rightarrow> (Inr v, done)
      | Inl err \<Rightarrow>
          (if attempt = OPERATOR_ATTEMPTS \<or> \<not> is_retryable_operator_error err
           then (Inl err, done)
           else
             (let (result, rest) = retry_from left (attempt + 1) route req calls
              in (result,
                  done @ publish_operator_error route err @ [Sleep (operator_backoff attempt)] @ rest))))"

definition retry_operator ::
    "string \<Rightarrow> Request \<Rightarrow> (u32 \<Rightarrow> 't exchange) \<Rightarrow> ('t, OperatorError) result \<times> Action list" where
  "retry_operator route req calls = retry_from (unat OPERATOR_ATTEMPTS) 1 route req calls"

section \<open>Uploads\<close>

definition MAX_UPLOAD_BYTES :: u64 where "MAX_UPLOAD_BYTES = 26214400"
definition MAX_UPLOAD_DURATION_MS :: u64 where "MAX_UPLOAD_DURATION_MS = 300000"

definition validate_upload_caps :: "u64 \<Rightarrow> u64 option \<Rightarrow> (unit, OperatorError) result" where
  "validate_upload_caps bytes recording_duration_ms = (case recording_duration_ms of
     None \<Rightarrow> Inl (InvalidArgument ''recording duration is required before upload'')
   | Some ms \<Rightarrow>
       (if ms = 0 then Inl (InvalidArgument ''recording duration must be greater than 0'')
        else if MAX_UPLOAD_DURATION_MS < ms then
          Inl (InvalidArgument (''recording duration '' @ show_word ms @
            ''ms exceeds operator cap of '' @ show_word MAX_UPLOAD_DURATION_MS @ ''ms''))
        else if MAX_UPLOAD_BYTES < bytes then
          Inl (PayloadTooLarge (Some MAX_UPLOAD_BYTES) (''recording size '' @ show_word bytes @
            '' bytes exceeds operator cap of '' @ show_word MAX_UPLOAD_BYTES @ '' bytes''))
        else Inr ()))"

definition send_upload_outcome :: "bool \<Rightarrow> RecordingId \<Rightarrow> UploadOutcome \<Rightarrow> Action list" where
  "send_upload_outcome has_event_tx rid outcome =
     (if has_event_tx then [SendEvent (UploadFinished rid outcome)] else [])"

record UploadAnswers =
  init_answers :: "u32 \<Rightarrow> UploadSlot exchange"
  put_answers :: "u32 \<Rightarrow> unit exchange"
  complete_answers :: "u32 \<Rightarrow> unit exchange"

text \<open>The inner \<open>async\<close> block; each \<open>?\<close> is an early return.\<close>

definition upload_exchange ::
    "UploadAnswers \<Rightarrow> string \<Rightarrow> RecordingId \<Rightarrow> QuestionId option \<Rightarrow> u64 \<Rightarrow> u64 option \<Rightarrow>
     (unit, OperatorError) result \<times> Action list" where
  "upload_exchange world path rid qid bytes recording_duration_ms =
     (case validate_upload_caps bytes recording_duration_ms of
        Inl err \<Rightarrow> (Inl err, [])
      | Inr _ \<Rightarrow>
          (let metadata = \<lparr>sha256_hex = rid, size_bytes = bytes, duration_ms = recording_duration_ms\<rparr>;
               (slot_result, acts1) =
                 retry_operator ''POST /v1/messages'' (InitUpload qid metadata) (init_answers world)
           in case slot_result of
                Inl (DuplicateRecording _) \<Rightarrow> (Inr (), acts1)
              | Inl err \<Rightarrow> (Inl err, acts1)
              | Inr slot \<Rightarrow>
                  (let (put_result, acts2) =
                     retry_operator ''PUT <presigned-upload-url>'' (PutUpload slot path rid)
                       (put_answers world)
                   in case put_result of
                        Inl err \<Rightarrow> (Inl err, acts1 @ acts2)
                      | Inr _ \<Rightarrow>
                          (let (result, acts3) =
                             retry_operator ''POST /v1/messages/{id}/complete''
                               (CompleteUpload (slot_id slot) rid
                                 (case recording_duration_ms of Some ms \<Rightarrow> ms | None \<Rightarrow> 0))
                               (complete_answers world)
                           in (result, acts1 @ acts2 @ acts3)))))"

record UploadCall =
  path :: string
  has_event_tx :: bool
  upload_id :: RecordingId
  upload_question :: "QuestionId option"
  session :: "string option"
  upload_bytes :: u64
  recording_ms :: "u64 option"
  elapsed :: u64                   \<comment> \<open>\<open>elapsed_ms(started)\<close> when the exchange is over\<close>
  clock :: u64                     \<comment> \<open>\<open>monotonic_ns()\<close> then\<close>
  has_source :: bool

definition upload_recording :: "UploadAnswers \<Rightarrow> UploadCall \<Rightarrow> bool \<times> Action list" where
  "upload_recording world c =
     (let (result, acts) =
        upload_exchange world (path c) (upload_id c) (upload_question c) (upload_bytes c) (recording_ms c)
      in case result of
           Inr _ \<Rightarrow>
             (True, acts @
               (case session c of
                  Some sid \<Rightarrow> [Publish (UploadCompleted (upload_id c) sid (elapsed c) (upload_bytes c) (clock c))]
                | None \<Rightarrow> []) @
               (if has_source c then [CleanupRecording (upload_id c)] else []) @
               send_upload_outcome (has_event_tx c) (upload_id c) Complete)
         | Inl (InstallationInactive _) \<Rightarrow>
             (False, acts @ send_upload_outcome (has_event_tx c) (upload_id c) Deferred)
         | Inl err \<Rightarrow>
             (False, acts @ publish_operator_error ''upload_recording'' err @
               (case session c of
                  Some sid \<Rightarrow> [Publish (TelemetryEvent.UploadFailed (upload_id c) sid (operator_error_str err) (clock c))]
                | None \<Rightarrow> []) @
               send_upload_outcome (has_event_tx c) (upload_id c) (Failed (operator_error_str err))))"

section \<open>Fetches\<close>

definition is_sha256_hex :: "string \<Rightarrow> bool" where
  "is_sha256_hex value \<longleftrightarrow> length value = 64 \<and>
     list_all (\<lambda>b. let n = of_char b :: nat in 48 \<le> n \<and> n \<le> 57 \<or> 97 \<le> n \<and> n \<le> 102) value"

text \<open>\<open>Path::join\<close> with a relative file name.\<close>

definition path_join :: "string \<Rightarrow> string \<Rightarrow> string" where
  "path_join d n = (if d = [] \<or> last d = CHR ''/'' then d @ n else d @ ''/'' @ n)"

definition operator_audio_ref :: "(string \<Rightarrow> bool) \<Rightarrow> string \<Rightarrow> string option \<Rightarrow> string \<Rightarrow> AudioRef" where
  "operator_audio_ref is_file audio_url audio_sha256 recordings_dir =
     (let remote = RemoteUrl audio_url
            (case audio_sha256 of Some s \<Rightarrow> if is_sha256_hex s then Some s else None | None \<Rightarrow> None)
      in case audio_sha256 of
           Some sha256 \<Rightarrow>
             (if is_sha256_hex sha256 then
                (let local_path = path_join recordings_dir (sha256 @ ''.flac'')
                 in if is_file local_path then LocalFile local_path else remote)
              else remote)
         | None \<Rightarrow> remote)"

definition resolve_audio_ref :: "AudioRef \<Rightarrow> AudioRef option \<Rightarrow> AudioRef \<times> AudioRef option" where
  "resolve_audio_ref src slot = (case src of
     RemoteUrl url _ \<Rightarrow>
       (if url = [] then (case slot of Some clip \<Rightarrow> (clip, None) | None \<Rightarrow> (src, None))
        else (src, slot))
   | _ \<Rightarrow> (src, slot))"

text \<open>
  A fetch that has its answer: \<open>current\<close> is what \<open>token.is_current()\<close> says when it is asked.
  The result is the clip to store in \<open>next_remote_audio\<close>, if any, and the actions after.
\<close>

definition fetch_error :: "string \<Rightarrow> bool \<Rightarrow> (string \<Rightarrow> Event) \<Rightarrow> OperatorError \<Rightarrow> Action list" where
  "fetch_error src current failed err = (case err of
     InstallationInactive _ \<Rightarrow> []
   | _ \<Rightarrow> publish_operator_error src err @
          (if current then [SendEvent (failed (operator_error_str err))] else []))"

record FetchWorld =
  is_file :: "string \<Rightarrow> bool"
  recordings_dir :: string

definition settle_random_question ::
    "FetchWorld \<Rightarrow> bool \<Rightarrow> (OperatorQuestion, OperatorError) result \<Rightarrow> AudioRef option \<times> Action list" where
  "settle_random_question w current result = (case result of
     Inr question \<Rightarrow>
       (if \<not> current then (None, [])
        else (Some (operator_audio_ref (is_file w) (question_audio_url question)
                (question_audio_sha256 question) (recordings_dir w)),
              [SendEvent (QuestionReady (question_id question))]))
   | Inl err \<Rightarrow> (None, fetch_error ''random_question'' current QuestionFailed err))"

definition settle_random_message ::
    "FetchWorld \<Rightarrow> bool \<Rightarrow> (OperatorMessage, OperatorError) result \<Rightarrow> AudioRef option \<times> Action list" where
  "settle_random_message w current result = (case result of
     Inr message \<Rightarrow>
       (if \<not> current then (None, [])
        else (Some (operator_audio_ref (is_file w) (message_audio_url message)
                (message_audio_sha256 message) (recordings_dir w)),
              [SendEvent MessageReady]))
   | Inl err \<Rightarrow> (None, fetch_error ''random_message'' current MessageFailed err))"

definition settle_instructions ::
    "FetchWorld \<Rightarrow> bool \<Rightarrow> (OperatorMessage, OperatorError) result \<Rightarrow> AudioRef option \<times> Action list" where
  "settle_instructions w current result = (case result of
     Inr instructions \<Rightarrow>
       (if \<not> current then (None, [])
        else (Some (operator_audio_ref (is_file w) (message_audio_url instructions)
                (message_audio_sha256 instructions) (recordings_dir w)),
              [SendEvent InstructionsReady]))
   | Inl err \<Rightarrow> (None, fetch_error ''random_instruction'' current InstructionsFailed err))"

definition request_random_question ::
    "string \<Rightarrow> (u32 \<Rightarrow> OperatorQuestion exchange) \<Rightarrow> (OperatorQuestion, OperatorError) result \<times> Action list" where
  "request_random_question draw_id calls =
     retry_operator ''GET /v1/questions/random'' (RandomQuestion draw_id) calls"

definition fetch_random_question ::
    "FetchWorld \<Rightarrow> string \<Rightarrow> (u32 \<Rightarrow> OperatorQuestion exchange) \<Rightarrow> bool \<Rightarrow> AudioRef option \<times> Action list" where
  "fetch_random_question w draw_id calls current =
     (let (result, acts) = request_random_question draw_id calls;
          (clip, rest) = settle_random_question w current result
      in (clip, acts @ rest))"

definition fetch_random_message ::
    "FetchWorld \<Rightarrow> (u32 \<Rightarrow> OperatorMessage exchange) \<Rightarrow> bool \<Rightarrow> AudioRef option \<times> Action list" where
  "fetch_random_message w calls current =
     (let (result, acts) = retry_operator ''GET /v1/messages/random'' RandomMessage calls;
          (clip, rest) = settle_random_message w current result
      in (clip, acts @ rest))"

definition fetch_instructions ::
    "FetchWorld \<Rightarrow> (u32 \<Rightarrow> OperatorMessage exchange) \<Rightarrow> bool \<Rightarrow> AudioRef option \<times> Action list" where
  "fetch_instructions w calls current =
     (let (result, acts) = retry_operator ''GET /v1/instructions/random'' RandomInstruction calls;
          (clip, rest) = settle_instructions w current result
      in (clip, acts @ rest))"

section \<open>Views of an action list\<close>

definition sent :: "Action list \<Rightarrow> Event list" where
  "sent acts = List.map_filter (\<lambda>a. case a of SendEvent e \<Rightarrow> Some e | _ \<Rightarrow> None) acts"

definition asked :: "Action list \<Rightarrow> Request list" where
  "asked acts = List.map_filter (\<lambda>a. case a of Ask r \<Rightarrow> Some r | _ \<Rightarrow> None) acts"

definition slept :: "Action list \<Rightarrow> nat" where
  "slept acts = sum_list (List.map_filter (\<lambda>a. case a of Sleep n \<Rightarrow> Some n | _ \<Rightarrow> None) acts)"

definition cleaned :: "Action list \<Rightarrow> RecordingId list" where
  "cleaned acts = List.map_filter (\<lambda>a. case a of CleanupRecording r \<Rightarrow> Some r | _ \<Rightarrow> None) acts"

definition dequeued :: "Action list \<Rightarrow> RecordingId list" where
  "dequeued acts = List.map_filter (\<lambda>a. case a of DequeueSpool r \<Rightarrow> Some r | _ \<Rightarrow> None) acts"

lemmas view_action_defs = sent_def asked_def slept_def cleaned_def dequeued_def

lemma view_append [simp]:
  "sent (xs @ ys) = sent xs @ sent ys"
  "asked (xs @ ys) = asked xs @ asked ys"
  "slept (xs @ ys) = slept xs + slept ys"
  "cleaned (xs @ ys) = cleaned xs @ cleaned ys"
  "dequeued (xs @ ys) = dequeued xs @ dequeued ys"
  by (simp_all add: view_action_defs List.map_filter_def)

lemma view_Nil [simp]: "sent [] = []" "asked [] = []" "slept [] = 0" "cleaned [] = []" "dequeued [] = []"
  by (simp_all add: view_action_defs List.map_filter_simps)

lemma view_Cons [simp]:
  "sent (a # xs) = (case a of SendEvent e \<Rightarrow> [e] | _ \<Rightarrow> []) @ sent xs"
  "asked (a # xs) = (case a of Ask r \<Rightarrow> [r] | _ \<Rightarrow> []) @ asked xs"
  "slept (a # xs) = (case a of Sleep n \<Rightarrow> n | _ \<Rightarrow> 0) + slept xs"
  "cleaned (a # xs) = (case a of CleanupRecording r \<Rightarrow> [r] | _ \<Rightarrow> []) @ cleaned xs"
  "dequeued (a # xs) = (case a of DequeueSpool r \<Rightarrow> [r] | _ \<Rightarrow> []) @ dequeued xs"
  by (simp_all add: view_action_defs List.map_filter_simps split: Action.split)

lemma attempt_views [simp]:
  "sent (attempt_actions route req x) = []"
  "asked (attempt_actions route req x) = [req]"
  "slept (attempt_actions route req x) = 0"
  "cleaned (attempt_actions route req x) = []"
  "dequeued (attempt_actions route req x) = []"
  by (simp_all add: attempt_actions_def Let_def)

lemma publish_error_views [simp]:
  "sent (publish_operator_error src err) = []"
  "asked (publish_operator_error src err) = []"
  "slept (publish_operator_error src err) = 0"
  "cleaned (publish_operator_error src err) = []"
  "dequeued (publish_operator_error src err) = []"
  by (cases err; simp add: publish_operator_error_def)+

section \<open>The retry loop\<close>

definition retryable :: "('t, OperatorError) result \<Rightarrow> bool" where
  "retryable result = (case result of Inl err \<Rightarrow> is_retryable_operator_error err | Inr _ \<Rightarrow> False)"

text \<open>The loop unrolled: three attempts, the last one unconditional.\<close>

lemma attempts_simps:
  "retry_operator route req calls = retry_from (Suc (Suc (Suc 0))) 1 route req calls"
  "1 \<noteq> OPERATOR_ATTEMPTS" "2 \<noteq> OPERATOR_ATTEMPTS" "3 = OPERATOR_ATTEMPTS"
  by (simp_all add: retry_operator_def OPERATOR_ATTEMPTS_def numeral_3_eq_3 [symmetric])

lemma retry_operator_unrolled:
  "retry_operator route req calls =
     (if \<not> retryable (answer (calls 1)) then
        (answer (calls 1), attempt_actions route req (calls 1))
      else
        let a1 = attempt_actions route req (calls 1) @
              publish_operator_error route (projl (answer (calls 1))) @ [Sleep 100]
        in if \<not> retryable (answer (calls 2)) then
             (answer (calls 2), a1 @ attempt_actions route req (calls 2))
           else (answer (calls 3), a1 @ attempt_actions route req (calls 2) @
             publish_operator_error route (projl (answer (calls 2))) @ [Sleep 200] @
             attempt_actions route req (calls 3)))"
  by (auto simp: attempts_simps retryable_def
      operator_backoff_def OPERATOR_BACKOFF_BASE_def Let_def split: sum.splits)

lemma retry_views [simp]:
  "sent (snd (retry_operator route req calls)) = []"
  "cleaned (snd (retry_operator route req calls)) = []"
  "dequeued (snd (retry_operator route req calls)) = []"
  by (simp_all add: retry_operator_unrolled Let_def)

text \<open>How often an operation is attempted.\<close>

definition attempts :: "(u32 \<Rightarrow> 't exchange) \<Rightarrow> nat" where
  "attempts calls =
     (if \<not> retryable (answer (calls 1)) then 1 else if \<not> retryable (answer (calls 2)) then 2 else 3)"

lemma attempts_le: "attempts calls \<le> 3"
  by (simp add: attempts_def)

lemma attempts_pos: "0 < attempts calls" "attempts calls \<noteq> 0"
  by (simp_all add: attempts_def)

lemma retry_asked: "asked (snd (retry_operator route req calls)) = replicate (attempts calls) req"
  by (simp add: retry_operator_unrolled attempts_def Let_def numeral_2_eq_2 numeral_3_eq_3)

text \<open>The retry loop asks between one and three times and returns the last answer: every
  earlier answer was a transport or server error, the last is final or the third, and the
  pauses double from 100 milliseconds.\<close>
theorem retry_operator_outcome:
  "\<exists>k. 1 \<le> k \<and> k \<le> 3 \<and>
     fst (retry_operator route req calls) = answer (calls (of_nat k)) \<and>
     list_all (\<lambda>j. retryable (answer (calls (of_nat j)))) [1..<k] \<and>
     (k = 3 \<or> \<not> retryable (answer (calls (of_nat k)))) \<and>
     asked (snd (retry_operator route req calls)) = replicate k req \<and>
     slept (snd (retry_operator route req calls)) = 100 * (2 ^ (k - 1) - 1)"
proof -
  consider (one) "\<not> retryable (answer (calls 1))"
    | (two) "retryable (answer (calls 1))" "\<not> retryable (answer (calls 2))"
    | (three) "retryable (answer (calls 1))" "retryable (answer (calls 2))"
    by blast
  then show ?thesis
  proof cases
    case one
    then show ?thesis by (intro exI [of _ 1]) (simp add: retry_operator_unrolled)
  next
    case two
    then show ?thesis
      by (intro exI [of _ 2]) (simp add: retry_operator_unrolled Let_def numeral_2_eq_2)
  next
    case three
    then show ?thesis
      by (intro exI [of _ 3]) (simp add: retry_operator_unrolled Let_def upt_rec numeral_3_eq_3)
  qed
qed

section \<open>Uploads\<close>

definition is_ok :: "('t, OperatorError) result \<Rightarrow> bool" where
  "is_ok result = (\<not> isl result)"

definition is_duplicate :: "('t, OperatorError) result \<Rightarrow> bool" where
  "is_duplicate result = (case result of Inl (DuplicateRecording _) \<Rightarrow> True | _ \<Rightarrow> False)"

text \<open>The answers the three operations of an upload end with.\<close>

definition upload_metadata :: "UploadCall \<Rightarrow> UploadMetadata" where
  "upload_metadata c =
     \<lparr>sha256_hex = upload_id c, size_bytes = upload_bytes c, duration_ms = recording_ms c\<rparr>"

definition init_result :: "UploadAnswers \<Rightarrow> UploadCall \<Rightarrow> (UploadSlot, OperatorError) result" where
  "init_result world c = fst (retry_operator ''POST /v1/messages''
     (InitUpload (upload_question c) (upload_metadata c)) (init_answers world))"

definition put_result :: "UploadAnswers \<Rightarrow> UploadCall \<Rightarrow> (unit, OperatorError) result" where
  "put_result world c = fst (retry_operator ''PUT <presigned-upload-url>''
     (PutUpload (projr (init_result world c)) (path c) (upload_id c)) (put_answers world))"

definition complete_result :: "UploadAnswers \<Rightarrow> UploadCall \<Rightarrow> (unit, OperatorError) result" where
  "complete_result world c = fst (retry_operator ''POST /v1/messages/{id}/complete''
     (CompleteUpload (slot_id (projr (init_result world c))) (upload_id c)
       (case recording_ms c of Some ms \<Rightarrow> ms | None \<Rightarrow> 0)) (complete_answers world))"

lemmas upload_result_defs = init_result_def put_result_def complete_result_def upload_metadata_def

definition confirmed :: "UploadAnswers \<Rightarrow> UploadCall \<Rightarrow> bool" where
  "confirmed world c \<longleftrightarrow>
     is_duplicate (init_result world c) \<or>
     is_ok (init_result world c) \<and> is_ok (put_result world c) \<and> is_ok (complete_result world c)"

abbreviation exchange_of :: "UploadAnswers \<Rightarrow> UploadCall \<Rightarrow> (unit, OperatorError) result \<times> Action list" where
  "exchange_of world c \<equiv>
     upload_exchange world (path c) (upload_id c) (upload_question c) (upload_bytes c) (recording_ms c)"

lemma exchange_ok_iff:
  "is_ok (fst (exchange_of world c)) \<longleftrightarrow>
     is_ok (validate_upload_caps (upload_bytes c) (recording_ms c)) \<and> confirmed world c"
  by (auto simp: upload_exchange_def confirmed_def upload_result_defs is_ok_def is_duplicate_def
      split_beta Let_def split: sum.splits OperatorError.splits)

lemma exchange_views:
  "sent (snd (exchange_of world c)) = []" "cleaned (snd (exchange_of world c)) = []"
  "dequeued (snd (exchange_of world c)) = []"
  by (simp_all add: upload_exchange_def split_beta Let_def split: sum.splits OperatorError.splits)

lemma caps_ok_iff:
  "is_ok (validate_upload_caps bytes ms) \<longleftrightarrow>
     (\<exists>d. ms = Some d \<and> 0 < d \<and> d \<le> MAX_UPLOAD_DURATION_MS \<and> bytes \<le> MAX_UPLOAD_BYTES)"
  by (auto simp: validate_upload_caps_def is_ok_def word_gt_0 not_less [symmetric]
      split: option.splits)

text \<open>
  An upload counts as done only when the operator has confirmed it: the recording is
  within the caps, and either the operator already had the completed row, or the slot, the bytes
  and the completion were each accepted. Only then are the recording's metadata removed and
  \<open>true\<close> returned, and the core is told one outcome, \<open>Complete\<close> in just that case.
\<close>

lemma upload_recording_result:
  "case upload_recording world c of (ok, acts) \<Rightarrow>
     ok = (is_ok (validate_upload_caps (upload_bytes c) (recording_ms c)) \<and> confirmed world c) \<and>
     cleaned acts = (if ok \<and> has_source c then [upload_id c] else []) \<and>
     (\<exists>outcome. sent acts = (if has_event_tx c then [UploadFinished (upload_id c) outcome] else []) \<and>
        (outcome = Complete) = ok)"
proof (cases "exchange_of world c")
  case (Pair result acts)
  have ok: "is_ok result =
      (is_ok (validate_upload_caps (upload_bytes c) (recording_ms c)) \<and> confirmed world c)"
    using exchange_ok_iff [of world c] Pair by simp
  have views: "sent acts = []" "cleaned acts = []"
    using exchange_views [of world c] Pair by simp_all
  show ?thesis
  proof (cases result)
    case (Inl err)
    then show ?thesis
      using Pair ok views
      by (cases err)
        (auto simp: upload_recording_def is_ok_def send_upload_outcome_def split: option.split)
  next
    case (Inr v)
    then show ?thesis
      using Pair ok views
      by (auto simp: upload_recording_def is_ok_def send_upload_outcome_def split: option.split)
  qed
qed

text \<open>The requests of an upload come in order: nothing is asked of the operator for a recording
  outside the caps; the bytes are sent only into the slot the operator gave, the completion is
  asked only after the bytes were accepted, and each operation at most three times.\<close>
theorem upload_requests_ordered:
  "\<exists>i j k. i \<le> 3 \<and> j \<le> 3 \<and> k \<le> 3 \<and>
     asked (snd (upload_recording world c)) =
       replicate i (InitUpload (upload_question c) (upload_metadata c)) @
       replicate j (PutUpload (projr (init_result world c)) (path c) (upload_id c)) @
       replicate k (CompleteUpload (slot_id (projr (init_result world c))) (upload_id c)
         (case recording_ms c of Some ms \<Rightarrow> ms | None \<Rightarrow> 0)) \<and>
     (i = 0) = (\<not> is_ok (validate_upload_caps (upload_bytes c) (recording_ms c))) \<and>
     (0 < j) = (0 < i \<and> is_ok (init_result world c)) \<and>
     (0 < k) = (0 < j \<and> is_ok (put_result world c))"
proof -
  let ?caps = "is_ok (validate_upload_caps (upload_bytes c) (recording_ms c))"
  let ?i = "if ?caps then attempts (init_answers world) else 0"
  let ?j = "if 0 < ?i \<and> is_ok (init_result world c) then attempts (put_answers world) else 0"
  let ?k = "if 0 < ?j \<and> is_ok (put_result world c) then attempts (complete_answers world) else 0"
  have "asked (snd (exchange_of world c)) =
       replicate ?i (InitUpload (upload_question c) (upload_metadata c)) @
       replicate ?j (PutUpload (projr (init_result world c)) (path c) (upload_id c)) @
       replicate ?k (CompleteUpload (slot_id (projr (init_result world c))) (upload_id c)
         (case recording_ms c of Some ms \<Rightarrow> ms | None \<Rightarrow> 0))"
    by (auto simp: upload_exchange_def upload_result_defs is_ok_def retry_asked attempts_pos
        split_beta Let_def split: sum.splits OperatorError.splits)
  moreover have "asked (snd (upload_recording world c)) = asked (snd (exchange_of world c))"
    by (auto simp: upload_recording_def send_upload_outcome_def split_beta Let_def
        split: sum.splits OperatorError.splits option.splits)
  ultimately show ?thesis
    by (intro exI [of _ ?i] exI [of _ ?j] exI [of _ ?k] conjI)
      (simp_all only:, simp_all add: attempts_le attempts_pos)
qed

lemma upload_recording_dequeues_nothing: "dequeued (snd (upload_recording world c)) = []"
  by (auto simp: upload_recording_def send_upload_outcome_def exchange_views split_beta Let_def
      split: sum.splits OperatorError.splits option.splits)

section \<open>The task of an upload\<close>

text \<open>
  The task \<open>effect_task\<close> spawns for an upload, once the persistence task answered: \<open>persisted\<close> is
  \<open>None\<close> when the entry is durably in the spool, otherwise the error's text; \<open>down\<close> and \<open>accepting\<close>
  are the shutdown flag and the gate when they are read.
\<close>

definition upload_task ::
    "string option \<Rightarrow> bool \<Rightarrow> bool \<Rightarrow> u64 \<Rightarrow> UploadAnswers \<Rightarrow> UploadCall \<Rightarrow> Action list" where
  "upload_task persisted down accepting started_ns world c = (case persisted of
     Some err \<Rightarrow>
       send_upload_outcome True (upload_id c) (Failed (''cannot persist pending upload: '' @ err))
   | None \<Rightarrow>
       (if down then []
        else if \<not> accepting then send_upload_outcome True (upload_id c) Deferred
        else
          (let (success, acts) = upload_recording world c
           in (case session c of
                 Some sid \<Rightarrow> [Publish (UploadStarted (upload_id c) sid started_ns)] | None \<Rightarrow> []) @
              acts @ (if success then [DequeueSpool (upload_id c)] else []))))"

text \<open>C2. No answer is lost between the recorder and the operator: a foreground upload asks the operator
  for nothing unless its spool entry is durable, the booth is not shutting down and admission is
  open; it removes the entry and the recording's metadata only when the operator has confirmed the
  upload; and the core hears at most one outcome, none only during a shutdown.\<close>
theorem upload_task_keeps_answer:
  "case upload_task persisted down accepting started_ns world (c\<lparr>has_event_tx := True\<rparr>) of acts \<Rightarrow>
     (asked acts = [] \<or> persisted = None \<and> \<not> down \<and> accepting) \<and>
     (dequeued acts = [] \<or> dequeued acts = [upload_id c] \<and> persisted = None \<and> confirmed world c) \<and>
     (cleaned acts = [] \<or> dequeued acts = [upload_id c]) \<and>
     length (sent acts) = (if persisted = None \<and> down then 0 else 1)"
proof -
  let ?c = "c\<lparr>has_event_tx := True\<rparr>"
  obtain ok acts where run: "upload_recording world ?c = (ok, acts)"
    by (cases "upload_recording world ?c")
  have same: "confirmed world ?c = confirmed world c"
    by (simp add: confirmed_def upload_result_defs)
  have fin: "ok = (is_ok (validate_upload_caps (upload_bytes c) (recording_ms c)) \<and> confirmed world c)"
    "cleaned acts = (if ok \<and> has_source c then [upload_id c] else [])"
    "\<exists>outcome. sent acts = [UploadFinished (upload_id c) outcome]"
    using upload_recording_result [of ?c world] run same by auto
  have "dequeued acts = []"
    using upload_recording_dequeues_nothing [of world ?c] run by simp
  then show ?thesis
    using run fin
    by (auto simp: upload_task_def send_upload_outcome_def split: option.split)
qed

section \<open>Fetches\<close>

lemma fetch_error_views [simp]:
  "asked (fetch_error src current failed err) = []"
  "\<not> current \<Longrightarrow> sent (fetch_error src current failed err) = []"
  by (auto simp: fetch_error_def split: OperatorError.split)

text \<open>The contract of the three fetches: what is stored and sent once the answer is there.\<close>

locale fetch =
  fixes settle :: "FetchWorld \<Rightarrow> bool \<Rightarrow> ('t, OperatorError) result \<Rightarrow> AudioRef option \<times> Action list"
    and clip :: "FetchWorld \<Rightarrow> 't \<Rightarrow> AudioRef"
    and ready :: "'t \<Rightarrow> Event"
    and failed :: "string \<Rightarrow> Event"
  assumes answered: "settle w True (Inr v) = (Some (clip w v), [SendEvent (ready v)])"
    and refused: "settle w current (Inl err) = (None, snd (settle w current (Inl err)))"
    and refused_sent: "sent (snd (settle w True (Inl err))) =
        (case err of InstallationInactive _ \<Rightarrow> [] | _ \<Rightarrow> [failed (operator_error_str err)])"
    and stale: "fst (settle w False result) = None" "sent (snd (settle w False result)) = []"
begin

lemma at_most_one_event: "length (sent (snd (settle w current result))) \<le> 1"
  by (cases current; cases result) (auto simp: answered refused_sent stale split: OperatorError.split)

lemma stored_iff_ready:
  "fst (settle w current result) \<noteq> None \<longleftrightarrow> current \<and> \<not> isl result"
  by (cases current; cases result) (simp_all add: answered stale, metis fst_conv refused)

end

interpretation question_fetch: fetch settle_random_question
    "\<lambda>w q. operator_audio_ref (is_file w) (question_audio_url q) (question_audio_sha256 q) (recordings_dir w)"
    "\<lambda>q. QuestionReady (question_id q)" QuestionFailed
  by unfold_locales
    (auto simp: settle_random_question_def fetch_error_def split: sum.split OperatorError.split)

interpretation message_fetch: fetch settle_random_message
    "\<lambda>w m. operator_audio_ref (is_file w) (message_audio_url m) (message_audio_sha256 m) (recordings_dir w)"
    "\<lambda>m. MessageReady" MessageFailed
  by unfold_locales
    (auto simp: settle_random_message_def fetch_error_def split: sum.split OperatorError.split)

interpretation instructions_fetch: fetch settle_instructions
    "\<lambda>w m. operator_audio_ref (is_file w) (message_audio_url m) (message_audio_sha256 m) (recordings_dir w)"
    "\<lambda>m. InstructionsReady" InstructionsFailed
  by unfold_locales
    (auto simp: settle_instructions_def fetch_error_def split: sum.split OperatorError.split)

text \<open>A digest the operator sends can not make the booth play a file of its choice: the local
  file a clip resolves to is an existing \<open><digest>.flac\<close> directly inside the recordings
  directory, its name has no path separator, and every other clip stays a remote URL whose digest,
  if any, is 64 lower-case hex digits.\<close>
theorem local_clip_confined:
  "case operator_audio_ref existing url sha dir of
     LocalFile p \<Rightarrow> \<exists>n. p = path_join dir n \<and> CHR ''/'' \<notin> set n \<and> length n = 69 \<and> existing p
   | RemoteUrl u h \<Rightarrow> u = url \<and> (case h of None \<Rightarrow> True | Some s \<Rightarrow> is_sha256_hex s \<and> sha = Some s)
   | Builtin _ \<Rightarrow> False"
proof (cases "\<exists>s. sha = Some s \<and> is_sha256_hex s \<and> existing (path_join dir (s @ ''.flac''))")
  case True
  then obtain s where s: "sha = Some s" "is_sha256_hex s" "existing (path_join dir (s @ ''.flac''))"
    by blast
  then have "CHR ''/'' \<notin> set s"
    by (auto simp: is_sha256_hex_def list_all_iff Let_def)
  then show ?thesis
    using s by (auto simp: operator_audio_ref_def Let_def is_sha256_hex_def intro!: exI [of _ "s @ ''.flac''"])
next
  case False
  then show ?thesis
    by (auto simp: operator_audio_ref_def Let_def split: option.splits)
qed

end
