(* ===== verification/PendingUploads.thy ===== *)
theory PendingUploads
  imports Strings
begin

text \<open>
  The durable spool of answers awaiting upload, \<open>crates/booth-bin/src/pending_uploads.rs\<close>.
  The spool directory is the list of its files, in whatever order \<open>read_dir\<close> yields them.
  The JSON encoding (serde_json) is outside: \<open>enc\<close> and \<open>dec\<close> are arguments. Every file-system
  call of \<open>enqueue\<close> may fail, and the process may die after it; \<open>fault\<close> says where, so the
  directory after a fault is also the one a crash at that point leaves behind.
\<close>

section \<open>Entries and files\<close>

record SpoolEntry =
  recording_id :: string
  question_id :: "string option"
  path :: string
  size_bytes :: "u64 option"
  duration_ms :: "u64 option"

type_synonym dir = "(string \<times> string) list"      \<comment> \<open>file name, contents\<close>

definition write_file :: "string \<Rightarrow> string \<Rightarrow> dir \<Rightarrow> dir" where
  "write_file name bytes d = (name, bytes) # filter (\<lambda>f. fst f \<noteq> name) d"

definition remove_file :: "string \<Rightarrow> dir \<Rightarrow> dir" where
  "remove_file name d = filter (\<lambda>f. fst f \<noteq> name) d"

definition rename_file :: "string \<Rightarrow> string \<Rightarrow> dir \<Rightarrow> dir" where
  "rename_file old new d =
     (case map_of d old of None \<Rightarrow> d | Some bytes \<Rightarrow> write_file new bytes (remove_file old d))"

section \<open>Enqueue, dequeue, scan\<close>

datatype EnqueueFault =
    NoFault
  | CreateFails
  | WriteFails nat           \<comment> \<open>after so many bytes\<close>
  | SyncFails
  | RenameFails bool         \<comment> \<open>whether the clean-up of the temporary file succeeds\<close>
  | DirSyncFails

text \<open>The temporary name, \<open>.tmp-<pid>-<ns>\<close>.\<close>

definition temp_name :: "nat \<Rightarrow> u64 \<Rightarrow> string" where
  "temp_name pid ns = ''.tmp-'' @ show_nat pid @ ''-'' @ show_word ns"

definition enqueue ::
    "(SpoolEntry \<Rightarrow> string) \<Rightarrow> EnqueueFault \<Rightarrow> string \<Rightarrow> SpoolEntry \<Rightarrow> dir \<Rightarrow> dir \<times> bool" where
  "enqueue enc fault temp entry d =
     (if fault = CreateFails then (d, False)
      else
        let d1 = write_file temp [] d; json = enc entry in
        case fault of
          WriteFails n \<Rightarrow> (write_file temp (take n json) d1, False)
        | _ \<Rightarrow>
          (let d2 = write_file temp json d1 in
           if fault = SyncFails then (d2, False)
           else case fault of
             RenameFails cleaned \<Rightarrow> (if cleaned then remove_file temp d2 else d2, False)
           | _ \<Rightarrow>
             (let d3 = rename_file temp (recording_id entry) d2 in
              if fault = DirSyncFails then (d3, False) else (d3, True))))"

text \<open>\<open>dequeue\<close>; \<open>fails\<close>: \<open>remove_file\<close> fails for another reason than a missing file.\<close>

definition dequeue :: "bool \<Rightarrow> string \<Rightarrow> dir \<Rightarrow> dir \<times> bool" where
  "dequeue fails id' d =
     (if id' \<in> set (map fst d) \<and> fails then (d, False) else (remove_file id' d, True))"

definition contains :: "string \<Rightarrow> dir \<Rightarrow> bool" where
  "contains id' d = (id' \<in> set (map fst d))"

definition scan :: "(string \<Rightarrow> SpoolEntry option) \<Rightarrow> dir \<Rightarrow> SpoolEntry list" where
  "scan dec d =
     List.map_filter (\<lambda>(name, bytes). if is_hidden name then None else dec bytes) d"

section \<open>Claims\<close>

text \<open>\<open>claim\<close> and the \<open>Drop\<close> of an \<open>UploadClaim\<close> on the shared set of ids in flight.\<close>

definition claim :: "string \<Rightarrow> string set \<Rightarrow> string set \<times> bool" where
  "claim id' in_flight = (if id' \<in> in_flight then (in_flight, False) else (insert id' in_flight, True))"

definition drop_claim :: "string \<Rightarrow> string set \<Rightarrow> string set" where
  "drop_claim id' in_flight = in_flight - {id'}"

section \<open>The monotonic clock of the temporary names\<close>

definition next_ns :: "u64 \<Rightarrow> u64 \<Rightarrow> u64" where
  "next_ns elapsed last_ns = max elapsed (saturating_add last_ns 1)"

lemma next_ns_increases:
  assumes "last_ns \<noteq> - 1"
  shows "last_ns < next_ns elapsed last_ns"
proof -
  have "unat (- 1 :: u64) = 2 ^ 64 - 1"
    by (simp add: unsigned_minus_1_eq_mask mask_eq_exp_minus_1)
  then have "unat last_ns \<noteq> 2 ^ 64 - 1"
    using assms by (metis word_unat_eq_iff)
  moreover have "unat last_ns < 2 ^ 64"
    using unsigned_less [of last_ns] by simp
  ultimately have "last_ns < saturating_add last_ns 1"
    by (simp add: word_less_nat_alt unat_saturating_add)
  then show ?thesis by (simp add: next_ns_def less_max_iff_disj)
qed

section \<open>What a scan sees\<close>

lemma set_scan:
  "set (scan dec d) = {e. \<exists>n b. (n, b) \<in> set d \<and> \<not> is_hidden n \<and> dec b = Some e}"
  by (force simp: scan_def List.map_filter_def split: if_splits)

lemma scan_write_hidden: "is_hidden n \<Longrightarrow> set (scan dec (write_file n b d)) = set (scan dec d)"
  by (auto simp: set_scan write_file_def)

lemma scan_remove_hidden: "is_hidden n \<Longrightarrow> set (scan dec (remove_file n d)) = set (scan dec d)"
  by (auto simp: set_scan remove_file_def)

lemma scan_write:
  "\<not> is_hidden n \<Longrightarrow> dec b = Some e \<Longrightarrow>
   set (scan dec (write_file n b d)) = insert e (set (scan dec (remove_file n d)))"
  by (auto simp: set_scan write_file_def remove_file_def)

lemma remove_write: "remove_file n (write_file n b d) = remove_file n d"
  by (simp add: write_file_def remove_file_def)

lemma write_write: "write_file n b' (write_file n b d) = write_file n b' d"
  by (simp add: write_file_def)

lemma remove_remove: "remove_file m (remove_file n d) = remove_file n (remove_file m d)"
  by (simp add: remove_file_def conj_commute)

lemma rename_write: "rename_file m n (write_file m b d) = write_file n b (remove_file m d)"
  by (simp add: rename_file_def write_file_def remove_file_def)

text \<open>The directory \<open>enqueue\<close> leaves, fault by fault.\<close>

lemma enqueue_cases:
  "enqueue enc fault temp entry d = (case fault of
     CreateFails \<Rightarrow> (d, False)
   | WriteFails n \<Rightarrow> (write_file temp (take n (enc entry)) d, False)
   | SyncFails \<Rightarrow> (write_file temp (enc entry) d, False)
   | RenameFails cleaned \<Rightarrow>
       (if cleaned then remove_file temp d else write_file temp (enc entry) d, False)
   | DirSyncFails \<Rightarrow> (write_file (recording_id entry) (enc entry) (remove_file temp d), False)
   | NoFault \<Rightarrow> (write_file (recording_id entry) (enc entry) (remove_file temp d), True))"
  by (cases fault) (simp_all add: enqueue_def Let_def write_write remove_write rename_write)

section \<open>Properties\<close>

text \<open>C37. Enqueuing is atomic for the replay: wherever it fails or the booth dies, a scan sees
  either exactly the entries from before, or these with the new entry in place of one for the
  same recording; never a partial entry. It reports success only in the second case.\<close>
theorem enqueue_atomic:
  assumes "dec (enc entry) = Some entry" and "\<not> is_hidden (recording_id entry)" and "is_hidden temp"
  shows "case enqueue enc fault temp entry d of (d', ok) \<Rightarrow>
    set (scan dec d') =
      (if fault = NoFault \<or> fault = DirSyncFails
       then insert entry (set (scan dec (remove_file (recording_id entry) d)))
       else set (scan dec d)) \<and>
    ok = (fault = NoFault)"
proof -
  have "set (scan dec (write_file (recording_id entry) (enc entry) (remove_file temp d))) =
      insert entry (set (scan dec (remove_file (recording_id entry) d)))"
    by (simp only: scan_write [OF assms(2), of dec "enc entry" entry, OF assms(1)]
        remove_remove [of "recording_id entry" temp] scan_remove_hidden [OF assms(3)])
  then show ?thesis
    using assms(3)
    by (cases fault) (simp_all add: enqueue_cases scan_write_hidden scan_remove_hidden)
qed

text \<open>A codec for the witnesses: an entry of a recording without further data is its id.\<close>

definition plain_entry :: "string \<Rightarrow> SpoolEntry" where
  "plain_entry r =
     \<lparr>recording_id = r, question_id = None, path = [], size_bytes = None, duration_ms = None\<rparr>"

theorem enqueue_atomic_witness:
  "case enqueue recording_id (WriteFails 1) (temp_name 7 1) (plain_entry ''ab'') [(''cd'', ''cd'')] of
     (d', ok) \<Rightarrow>
       set (scan (\<lambda>b. Some (plain_entry b)) d') = {plain_entry ''cd''} \<and> \<not> ok"
  using enqueue_atomic [of "\<lambda>b. Some (plain_entry b)" recording_id "plain_entry ''ab''"
      "temp_name 7 1" "WriteFails 1" "[(''cd'', ''cd'')]"]
  by (simp add: plain_entry_def temp_name_def is_hidden_def scan_def List.map_filter_simps)

text \<open>Operations on the spool, and those that may touch the entry of a recording.\<close>

datatype SpoolOp = Enqueue EnqueueFault string SpoolEntry | Dequeue bool string

definition spool_op :: "(SpoolEntry \<Rightarrow> string) \<Rightarrow> dir \<Rightarrow> SpoolOp \<Rightarrow> dir" where
  "spool_op enc d oper = (case oper of
     Enqueue fault temp entry \<Rightarrow> fst (enqueue enc fault temp entry d)
   | Dequeue fails id' \<Rightarrow> fst (dequeue fails id' d))"

definition other_op :: "string \<Rightarrow> SpoolOp \<Rightarrow> bool" where
  "other_op id' oper = (case oper of
     Enqueue _ temp entry \<Rightarrow> is_hidden temp \<and> recording_id entry \<noteq> id'
   | Dequeue _ id'' \<Rightarrow> id'' \<noteq> id')"

lemma spool_op_keeps:
  assumes "(id', b) \<in> set d" and "\<not> is_hidden id'" and "other_op id' oper"
  shows "(id', b) \<in> set (spool_op enc d oper)"
  using assms
  by (cases oper)
    (auto simp: spool_op_def other_op_def enqueue_cases dequeue_def write_file_def remove_file_def
      split: EnqueueFault.split)

lemma spool_ops_keep:
  "(id', b) \<in> set d \<Longrightarrow> \<not> is_hidden id' \<Longrightarrow> list_all (other_op id') ops \<Longrightarrow>
   (id', b) \<in> set (foldl (spool_op enc) d ops)"
  by (induction ops arbitrary: d) (simp_all add: spool_op_keeps)

text \<open>An answer whose enqueue succeeded is found by every later scan, through any further
  enqueues (interrupted or not) and dequeues for other recordings, until it is dequeued
  itself; then, if the dequeue succeeds, no scan finds its file again.\<close>
theorem enqueued_answer_survives:
  assumes "dec (enc entry) = Some entry" and "\<not> is_hidden (recording_id entry)"
    and "enqueue enc fault temp entry d = (d', True)"
    and "list_all (other_op (recording_id entry)) ops"
  shows "entry \<in> set (scan dec (foldl (spool_op enc) d' ops)) \<and>
    \<not> contains (recording_id entry)
        (fst (dequeue False (recording_id entry) (foldl (spool_op enc) d' ops)))"
proof -
  have "(recording_id entry, enc entry) \<in> set d'"
    using assms(3) by (cases fault) (auto simp: enqueue_cases write_file_def)
  then have "(recording_id entry, enc entry) \<in> set (foldl (spool_op enc) d' ops)"
    using assms(2,4) by (rule spool_ops_keep)
  then show ?thesis
    using assms(1,2) by (auto simp: set_scan dequeue_def contains_def remove_file_def)
qed

theorem enqueued_answer_survives_witness:
  "plain_entry ''ab'' \<in> set (scan (\<lambda>b. Some (plain_entry b))
     (foldl (spool_op recording_id) (fst (enqueue recording_id NoFault (temp_name 7 1) (plain_entry ''ab'') []))
       [Enqueue (RenameFails False) (temp_name 7 2) (plain_entry ''cd''), Dequeue False ''cd'']))"
  using enqueued_answer_survives [of "\<lambda>b. Some (plain_entry b)" recording_id "plain_entry ''ab''"
      NoFault "temp_name 7 1" "[]" "fst (enqueue recording_id NoFault (temp_name 7 1) (plain_entry ''ab'') [])"
      "[Enqueue (RenameFails False) (temp_name 7 2) (plain_entry ''cd''), Dequeue False ''cd'']"]
  by (simp add: plain_entry_def temp_name_def is_hidden_def other_op_def enqueue_cases)

section \<open>Claims are exclusive\<close>

text \<open>The claims held after a history of attempts and drops, as a list of ids.\<close>

datatype ClaimOp = Claim string | DropClaim string

fun claims_held :: "ClaimOp list \<Rightarrow> string set \<times> string list" where
  "claims_held [] = ({}, [])"
| "claims_held (Claim i # ops) =
     (let (s, held) = claims_held ops; (s', ok) = claim i s in (s', if ok then i # held else held))"
| "claims_held (DropClaim i # ops) =
     (let (s, held) = claims_held ops
      in if i \<in> set held then (drop_claim i s, remove1 i held) else (s, held))"

lemma claims_exclusive:
  "set (snd (claims_held ops)) = fst (claims_held ops) \<and> distinct (snd (claims_held ops))"
  by (induction ops rule: claims_held.induct)
    (auto simp: claim_def drop_claim_def split_beta Let_def)

end
