(* ===== verification/Effects.thy ===== *)
theory Effects
  imports OperatorCalls Installation PendingUploads CoreSpec
begin

text \<open>
  The runtime's effect dispatcher, \<open>effect_task\<close> of \<open>crates/booth-bin/src/lib.rs\<close>, with the tasks it
  spawns. A state of \<open>EffectTask\<close> is the dispatcher waiting at one of its \<open>await\<close>s; an input says
  what happens next: an effect arrives, an operator task is joined, a timer's sleep is over, a
  fetch gets its answer. An input the dispatcher does not wait for leaves it as it is. The answers
  of the adapters and what other tasks did to the shared flags are part of the input. Task and
  timer numbers are those of the model.
\<close>

section \<open>State\<close>

datatype AudioCommand = Play AudioRef | Stop | Shutdown

datatype FetchKind = Question | Message | Instructions

text \<open>
  An operator task in flight: an upload that holds its claim; a fetch that waits for the operator with
  the token it was given; or a fetch that has found its token current and is about to store
  the clip and send the event.
\<close>

datatype OperatorTask =
    UploadTask RecordingId
  | FetchTask FetchKind u64
  | StoreTask AudioRef "Event list"

record EffectTask =
  generation :: u64
  next_clip :: "AudioRef option"                     \<comment> \<open>\<open>next_remote_audio\<close>\<close>
  pulse_timeout :: "nat option"
  recording_timeout :: "nat option"
  timers :: "(nat \<times> Event) list"                   \<comment> \<open>sleeping, with the event they will send\<close>
  operator_tasks :: "(nat \<times> OperatorTask) list"
  durability_tasks :: nat
  pending_effects :: "Effect list"                  \<comment> \<open>\<open>pending_operator_effects\<close>\<close>
  rx_closed :: bool
  claims :: "string set"
  numbers :: nat

datatype EffectOut =
    ToAudio AudioCommand
  | ToCore Event
  | ToBus TelemetryEvent
  | ToStatusWriter BoothStatus
  | StartRecorder
  | StopRecorder
  | DriveLed LedColour LedPattern
  | RebootHost
  | PowerOffHost
  | DiscardRecording RecordingId string              \<comment> \<open>metadata and the file at the path\<close>
  | Persist SpoolEntry
  | Executed Effect                                  \<comment> \<open>mark: what follows is this effect's\<close>
  | Dropped Effect                                   \<comment> \<open>mark: skipped while shutting down\<close>

text \<open>What the adapters answer and the shared flags say while an effect is executed.\<close>

record World =
  start_answer :: "(unit, AudioError) result"
  stop_answer :: "(RecordingId option, AudioError) result"
  session_now :: "string option"
  file_bytes :: "u64 option"                         \<comment> \<open>of \<open>fs::metadata\<close>\<close>
  path_answer :: "(string, AudioError) result"
  duration_answer :: "u64 option"
  led_answer :: "(unit, LedError) result"
  reboot_answer :: "(unit, PowerError) result"
  poweroff_answer :: "(unit, PowerError) result"
  status_writer_alive :: bool
  shutting_down :: bool
  clock_ns :: u64

definition OPERATOR_CONCURRENCY :: nat where "OPERATOR_CONCURRENCY = 4"
definition STATUS_QUEUE_DEPTH :: nat where "STATUS_QUEUE_DEPTH = 32"

definition is_operator_effect :: "Effect \<Rightarrow> bool" where
  "is_operator_effect effect = (case effect of
     UploadRecording _ _ \<Rightarrow> True | FetchRandomQuestion \<Rightarrow> True | FetchRandomMessage \<Rightarrow> True
   | FetchInstructions \<Rightarrow> True | _ \<Rightarrow> False)"

definition publish_audio_error :: "AudioError \<Rightarrow> EffectOut list" where
  "publish_audio_error err = [ToBus (TelemetryEvent.Error ''audio'' (audio_error_str err))]"

definition recording_size :: "(string, AudioError) result \<Rightarrow> u64 option \<Rightarrow> (u64 \<times> u64) option" where
  "recording_size found len = (case found of
     Inl _ \<Rightarrow> None | Inr _ \<Rightarrow> (case len of None \<Rightarrow> None | Some n \<Rightarrow> Some (0, n)))"

definition apply_status_led :: "World \<Rightarrow> LedColour \<Rightarrow> LedPattern \<Rightarrow> EffectOut list" where
  "apply_status_led w colour pattern = DriveLed colour pattern #
     (case led_answer w of
        Inl _ \<Rightarrow> [] | Inr _ \<Rightarrow> [ToBus (TelemetryEvent.StatusLed colour pattern (clock_ns w))])"

definition power_error_str :: "PowerError \<Rightarrow> string" where
  "power_error_str err = (case err of
     Command m \<Rightarrow> ''power command failed: '' @ m
   | PowerError.Unsupported m \<Rightarrow> ''power control unsupported: '' @ m)"

section \<open>Timers and tasks\<close>

definition abort_timer :: "nat option \<Rightarrow> (nat \<times> Event) list \<Rightarrow> (nat \<times> Event) list" where
  "abort_timer armed ts = (case armed of None \<Rightarrow> ts | Some n \<Rightarrow> filter (\<lambda>t. fst t \<noteq> n) ts)"

definition spawn_task :: "OperatorTask \<Rightarrow> EffectTask \<Rightarrow> EffectTask" where
  "spawn_task task t =
     t\<lparr>operator_tasks := operator_tasks t @ [(numbers t, task)], numbers := numbers t + 1\<rparr>"

definition spawn_fetch :: "FetchKind \<Rightarrow> EffectTask \<Rightarrow> EffectTask" where
  "spawn_fetch kind t = spawn_task (FetchTask kind (current_token (generation t))) t"

definition arm_pulse_timeout :: "EffectTask \<Rightarrow> EffectTask" where
  "arm_pulse_timeout t =
     t\<lparr>timers := (numbers t, Tick) # abort_timer (pulse_timeout t) (timers t),
       pulse_timeout := Some (numbers t), numbers := numbers t + 1\<rparr>"

definition cancel_pulse_timeout :: "EffectTask \<Rightarrow> EffectTask" where
  "cancel_pulse_timeout t =
     t\<lparr>timers := abort_timer (pulse_timeout t) (timers t), pulse_timeout := None\<rparr>"

definition arm_recording_timeout :: "EffectTask \<Rightarrow> EffectTask" where
  "arm_recording_timeout t =
     t\<lparr>timers := (numbers t, RecordingTimedOut) # abort_timer (recording_timeout t) (timers t),
       recording_timeout := Some (numbers t), numbers := numbers t + 1\<rparr>"

definition cancel_recording_timeout :: "EffectTask \<Rightarrow> EffectTask" where
  "cancel_recording_timeout t =
     t\<lparr>timers := abort_timer (recording_timeout t) (timers t), recording_timeout := None\<rparr>"

section \<open>Executing an effect\<close>

text \<open>\<open>Effect::UploadRecording\<close>.\<close>

definition run_upload ::
    "World \<Rightarrow> u64 \<Rightarrow> RecordingId \<Rightarrow> QuestionId \<Rightarrow> EffectTask \<Rightarrow> EffectTask \<times> EffectOut list" where
  "run_upload w min_recording_ms rid qid t = (case path_answer w of
     Inl err \<Rightarrow>
       (t, publish_audio_error err @ [ToCore (UploadFinished rid (Failed (audio_error_str err)))])
   | Inr file \<Rightarrow>
       (let len = (case recording_size (path_answer w) (file_bytes w) of
                     None \<Rightarrow> 0 | Some (_, n) \<Rightarrow> n);
            too_short = (case duration_answer w of None \<Rightarrow> False | Some ms \<Rightarrow> ms < min_recording_ms)
        in if too_short then
             (t, [DiscardRecording rid file, ToCore (UploadFinished rid Complete)])
           else
             (let (held, got) = claim rid (claims t) in
              if \<not> got then (t, [ToCore (UploadFinished rid Deferred)])
              else
                (let entry = \<lparr>SpoolEntry.recording_id = rid, question_id = Some qid, path = file,
                       size_bytes = Some len, duration_ms = duration_answer w\<rparr>;
                     t1 = t\<lparr>durability_tasks := durability_tasks t + 1\<rparr>
                 in if shutting_down w then (t1, [Persist entry])
                    else (spawn_task (UploadTask rid) (t1\<lparr>claims := held\<rparr>),
                          [Persist entry])))))"

definition run_effect ::
    "World \<Rightarrow> u64 \<Rightarrow> Effect \<Rightarrow> EffectTask \<Rightarrow> EffectTask \<times> EffectOut list" where
  "run_effect w min_recording_ms effect t = (case effect of
     Effect.Play src \<Rightarrow>
       (let (resolved, slot) = resolve_audio_ref src (next_clip t)
        in (t\<lparr>next_clip := slot\<rparr>, [ToAudio (Play resolved)]))
   | StopAudio \<Rightarrow>
       (t\<lparr>generation := invalidate (generation t), next_clip := None\<rparr>, [ToAudio Stop])
   | StartRecording \<Rightarrow>
       (t, StartRecorder # (case start_answer w of
          Inr _ \<Rightarrow> []
        | Inl err \<Rightarrow> publish_audio_error err @ [ToCore (Event.RecordingFailed (audio_error_str err))]))
   | ArmRecordingTimeout \<Rightarrow> (arm_recording_timeout t, [])
   | CancelRecordingTimeout \<Rightarrow> (cancel_recording_timeout t, [])
   | StopRecording \<Rightarrow>
       (t, StopRecorder # (case stop_answer w of
          Inr (Some rid) \<Rightarrow>
            (case session_now w of
               None \<Rightarrow> []
             | Some sid \<Rightarrow>
                 (let (ms, len) = (case recording_size (path_answer w) (file_bytes w) of
                                     None \<Rightarrow> (0, 0) | Some p \<Rightarrow> p)
                  in [ToBus (RecordingStopped rid sid ms len (clock_ns w))])) @
            [ToCore (RecordingFinished rid)]
        | Inr None \<Rightarrow> [ToCore (Event.RecordingFailed ''no recording in progress'')]
        | Inl err \<Rightarrow>
            publish_audio_error err @ [ToCore (Event.RecordingFailed (audio_error_str err))]))
   | ArmPulseTimeout \<Rightarrow> (arm_pulse_timeout t, [])
   | CancelPulseTimeout \<Rightarrow> (cancel_pulse_timeout t, [])
   | Effect.Log message \<Rightarrow> (t, [ToBus (TelemetryEvent.Log ''info'' ''booth_core'' message)])
   | UploadRecording rid qid \<Rightarrow> run_upload w min_recording_ms rid qid t
   | FetchRandomQuestion \<Rightarrow> (spawn_fetch Question t, [])
   | FetchRandomMessage \<Rightarrow> (spawn_fetch Message t, [])
   | FetchInstructions \<Rightarrow> (spawn_fetch Instructions t, [])
   | PutStatus s \<Rightarrow> (t, if status_writer_alive w then [ToStatusWriter s] else [])
   | SetStatusLed colour pattern \<Rightarrow> (t, apply_status_led w colour pattern)
   | Reboot \<Rightarrow>
       (t, RebootHost # (case reboot_answer w of
          Inr _ \<Rightarrow> []
        | Inl err \<Rightarrow> [ToBus (TelemetryEvent.Error ''power'' (''reboot failed: '' @ power_error_str err))]))
   | PowerOff \<Rightarrow>
       (t, PowerOffHost # (case poweroff_answer w of
          Inr _ \<Rightarrow> []
        | Inl err \<Rightarrow> [ToBus (TelemetryEvent.Error ''power'' (''poweroff failed: '' @ power_error_str err))])))"

section \<open>The dispatcher's loop\<close>

text \<open>
  \<open>Arrived\<close>: \<open>effect_rx.recv()\<close> is ready (\<open>None\<close>: closed). \<open>Resumed\<close>: the pool has room and the
  dispatcher takes the effect it had put aside. \<open>down\<close> is the shutdown flag at the top of the
  iteration. \<open>Joined n\<close>: operator task \<open>n\<close> is over and has been joined; \<open>FetchAnswered n\<close>: its
  answer has arrived and \<open>is_current\<close> is asked; \<open>FetchStores n\<close>: it stores the clip and sends. \<open>GateInvalidates\<close>: the
  installation gate, which shares the generation counter, closes. What an upload task does is
  \<open>upload_task\<close> of \<open>OperatorCalls\<close>; an aborted task is one that is joined without an answer.
\<close>

datatype FetchResult =
    QuestionResult "(OperatorQuestion, OperatorError) result"
  | MessageResult "(OperatorMessage, OperatorError) result"

definition settle_fetch ::
    "FetchWorld \<Rightarrow> FetchKind \<Rightarrow> bool \<Rightarrow> FetchResult \<Rightarrow> AudioRef option \<times> Action list" where
  "settle_fetch fw kind current result = (case (kind, result) of
     (Question, QuestionResult r) \<Rightarrow> settle_random_question fw current r
   | (Message, MessageResult r) \<Rightarrow> settle_random_message fw current r
   | (Instructions, MessageResult r) \<Rightarrow> settle_instructions fw current r
   | _ \<Rightarrow> (None, []))"

definition out_of_action :: "Action \<Rightarrow> EffectOut list" where
  "out_of_action a = (case a of Publish e \<Rightarrow> [ToBus e] | SendEvent e \<Rightarrow> [ToCore e] | _ \<Rightarrow> [])"

datatype EffectInput =
    Arrived bool World "Effect option"
  | Resumed bool World
  | Joined nat
  | DurabilityJoined
  | TimerFired nat
  | FetchAnswered FetchWorld nat FetchResult
  | FetchStores nat
  | GateInvalidates

definition busy :: "EffectTask \<Rightarrow> bool" where
  "busy t = (OPERATOR_CONCURRENCY \<le> length (operator_tasks t))"

text \<open>While shutting down, a fourth durability task is waited for before anything else.\<close>

definition held_up :: "bool \<Rightarrow> EffectTask \<Rightarrow> bool" where
  "held_up down t = (down \<and> OPERATOR_CONCURRENCY \<le> durability_tasks t)"

definition dispatch ::
    "bool \<Rightarrow> World \<Rightarrow> u64 \<Rightarrow> Effect \<Rightarrow> EffectTask \<Rightarrow> EffectTask \<times> EffectOut list" where
  "dispatch down w min_ms effect t =
     (if down \<and> (case effect of UploadRecording _ _ \<Rightarrow> False | _ \<Rightarrow> True) then (t, [Dropped effect])
      else (let (t', outs) = run_effect w min_ms effect t in (t', Executed effect # outs)))"

definition drop_task :: "nat \<Rightarrow> EffectTask \<Rightarrow> EffectTask" where
  "drop_task n t =
     t\<lparr>operator_tasks := filter (\<lambda>k. fst k \<noteq> n) (operator_tasks t),
       claims := (case map_of (operator_tasks t) n of
                    Some (UploadTask rid) \<Rightarrow> drop_claim rid (claims t) | _ \<Rightarrow> claims t)\<rparr>"

definition replace_task :: "nat \<Rightarrow> OperatorTask \<Rightarrow> EffectTask \<Rightarrow> EffectTask" where
  "replace_task n task t =
     t\<lparr>operator_tasks := map (\<lambda>k. if fst k = n then (n, task) else k) (operator_tasks t)\<rparr>"

definition effect_step ::
    "u64 \<Rightarrow> EffectTask \<Rightarrow> EffectInput \<Rightarrow> EffectTask \<times> EffectOut list" where
  "effect_step min_ms t input = (case input of
     Arrived down w received \<Rightarrow>
       (if held_up down t \<or> rx_closed t then (t, [])
        else if \<not> busy t then
          (if pending_effects t \<noteq> [] then (t, [])
           else case received of
             None \<Rightarrow> (t\<lparr>rx_closed := True\<rparr>, [])
           | Some effect \<Rightarrow> dispatch down w min_ms effect t)
        else case received of
             None \<Rightarrow> (t\<lparr>rx_closed := True\<rparr>, [])
           | Some effect \<Rightarrow>
               (if is_operator_effect effect
                then (t\<lparr>pending_effects := pending_effects t @ [effect]\<rparr>, [])
                else dispatch down w min_ms effect t))
   | Resumed down w \<Rightarrow>
       (if held_up down t \<or> busy t then (t, [])
        else case pending_effects t of
          [] \<Rightarrow> (t, [])
        | effect # rest \<Rightarrow> dispatch down w min_ms effect (t\<lparr>pending_effects := rest\<rparr>))
   | Joined n \<Rightarrow> (drop_task n t, [])
   | DurabilityJoined \<Rightarrow> (t\<lparr>durability_tasks := durability_tasks t - 1\<rparr>, [])
   | TimerFired n \<Rightarrow>
       (case map_of (timers t) n of
          None \<Rightarrow> (t, [])
        | Some e \<Rightarrow> (t\<lparr>timers := filter (\<lambda>k. fst k \<noteq> n) (timers t)\<rparr>, [ToCore e]))
   | FetchAnswered fw n result \<Rightarrow>
       (case map_of (operator_tasks t) n of
          Some (FetchTask kind token) \<Rightarrow>
            (let (clip, acts) = settle_fetch fw kind (is_current (generation t) token) result
             in case clip of
                  Some c \<Rightarrow> (replace_task n (StoreTask c (sent acts)) t, [])
                | None \<Rightarrow> (drop_task n t, concat (map out_of_action acts)))
        | _ \<Rightarrow> (t, []))
   | GateInvalidates \<Rightarrow> (t\<lparr>generation := invalidate (generation t)\<rparr>, [])
   | FetchStores n \<Rightarrow>
       (case map_of (operator_tasks t) n of
          Some (StoreTask clip events) \<Rightarrow>
            (drop_task n (t\<lparr>next_clip := Some clip\<rparr>), map ToCore events)
        | _ \<Rightarrow> (t, [])))"

definition effect_new :: "u64 \<Rightarrow> string set \<Rightarrow> EffectTask" where
  "effect_new gen claimed =
     \<lparr>generation = gen, next_clip = None, pulse_timeout = None, recording_timeout = None, timers = [],
      operator_tasks = [], durability_tasks = 0, pending_effects = [], rx_closed = False,
      claims = claimed, numbers = 0\<rparr>"

abbreviation effect_run :: "u64 \<Rightarrow> EffectTask \<Rightarrow> EffectInput list \<Rightarrow> EffectTask \<times> EffectOut list" where
  "effect_run min_ms \<equiv> run_machine (effect_step min_ms)"

section \<open>The pool\<close>

text \<open>When an upload gets a task of its own, and the tasks an effect spawns.\<close>

definition upload_admitted :: "World \<Rightarrow> u64 \<Rightarrow> RecordingId \<Rightarrow> EffectTask \<Rightarrow> bool" where
  "upload_admitted w min_ms rid t \<longleftrightarrow>
     \<not> isl (path_answer w) \<and>
     (case duration_answer w of None \<Rightarrow> True | Some ms \<Rightarrow> min_ms \<le> ms) \<and>
     rid \<notin> claims t \<and> \<not> shutting_down w"

definition tasks_of :: "World \<Rightarrow> u64 \<Rightarrow> Effect \<Rightarrow> EffectTask \<Rightarrow> OperatorTask list" where
  "tasks_of w min_ms e t = (case e of
     UploadRecording rid _ \<Rightarrow> if upload_admitted w min_ms rid t then [UploadTask rid] else []
   | FetchRandomQuestion \<Rightarrow> [FetchTask Question (generation t)]
   | FetchRandomMessage \<Rightarrow> [FetchTask Message (generation t)]
   | FetchInstructions \<Rightarrow> [FetchTask Instructions (generation t)]
   | _ \<Rightarrow> [])"

lemmas effect_defs = run_effect_def run_upload_def spawn_fetch_def spawn_task_def
  arm_pulse_timeout_def cancel_pulse_timeout_def arm_recording_timeout_def
  cancel_recording_timeout_def

lemma run_upload_frame:
  "operator_tasks (fst (run_upload w m r q t)) =
     operator_tasks t @ (if upload_admitted w m r t then [(numbers t, UploadTask r)] else [])"
  "pending_effects (fst (run_upload w m r q t)) = pending_effects t"
  "rx_closed (fst (run_upload w m r q t)) = rx_closed t"
  "generation (fst (run_upload w m r q t)) = generation t"
  "next_clip (fst (run_upload w m r q t)) = next_clip t"
  "timers (fst (run_upload w m r q t)) = timers t"
  "pulse_timeout (fst (run_upload w m r q t)) = pulse_timeout t"
  "recording_timeout (fst (run_upload w m r q t)) = recording_timeout t"
  "numbers t \<le> numbers (fst (run_upload w m r q t))"
  by (auto simp: run_upload_def upload_admitted_def spawn_task_def claim_def Let_def split_beta
      not_less split: sum.splits option.splits)

lemma run_effect_frame:
  "operator_tasks (fst (run_effect w m e t)) =
     operator_tasks t @ map (Pair (numbers t)) (tasks_of w m e t)"
  "pending_effects (fst (run_effect w m e t)) = pending_effects t"
  "rx_closed (fst (run_effect w m e t)) = rx_closed t"
  "generation (fst (run_effect w m e t)) =
     (if e = StopAudio then generation t + 1 else generation t)"
  by (cases e; simp add: run_effect_def run_upload_frame tasks_of_def spawn_fetch_def spawn_task_def
      current_token_def invalidate_def arm_pulse_timeout_def cancel_pulse_timeout_def
      arm_recording_timeout_def cancel_recording_timeout_def split_beta Let_def)+






section \<open>The order of the effects\<close>

text \<open>The effects the dispatcher takes from its channel, and those it has got to.\<close>

definition takes :: "EffectTask \<Rightarrow> EffectInput \<Rightarrow> Effect list" where
  "takes t input = (case input of
     Arrived down w (Some e) \<Rightarrow>
       if held_up down t \<or> rx_closed t \<or> \<not> busy t \<and> pending_effects t \<noteq> [] then [] else [e]
   | _ \<Rightarrow> [])"


definition reached :: "EffectOut list \<Rightarrow> Effect list" where
  "reached outs =
     List.map_filter (\<lambda>out. case out of Executed e \<Rightarrow> Some e | Dropped e \<Rightarrow> Some e | _ \<Rightarrow> None) outs"

lemma reached_append [simp]: "reached (xs @ ys) = reached xs @ reached ys"
  by (simp add: reached_def List.map_filter_def)

lemma reached_Nil [simp]: "reached [] = []"
  by (simp add: reached_def List.map_filter_simps)

lemma reached_Cons [simp]:
  "reached (x # xs) = (case x of Executed e \<Rightarrow> [e] | Dropped e \<Rightarrow> [e] | _ \<Rightarrow> []) @ reached xs"
  by (simp add: reached_def List.map_filter_simps split: EffectOut.split)

lemma reached_map_ToCore [simp]: "reached (map ToCore es) = []"
  by (induction es) simp_all

lemma reached_actions [simp]: "reached (concat (map out_of_action acts)) = []"
  by (induction acts) (simp_all add: out_of_action_def split: Action.split)

lemma reached_run_effect [simp]: "reached (snd (run_effect w m e t)) = []"
  by (cases e)
    (auto simp: run_effect_def run_upload_def publish_audio_error_def apply_status_led_def
      split_beta Let_def split: sum.splits option.splits)

lemma reached_dispatch [simp]: "reached (snd (dispatch down w m e t)) = [e]"
  by (simp add: dispatch_def split_beta Let_def)


lemma drop_task_frame [simp]:
  "pending_effects (drop_task n t) = pending_effects t" "rx_closed (drop_task n t) = rx_closed t"
  "generation (drop_task n t) = generation t" "timers (drop_task n t) = timers t"
  by (simp_all add: drop_task_def)

lemma replace_task_frame [simp]:
  "pending_effects (replace_task n k t) = pending_effects t"
  "rx_closed (replace_task n k t) = rx_closed t"
  "generation (replace_task n k t) = generation t" "timers (replace_task n k t) = timers t"
  by (simp_all add: replace_task_def)




section \<open>The timers\<close>








definition executed :: "EffectOut list \<Rightarrow> Effect list" where
  "executed outs = List.map_filter (\<lambda>out. case out of Executed e \<Rightarrow> Some e | _ \<Rightarrow> None) outs"

lemma executed_append [simp]: "executed (xs @ ys) = executed xs @ executed ys"
  by (simp add: executed_def List.map_filter_def)

lemma executed_Nil [simp]: "executed [] = []"
  by (simp add: executed_def List.map_filter_simps)

lemma executed_Cons [simp]:
  "executed (x # xs) = (case x of Executed e \<Rightarrow> [e] | _ \<Rightarrow> []) @ executed xs"
  by (simp add: executed_def List.map_filter_simps split: EffectOut.split)

lemma executed_map_ToCore [simp]: "executed (map ToCore es) = []"
  by (induction es) simp_all

lemma executed_actions [simp]: "executed (concat (map out_of_action acts)) = []"
  by (induction acts) (simp_all add: out_of_action_def split: Action.split)

lemma executed_run_effect [simp]: "executed (snd (run_effect w m e t)) = []"
  by (cases e)
    (auto simp: run_effect_def run_upload_def publish_audio_error_def apply_status_led_def
      split_beta Let_def split: sum.splits option.splits)






section \<open>Fetches of abandoned calls\<close>

lemma map_of_drop:
  "map_of (filter (\<lambda>k. fst k \<noteq> m) xs) n = (if n = m then None else map_of xs n)"
  by (induction xs) auto

lemma map_of_replace:
  "map_of (map (\<lambda>k. if fst k = m then (m, v) else k) xs) n =
     (if n = m \<and> map_of xs n \<noteq> None then Some v else map_of xs n)"
  by (induction xs) auto

lemma step_generation:
  "generation (fst (effect_step m t i)) \<in> {generation t, generation t + 1}"
  by (cases i)
    (auto simp: effect_step_def dispatch_def run_effect_frame invalidate_def split_beta Let_def
      split: option.split OperatorTask.split list.split)

lemma run_effect_numbers:
  "numbers t \<le> numbers (fst (run_effect w m e t))"
  by (cases e)
    (simp_all add: run_effect_def run_upload_frame spawn_fetch_def spawn_task_def arm_pulse_timeout_def
      cancel_pulse_timeout_def arm_recording_timeout_def cancel_recording_timeout_def split_beta Let_def)

lemma tasks_numbered:
  "tasks_of w m e t \<noteq> [] \<Longrightarrow> numbers t < numbers (fst (run_effect w m e t))"
  by (cases e)
    (auto simp: tasks_of_def run_effect_def run_upload_def upload_admitted_def spawn_fetch_def
      spawn_task_def claim_def Let_def split_beta split: sum.splits option.splits if_splits)

text \<open>
  Every fetch in flight carries the generation of at most \<open>hi\<close> invalidations ago, and task
  numbers are not used twice.
\<close>

definition tokens_behind :: "nat \<Rightarrow> EffectTask \<Rightarrow> bool" where
  "tokens_behind hi t \<longleftrightarrow> (\<forall>n task. (n, task) \<in> set (operator_tasks t) \<longrightarrow> n < numbers t \<and>
     (\<forall>kind token. task = FetchTask kind token \<longrightarrow>
        (\<exists>j\<le>hi. generation t = token + of_nat j)))"

text \<open>Task \<open>n\<close> is gone or still the fetch with the token, which is stale.\<close>

definition abandoned :: "nat \<Rightarrow> FetchKind \<Rightarrow> u64 \<Rightarrow> nat \<Rightarrow> EffectTask \<Rightarrow> bool" where
  "abandoned n kind token hi t \<longleftrightarrow> n < numbers t \<and>
     (map_of (operator_tasks t) n = None \<or> map_of (operator_tasks t) n = Some (FetchTask kind token)) \<and>
     (\<exists>j. 1 \<le> j \<and> j \<le> hi \<and> generation t = token + of_nat j)"

lemma behind_mono:
  assumes "\<exists>j. lo \<le> j \<and> j \<le> hi \<and> g = token + of_nat j" and "g' \<in> {g, g + 1 :: u64}"
  shows "\<exists>j. lo \<le> j \<and> j \<le> Suc hi \<and> g' = token + of_nat j"
proof -
  obtain j where j: "lo \<le> j" "j \<le> hi" "g = token + of_nat j" using assms(1) by blast
  show ?thesis
  proof (cases "g' = g")
    case True then show ?thesis using j by (intro exI [of _ j]) simp
  next
    case False
    then show ?thesis using j assms(2) by (intro exI [of _ "Suc j"]) simp
  qed
qed

lemma token_stale:
  assumes "\<exists>j. 1 \<le> j \<and> j \<le> hi \<and> g = token + of_nat j" and "hi < 2 ^ 64"
  shows "\<not> is_current g token"
  using assms of_nat_word_eq_0 by (fastforce simp: is_current_def)

text \<open>A fetch whose token is stale stores nothing and tells the core nothing.\<close>

lemma settle_stale:
  "fst (settle_fetch fw kind False result) = None" "sent (snd (settle_fetch fw kind False result)) = []"
  by (cases kind; cases result;
      simp add: settle_fetch_def question_fetch.stale message_fetch.stale instructions_fetch.stale)+

text \<open>What one step can do to the tasks in flight.\<close>

definition tasks_change :: "u64 \<Rightarrow> EffectTask \<Rightarrow> EffectTask \<Rightarrow> bool" where
  "tasks_change min_ms t t' \<longleftrightarrow> numbers t \<le> numbers t' \<and>
    (operator_tasks t' = operator_tasks t \<or>
     (\<exists>w e. operator_tasks t' = operator_tasks t @ map (Pair (numbers t)) (tasks_of w min_ms e t) \<and>
        (tasks_of w min_ms e t \<noteq> [] \<longrightarrow> numbers t < numbers t' \<and> generation t' = generation t)) \<or>
     (\<exists>n. operator_tasks t' = filter (\<lambda>k. fst k \<noteq> n) (operator_tasks t)) \<or>
     (\<exists>n kind token clip es. map_of (operator_tasks t) n = Some (FetchTask kind token) \<and>
        is_current (generation t) token \<and>
        operator_tasks t' =
          map (\<lambda>k. if fst k = n then (n, StoreTask clip es) else k) (operator_tasks t)))"

lemma tasks_change_same [simp]: "tasks_change m t t"
  by (simp add: tasks_change_def)

lemma dispatch_tasks_change:
  assumes "t1 = t \<or> (\<exists>rest. t1 = t\<lparr>pending_effects := rest\<rparr>)"
  shows "tasks_change m t (fst (dispatch down w m e t1))"
proof -
  have pend: "tasks_of w m e t1 = tasks_of w m e t"
    using assms by (cases e) (auto simp: tasks_of_def upload_admitted_def)
  have stop: "tasks_of w m StopAudio t = []"
    by (simp add: tasks_of_def)
  have frame: "numbers t1 = numbers t" "operator_tasks t1 = operator_tasks t"
    "generation t1 = generation t"
    using assms by auto
  show ?thesis
    using run_effect_numbers [of t1 w m e] tasks_numbered [of w m e t1] frame
    by (auto simp: tasks_change_def dispatch_def run_effect_frame pend stop split_beta Let_def)
qed

lemma drop_tasks_change: "operator_tasks t1 = operator_tasks t \<Longrightarrow> numbers t1 = numbers t \<Longrightarrow>
    tasks_change m t (drop_task n t1)"
  by (auto simp: tasks_change_def drop_task_def)

lemma replace_tasks_change:
  assumes "map_of (operator_tasks t) n = Some (FetchTask kind token)"
    and "is_current (generation t) token"
  shows "tasks_change m t (replace_task n (StoreTask clip es) t)"
  unfolding tasks_change_def replace_task_def using assms by (simp, blast)

lemma step_tasks: "tasks_change min_ms t (fst (effect_step min_ms t i))"
proof (cases i)
  case (Arrived down w received)
  then show ?thesis
    using dispatch_tasks_change [of t t min_ms down w]
    by (auto simp: effect_step_def tasks_change_def [of _ _ "_\<lparr>pending_effects := _\<rparr>"]
        tasks_change_def [of _ _ "_\<lparr>rx_closed := _\<rparr>"] split: option.split)
next
  case (Resumed down w)
  then show ?thesis
    using dispatch_tasks_change [of "t\<lparr>pending_effects := _\<rparr>" t min_ms down w]
    by (auto simp: effect_step_def split: list.split)
next
  case (FetchAnswered fw n result)
  show ?thesis
  proof (cases "map_of (operator_tasks t) n")
    case None
    then show ?thesis by (simp add: effect_step_def FetchAnswered)
  next
    case (Some task)
    show ?thesis
    proof (cases task)
      case (FetchTask kind token)
      let ?settled = "settle_fetch fw kind (is_current (generation t) token) result"
      show ?thesis
      proof (cases "fst ?settled")
        case None
        then show ?thesis
          using Some FetchTask FetchAnswered
          by (simp add: effect_step_def drop_tasks_change split_beta Let_def)
      next
        case (Some clip)
        then have "is_current (generation t) token"
          using settle_stale(1) [of fw kind result] by (cases "is_current (generation t) token") auto
        then show ?thesis
          using Some \<open>map_of (operator_tasks t) n = Some task\<close> FetchTask FetchAnswered
          by (simp add: effect_step_def replace_tasks_change split_beta Let_def)
      qed
    qed (simp_all add: effect_step_def FetchAnswered Some)
  qed
next
  case (FetchStores n)
  then show ?thesis
    by (auto simp: effect_step_def intro!: drop_tasks_change split: option.split OperatorTask.split)
qed (auto simp: effect_step_def tasks_change_def drop_task_def split: option.split)

lemma tokens_behind_step:
  assumes "tokens_behind hi t"
  shows "tokens_behind (Suc hi) (fst (effect_step m t i))"
proof -
  let ?t' = "fst (effect_step m t i)"
  have known: "n < numbers ?t' \<and> (\<forall>kind token. task = FetchTask kind token \<longrightarrow>
      (\<exists>j\<le>Suc hi. generation ?t' = token + of_nat j))" if "(n, task) \<in> set (operator_tasks t)" for n task
  proof -
    have "n < numbers t" and "\<And>kind token. task = FetchTask kind token \<Longrightarrow>
        \<exists>j. 0 \<le> j \<and> j \<le> hi \<and> generation t = token + of_nat j"
      using assms that by (auto simp: tokens_behind_def)
    then show ?thesis
      using step_tasks [of m t i] behind_mono [of 0 hi "generation t" _ "generation ?t'"]
        step_generation [of m t i]
      by (fastforce simp: tasks_change_def)
  qed
  have fresh: "\<exists>j\<le>Suc hi. g = g + of_nat j" for g :: u64
    by (intro exI [of _ 0]) simp
  have new: "token = generation t" if "FetchTask kind token \<in> set (tasks_of w m e t)" for w e kind token
    using that by (cases e) (auto simp: tasks_of_def split: if_splits)
  have "numbers t \<le> numbers ?t'"
    using step_tasks [of m t i] by (simp add: tasks_change_def)
  consider
      (same) "set (operator_tasks ?t') \<subseteq> set (operator_tasks t)"
    | (spawn) w e where
        "operator_tasks ?t' = operator_tasks t @ map (Pair (numbers t)) (tasks_of w m e t)"
        "tasks_of w m e t \<noteq> []" "numbers t < numbers ?t'" "generation ?t' = generation t"
    | (store) n clip es where
        "operator_tasks ?t' =
          map (\<lambda>k. if fst k = n then (n, StoreTask clip es) else k) (operator_tasks t)"
  proof -
    have "tasks_change m t ?t'" by (rule step_tasks)
    then consider
        "operator_tasks ?t' = operator_tasks t"
      | w e where
        "operator_tasks ?t' = operator_tasks t @ map (Pair (numbers t)) (tasks_of w m e t)"
        "tasks_of w m e t \<noteq> [] \<longrightarrow> numbers t < numbers ?t' \<and> generation ?t' = generation t"
      | n where "operator_tasks ?t' = filter (\<lambda>k. fst k \<noteq> n) (operator_tasks t)"
      | n clip es where
        "operator_tasks ?t' =
          map (\<lambda>k. if fst k = n then (n, StoreTask clip es) else k) (operator_tasks t)"
      unfolding tasks_change_def by blast
    then show thesis
    proof cases
      case 2
      then show thesis by (cases "tasks_of w m e t = []") (use same spawn in auto)
    qed (use same store in auto)
  qed
  then show ?thesis
  proof cases
    case same
    then show ?thesis using known by (auto simp: tokens_behind_def)
  next
    case spawn
    then show ?thesis
      using known new fresh by (fastforce simp: tokens_behind_def)
  next
    case store
    then show ?thesis
      using known by (fastforce simp: tokens_behind_def split: if_splits)
  qed
qed

lemma tokens_behind_run:
  "tokens_behind hi t \<Longrightarrow> tokens_behind (hi + length is) (fst (effect_run m t is))"
proof (induction "is" arbitrary: t hi)
  case (Cons i "is")
  show ?case
    using Cons.IH [OF tokens_behind_step [OF Cons.prems, of m i]] by simp
qed simp

lemma abandoned_step:
  assumes "abandoned n kind token hi t" and "hi < 2 ^ 64"
  shows "abandoned n kind token (Suc hi) (fst (effect_step m t i))"
proof -
  let ?t' = "fst (effect_step m t i)"
  have behind: "\<exists>j. 1 \<le> j \<and> j \<le> hi \<and> generation t = token + of_nat j"
    using assms(1) by (simp add: abandoned_def)
  have stale: "\<not> is_current (generation t) token"
    using behind assms(2) by (rule token_stale)
  have "\<exists>j. 1 \<le> j \<and> j \<le> Suc hi \<and> generation ?t' = token + of_nat j"
    using behind step_generation by (rule behind_mono)
  moreover have "n < numbers ?t'"
    using assms(1) step_tasks [of m t i] by (auto simp: abandoned_def tasks_change_def)
  moreover have "map_of (operator_tasks ?t') n = None \<or>
      map_of (operator_tasks ?t') n = Some (FetchTask kind token)"
  proof -
    have "n < numbers t" and known: "map_of (operator_tasks t) n = None \<or>
        map_of (operator_tasks t) n = Some (FetchTask kind token)"
      using assms(1) by (simp_all add: abandoned_def)
    have "map_of (map (Pair (numbers t)) xs) n = None" for xs :: "OperatorTask list"
      using \<open>n < numbers t\<close> by (auto simp: map_of_eq_None_iff)
    then show ?thesis
      using step_tasks [of m t i] known stale
      by (auto simp: tasks_change_def map_of_drop map_of_replace map_add_def split: if_splits)
  qed
  ultimately show ?thesis by (simp add: abandoned_def)
qed

lemma abandoned_run:
  "abandoned n kind token hi t \<Longrightarrow> hi + length is < 2 ^ 64 \<Longrightarrow>
   abandoned n kind token (hi + length is) (fst (effect_run m t is))"
proof (induction "is" arbitrary: t hi)
  case (Cons i "is")
  then show ?case
    using Cons.IH [OF abandoned_step [OF Cons.prems(1), of m i]] by simp
qed simp

text \<open>C17. A fetch that is waiting for the operator when the audio is stopped (the caller hung up or
  dialed again) comes to nothing: whatever happens afterwards, its clip is never stored, and when its
  answer arrives the state machine is told nothing. (Fewer than \<open>2^64\<close> steps, as the generation is a
  wrapping counter.)\<close>
theorem abandoned_fetch_discarded:
  assumes "map_of (operator_tasks (fst (effect_run m (effect_new gen claimed) pre))) n =
      Some (FetchTask kind token)"
    and "takes (fst (effect_run m (effect_new gen claimed) pre)) (Arrived False w (Some StopAudio)) =
      [StopAudio]"
    and "length pre + length post + 1 < 2 ^ 64"
  defines "t \<equiv> fst (effect_run m (effect_new gen claimed)
      (pre @ Arrived False w (Some StopAudio) # post))"
  shows "(map_of (operator_tasks t) n = None \<or> map_of (operator_tasks t) n = Some (FetchTask kind token)) \<and>
    (\<forall>fw result e. ToCore e \<notin> set (snd (effect_step m t (FetchAnswered fw n result))))"
proof -
  let ?t0 = "fst (effect_run m (effect_new gen claimed) pre)"
  let ?t1 = "fst (effect_step m ?t0 (Arrived False w (Some StopAudio)))"
  have "tokens_behind (0 + length pre) ?t0"
    by (rule tokens_behind_run) (simp add: tokens_behind_def effect_new_def)
  then obtain j where j: "n < numbers ?t0" "j \<le> length pre" "generation ?t0 = token + of_nat j"
    using map_of_SomeD [OF assms(1)] unfolding tokens_behind_def add_0 by blast
  have "?t1 = fst (run_effect w m StopAudio ?t0)"
    using assms(2) by (auto simp: effect_step_def takes_def dispatch_def is_operator_effect_def
        split_beta Let_def split: if_splits)
  then have "abandoned n kind token (Suc (length pre)) ?t1"
    using assms(1) j
    by (auto simp: abandoned_def run_effect_def invalidate_def intro!: exI [of _ "Suc j"])
  then have gone: "abandoned n kind token (Suc (length pre) + length post) t"
    using abandoned_run [of n kind token "Suc (length pre)" ?t1 post m] assms(3)
    by (simp add: t_def run_machine_append)
  then have "\<not> is_current (generation t) token"
    using assms(3) by (intro token_stale [of "Suc (length pre) + length post"]) (simp_all add: abandoned_def)
  moreover have "ToCore e \<notin> set (concat (map out_of_action acts))" if "sent acts = []" for e acts
    using that by (induction acts) (auto simp: out_of_action_def split: Action.splits)
  ultimately have "ToCore e \<notin> set (snd (effect_step m t (FetchAnswered fw n result)))" for fw result e
    using gone settle_stale [of fw kind result]
    by (auto simp: abandoned_def effect_step_def split_beta Let_def)
  then show ?thesis using gone by (auto simp: abandoned_def)
qed

section \<open>Witnesses and the gaps of the generation check\<close>

text \<open>Adapters that succeed, for concrete runs.\<close>

definition good_world :: World where
  "good_world =
     \<lparr>start_answer = Inr (), stop_answer = Inr (Some ''r''), session_now = None, file_bytes = Some 9,
      path_answer = Inr ''r.flac'', duration_answer = Some 5000, led_answer = Inr (),
      reboot_answer = Inr (), poweroff_answer = Inr (), status_writer_alive = True,
      shutting_down = False, clock_ns = 0\<rparr>"

abbreviation arrive :: "Effect \<Rightarrow> EffectInput" where
  "arrive e \<equiv> Arrived False good_world (Some e)"

definition clip_question :: "string \<Rightarrow> OperatorQuestion" where
  "clip_question q =
     \<lparr>OperatorQuestion.question_id = q, question_audio_url = ''https://x/q'', question_audio_sha256 = None,
      description = None\<rparr>"

definition no_files :: FetchWorld where
  "no_files = \<lparr>is_file = (\<lambda>_. False), recordings_dir = ''/var''\<rparr>"

lemmas effect_eval = effect_step_def effect_new_def busy_def held_up_def OPERATOR_CONCURRENCY_def
  dispatch_def run_effect_def spawn_fetch_def spawn_task_def is_operator_effect_def current_token_def
  invalidate_def drop_task_def replace_task_def is_current_def settle_fetch_def takes_def
  arm_recording_timeout_def cancel_recording_timeout_def abort_timer_def resolve_audio_ref_def





theorem abandoned_fetch_discarded_witness:
  "map_of (operator_tasks (fst (effect_run 0 (effect_new 0 {})
     ([arrive FetchRandomMessage] @ arrive StopAudio # [arrive FetchRandomMessage])))) 0 \<in>
   {None, Some (FetchTask Message 0)}"
  using abandoned_fetch_discarded [of 0 0 "{}" "[arrive FetchRandomMessage]" 0 Message 0 good_world
      "[arrive FetchRandomMessage]"]
  by (simp add: run_machine.simps(2) effect_eval del: run_machine_Cons)

text \<open>The check has a gap before it: a fetch that is put aside while four operator tasks are in
  flight takes its token only when it is started. If the caller hangs up in between, the fetch is
  started with the generation of the next call, its answer is taken for current, and the next caller,
  who has only lifted the handset, is rung with a question nobody has asked for.\<close>
theorem parked_fetch_reaches_next_caller:
  "case effect_run 0 (effect_new 0 {})
     (replicate 4 (arrive FetchRandomMessage) @
      [arrive FetchRandomQuestion, arrive StopAudio, Joined 0, Resumed False good_world,
       FetchAnswered no_files 4 (QuestionResult (Inr (clip_question ''q''))), FetchStores 4])
   of (t, outs) \<Rightarrow>
     next_clip t = Some (RemoteUrl ''https://x/q'' None) \<and>
     dropWhile (\<lambda>out. out \<noteq> ToAudio Stop) outs =
       [ToAudio Stop, Executed FetchRandomQuestion, ToCore (QuestionReady ''q'')] \<and>
     fst (handle (fst (handle State.Idle HookOff)) (QuestionReady ''q'')) = RingingQuestion ''q''"
  by (simp add: run_machine.simps(2) effect_eval settle_random_question_def operator_audio_ref_def clip_question_def
      no_files_def numeral_eq_Suc handle_def handle_with_call_availability_def available_defs
      status_led_for_def del: run_machine_Cons)

text \<open>And a gap after it: the check and the store are separate steps, so a caller who hangs up
  between them leaves the clip of the abandoned call stored and its event sent.\<close>
theorem checked_fetch_outlives_hangup:
  "case effect_run 0 (effect_new 0 {})
     [arrive FetchRandomQuestion,
      FetchAnswered no_files 0 (QuestionResult (Inr (clip_question ''q''))),
      arrive StopAudio, FetchStores 0]
   of (t, outs) \<Rightarrow>
     next_clip t = Some (RemoteUrl ''https://x/q'' None) \<and>
     outs = [Executed FetchRandomQuestion, Executed StopAudio, ToAudio Stop, ToCore (QuestionReady ''q'')]"
  by (simp add: run_machine.simps(2) effect_eval settle_random_question_def operator_audio_ref_def clip_question_def
      no_files_def del: run_machine_Cons)

end
