(* ===== verification/Replay.thy ===== *)
theory Replay
  imports OperatorCalls PendingUploads "HOL-Library.Multiset" "HOL-Library.List_Lexorder" "HOL-Library.Char_ord"
begin

text \<open>
  The replay of answers whose upload was interrupted, \<open>spawn_upload_replay\<close> of
  \<open>crates/booth-bin/src/lib.rs\<close>. A sweep visits the entries of the spool in the order of their ids,
  starting behind the last one attempted; what other tasks, the gate, the file system and the operator
  say when an entry is visited is its \<open>EntryWorld\<close>.
\<close>

section \<open>The order of a sweep\<close>

abbreviation entry_id :: "SpoolEntry \<Rightarrow> string" where
  "entry_id \<equiv> SpoolEntry.recording_id"

fun position :: "('a \<Rightarrow> bool) \<Rightarrow> 'a list \<Rightarrow> nat option" where
  "position p [] = None"
| "position p (x # xs) = (if p x then Some 0 else map_option Suc (position p xs))"

definition sweep_order :: "string option \<Rightarrow> SpoolEntry list \<Rightarrow> SpoolEntry list" where
  "sweep_order last_attempt scanned =
     (let entries = sort_key entry_id scanned in
      case last_attempt of
        None \<Rightarrow> entries
      | Some l \<Rightarrow>
          rotate (case position (\<lambda>e. l < entry_id e) entries of Some n \<Rightarrow> n | None \<Rightarrow> 0) entries)"

section \<open>A sweep\<close>

record EntryWorld =
  open_gate :: bool                    \<comment> \<open>\<open>installation.accepting_calls()\<close>\<close>
  unclaimed :: bool                    \<comment> \<open>no foreground upload holds the claim\<close>
  still_there :: "bool option"         \<comment> \<open>\<open>spool.contains\<close>; \<open>None\<close>: it failed\<close>
  file_len :: "u64 option"             \<comment> \<open>\<open>fs::metadata\<close>\<close>
  replies :: UploadAnswers

definition replay_call :: "SpoolEntry \<Rightarrow> u64 \<Rightarrow> UploadCall" where
  "replay_call entry len =
     \<lparr>UploadCall.path = SpoolEntry.path entry, has_event_tx = False, upload_id = entry_id entry,
      upload_question = SpoolEntry.question_id entry, session = None, upload_bytes = len,
      recording_ms = SpoolEntry.duration_ms entry, elapsed = 0, clock = 0, has_source = True\<rparr>"

definition entry_bytes :: "EntryWorld \<Rightarrow> SpoolEntry \<Rightarrow> u64 option" where
  "entry_bytes w entry = (case SpoolEntry.size_bytes entry of Some n \<Rightarrow> Some n | None \<Rightarrow> file_len w)"

text \<open>The \<open>for\<close> loop; the result is \<open>last_attempt\<close> and what was done.\<close>

fun sweep ::
    "string option \<Rightarrow> (EntryWorld \<times> SpoolEntry) list \<Rightarrow> string option \<times> Action list" where
  "sweep last_attempt [] = (last_attempt, [])"
| "sweep last_attempt ((w, entry) # rest) =
     (if \<not> open_gate w then (last_attempt, [])
      else if \<not> unclaimed w then sweep last_attempt rest
      else if still_there w \<noteq> Some True then sweep last_attempt rest
      else
        (case entry_bytes w entry of
           None \<Rightarrow> sweep (Some (entry_id entry)) rest
         | Some len \<Rightarrow>
             (let (success, acts) = upload_recording (replies w) (replay_call entry len) in
              if success then
                (let (l, more) = sweep (Some (entry_id entry)) rest
                 in (l, acts @ [DequeueSpool (entry_id entry)] @ more))
              else (Some (entry_id entry), acts))))"

section \<open>The task\<close>

record ReplayTask =
  was_available :: bool
  last_attempt :: "string option"

text \<open>
  The 30-second tick, or a change of the gate; the flags are \<open>accepting_calls()\<close> when the change is
  looked at and before the sweep. \<open>scanned\<close> is \<open>None\<close> when the scan failed; \<open>world\<close> gives each visited
  entry its circumstances.
\<close>

datatype ReplayInput =
    Interval bool "SpoolEntry list option" "SpoolEntry \<Rightarrow> EntryWorld"
  | GateChange bool bool "SpoolEntry list option" "SpoolEntry \<Rightarrow> EntryWorld"

definition replay_sweep ::
    "bool \<Rightarrow> SpoolEntry list option \<Rightarrow> (SpoolEntry \<Rightarrow> EntryWorld) \<Rightarrow> ReplayTask \<Rightarrow>
     ReplayTask \<times> Action list" where
  "replay_sweep available scanned world t =
     (let t1 = t\<lparr>was_available := available\<rparr> in
      if \<not> available then (t1, [])
      else case scanned of
        None \<Rightarrow> (t1, [])
      | Some entries \<Rightarrow>
          (let (l, acts) = sweep (last_attempt t)
                 (map (\<lambda>e. (world e, e)) (sweep_order (last_attempt t) entries))
           in (t1\<lparr>last_attempt := l\<rparr>, acts)))"

definition replay_step :: "ReplayTask \<Rightarrow> ReplayInput \<Rightarrow> ReplayTask \<times> Action list" where
  "replay_step t input = (case input of
     Interval available scanned world \<Rightarrow> replay_sweep available scanned world t
   | GateChange changed_to available scanned world \<Rightarrow>
       (if changed_to \<and> \<not> was_available t
        then replay_sweep available scanned world (t\<lparr>was_available := changed_to\<rparr>)
        else (t\<lparr>was_available := changed_to\<rparr>, [])))"

section \<open>The order is a fair one\<close>

lemma position_takeWhile:
  "position p xs = (if \<exists>x\<in>set xs. p x then Some (length (takeWhile (\<lambda>x. \<not> p x) xs)) else None)"
  by (induction xs) auto

lemma sorted_split:
  "sorted (map f xs) \<Longrightarrow> takeWhile (\<lambda>x. \<not> (l :: 'b :: linorder) < f x) xs = filter (\<lambda>x. f x \<le> l) xs \<and>
   dropWhile (\<lambda>x. \<not> l < f x) xs = filter (\<lambda>x. l < f x) xs"
proof (induction xs)
  case (Cons x xs)
  then show ?case
  proof (cases "l < f x")
    case True
    then have "\<forall>y\<in>set xs. l < f y" using Cons.prems by auto
    then show ?thesis using True by (auto simp: filter_empty_conv not_le)
  qed (auto simp: not_less)
qed simp

lemma sweep_order_split:
  "sweep_order (Some l) scanned =
     filter (\<lambda>e. l < entry_id e) (sort_key entry_id scanned) @
     filter (\<lambda>e. entry_id e \<le> l) (sort_key entry_id scanned)"
proof -
  let ?es = "sort_key entry_id scanned"
  have split: "takeWhile (\<lambda>e. \<not> l < entry_id e) ?es = filter (\<lambda>e. entry_id e \<le> l) ?es"
    "dropWhile (\<lambda>e. \<not> l < entry_id e) ?es = filter (\<lambda>e. l < entry_id e) ?es"
    using sorted_split [of entry_id ?es l] by simp_all
  show ?thesis
  proof (cases "\<exists>e\<in>set ?es. l < entry_id e")
    case True
    have "rotate (length (takeWhile (\<lambda>e. \<not> l < entry_id e) ?es)) ?es =
        dropWhile (\<lambda>e. \<not> l < entry_id e) ?es @ takeWhile (\<lambda>e. \<not> l < entry_id e) ?es"
      by (metis rotate_append takeWhile_dropWhile_id)
    then show ?thesis
      using True by (simp only: sweep_order_def position_takeWhile split Let_def option.case if_True set_sort)
  next
    case False
    then have "filter (\<lambda>e. l < entry_id e) ?es = []" "filter (\<lambda>e. entry_id e \<le> l) ?es = ?es"
      by (auto simp: filter_empty_conv not_less intro!: filter_True)
    moreover have "position (\<lambda>e. l < entry_id e) ?es = None"
      using False by (simp add: position_takeWhile)
    ultimately show ?thesis
      by (simp add: sweep_order_def Let_def)
  qed
qed

lemma mset_sweep_order: "mset (sweep_order l scanned) = mset scanned"
proof -
  have rot: "mset (rotate n xs) = mset xs" for n and xs :: "SpoolEntry list"
    by (metis mset_append append_take_drop_id rotate_drop_take add.commute)
  show ?thesis by (cases l) (simp_all add: sweep_order_def Let_def rot)
qed

section \<open>What a sweep does to the answers\<close>

lemma replay_upload:
  "upload_recording w (replay_call e len) = (ok, acts) \<Longrightarrow>
   sent acts = [] \<and> dequeued acts = [] \<and> cleaned acts = (if ok then [entry_id e] else []) \<and>
   (ok \<longrightarrow> confirmed w (replay_call e len))"
  using upload_recording_result [of "replay_call e len" w]
    upload_recording_dequeues_nothing [of w "replay_call e len"]
  by (auto simp: replay_call_def)

definition delivered :: "(EntryWorld \<times> SpoolEntry) list \<Rightarrow> string \<Rightarrow> bool" where
  "delivered ws rid \<longleftrightarrow> (\<exists>(w, e) \<in> set ws. entry_id e = rid \<and> open_gate w \<and> unclaimed w \<and>
     still_there w = Some True \<and>
     (\<exists>len. entry_bytes w e = Some len \<and> confirmed (replies w) (replay_call e len)))"

lemma delivered_Cons: "delivered ws rid \<Longrightarrow> delivered (x # ws) rid"
  by (auto simp: delivered_def)

text \<open>A replay sweep removes an answer from the spool only when the operator has confirmed its upload
  in this sweep, with admission open and no foreground upload of it in flight; it removes the recording's
  metadata for just the same answers, and tells the state machine nothing.\<close>
theorem sweep_keeps_answers:
  "case sweep l ws of (l', acts) \<Rightarrow>
     list_all (delivered ws) (dequeued acts) \<and> cleaned acts = dequeued acts \<and> sent acts = []"
proof (induction l ws rule: sweep.induct)
  case (1 l)
  then show ?case by simp
next
  case (2 l w e rest)
  have weaken: "list_all (delivered rest) xs \<Longrightarrow> list_all (delivered ((w, e) # rest)) xs" for xs
    by (auto simp: list_all_iff intro: delivered_Cons)
  show ?case
  proof (cases "open_gate w \<and> unclaimed w \<and> still_there w = Some True")
    case False
    then show ?thesis
      using 2(1,2) weaken by (auto simp: split_beta)
  next
    case True
    show ?thesis
    proof (cases "entry_bytes w e")
      case None
      then show ?thesis using True 2(3) weaken by (auto simp: split_beta)
    next
      case (Some len)
      obtain ok acts where up: "upload_recording (replies w) (replay_call e len) = (ok, acts)"
        by (cases "upload_recording (replies w) (replay_call e len)")
      note this_upload = replay_upload [OF up]
      show ?thesis
      proof (cases ok)
        case False
        then show ?thesis using True Some up this_upload by simp
      next
        case ok: True
        have "delivered ((w, e) # rest) (entry_id e)"
          using True Some ok this_upload by (auto simp: delivered_def)
        then show ?thesis
          using True Some up ok this_upload 2(4) [OF _ _ _ Some up [symmetric]] weaken
          by (auto simp: split_beta Let_def)
      qed
    qed
  qed
qed

section \<open>No answer is starved\<close>

text \<open>An outage: every entry can be attempted and every attempt fails.\<close>

definition outage :: "(SpoolEntry \<Rightarrow> EntryWorld) \<Rightarrow> bool" where
  "outage world \<longleftrightarrow> (\<forall>e. open_gate (world e) \<and> unclaimed (world e) \<and> still_there (world e) = Some True \<and>
     (\<exists>len. entry_bytes (world e) e = Some len \<and> \<not> confirmed (replies (world e)) (replay_call e len)))"

lemma outage_sweep:
  assumes "outage world" and "es \<noteq> []"
  shows "fst (sweep l (map (\<lambda>e. (world e, e)) es)) = Some (entry_id (hd es))"
proof -
  obtain e rest where es: "es = e # rest" using assms(2) by (cases es) auto
  obtain len where len: "entry_bytes (world e) e = Some len"
    "\<not> confirmed (replies (world e)) (replay_call e len)"
    using assms(1) unfolding outage_def by blast
  have "\<not> fst (upload_recording (replies (world e)) (replay_call e len))"
    using len replay_upload [of "replies (world e)" e len]
    by (cases "upload_recording (replies (world e)) (replay_call e len)") auto
  then show ?thesis
    using assms(1) len es by (simp add: outage_def split_beta Let_def)
qed

lemma filter_greater_sorted:
  assumes "sorted xs" and "distinct xs" and "i < length xs"
  shows "filter (\<lambda>x. xs ! i < x) xs = drop (Suc i) (xs :: 'a :: linorder list)"
proof -
  have strict: "sorted_wrt (<) xs"
    using assms(1,2) by (simp add: strict_sorted_iff)
  have "\<not> xs ! i < y" if y: "y \<in> set (take (Suc i) xs)" for y
  proof -
    obtain k where k: "k \<le> i" "y = xs ! k"
      using y by (auto simp: in_set_conv_nth less_Suc_eq_le)
    then have "y \<le> xs ! i"
      using assms(1,3) by (simp add: sorted_iff_nth_mono)
    then show ?thesis by simp
  qed
  then have low: "filter (\<lambda>x. xs ! i < x) (take (Suc i) xs) = []"
    by (simp add: filter_empty_conv)
  have "xs ! i < y" if y: "y \<in> set (drop (Suc i) xs)" for y
  proof -
    obtain k where "k < length (drop (Suc i) xs)" "y = drop (Suc i) xs ! k"
      using y by (auto simp: in_set_conv_nth)
    then have "Suc i + k < length xs" "y = xs ! (Suc i + k)" by simp_all
    then show ?thesis
      using sorted_wrt_nth_less [OF strict, of i "Suc i + k"] by simp
  qed
  then have "filter (\<lambda>x. xs ! i < x) (drop (Suc i) xs) = drop (Suc i) xs"
    by simp
  then show ?thesis
    using low filter_append [of "\<lambda>x. xs ! i < x" "take (Suc i) xs" "drop (Suc i) xs"]
    by (simp only: append_take_drop_id append_Nil)
qed

lemma sorted_ids: "map entry_id (sort_key entry_id scanned) = sort (map entry_id scanned)"
  by (rule properties_for_sort [symmetric]) simp_all

lemma hd_sweep_order:
  assumes "distinct (map entry_id scanned)" and "i < length scanned"
  defines "ids \<equiv> sort (map entry_id scanned)"
  shows "entry_id (hd (sweep_order (Some (ids ! i)) scanned)) = ids ! (Suc i mod length ids)"
proof -
  let ?es = "sort_key entry_id scanned"
  have ids: "map entry_id ?es = ids"
    unfolding ids_def by (rule sorted_ids)
  have sd: "sorted ids" "distinct ids" "i < length ids" "length ids = length scanned"
    unfolding ids_def using assms(1,2) by (simp_all only: sorted_sort distinct_sort length_sort length_map)
  have map_filter_ids: "map entry_id (filter (\<lambda>e. p (entry_id e)) ?es) = filter p ids" for p
    unfolding ids [symmetric] by (simp add: filter_map o_def)
  have greater: "map entry_id (filter (\<lambda>e. ids ! i < entry_id e) ?es) = drop (Suc i) ids"
    using filter_greater_sorted [OF sd(1-3)] map_filter_ids [of "\<lambda>x. ids ! i < x"] by simp
  have le: "map entry_id (filter (\<lambda>e. entry_id e \<le> ids ! i) ?es) = filter (\<lambda>x. x \<le> ids ! i) ids"
    by (rule map_filter_ids)
  have "map entry_id (sweep_order (Some (ids ! i)) scanned) =
      drop (Suc i) ids @ filter (\<lambda>x. x \<le> ids ! i) ids"
    by (simp add: sweep_order_split greater le)
  moreover have "hd (drop (Suc i) ids @ filter (\<lambda>x. x \<le> ids ! i) ids) = ids ! (Suc i mod length ids)"
  proof (cases "Suc i < length ids")
    case True
    then show ?thesis by (simp add: hd_append hd_drop_conv_nth)
  next
    case False
    then have i: "Suc i = length ids" using sd(3) by simp
    then have "ids ! 0 \<le> ids ! i" using sd(1) by (intro sorted_nth_mono) simp_all
    then show ?thesis using i by (cases ids) simp_all
  qed
  moreover have "sweep_order (Some (ids ! i)) scanned \<noteq> []"
    using assms(2) mset_sweep_order [of "Some (ids ! i)" scanned] by auto
  ultimately show ?thesis by (metis hd_map)
qed

text \<open>C30. During an outage no pending answer starves: sweep after sweep, the task attempts the answers in the
  order of their ids, one per sweep, and starts over behind the last, so that each of \<open>n\<close> answers
  is attempted in every \<open>n\<close> sweeps.\<close>
theorem outage_is_fair:
  assumes "outage world" and "scanned \<noteq> []" and "distinct (map entry_id scanned)"
  shows "last_attempt (((\<lambda>t. fst (replay_step t (Interval True (Some scanned) world))) ^^ Suc k)
      \<lparr>was_available = False, last_attempt = None\<rparr>) =
    Some (sort (map entry_id scanned) ! (k mod length scanned))"
proof (induction k)
  case 0
  have nonempty: "sort_key entry_id scanned \<noteq> []"
    using assms(2) by (metis length_0_conv length_sort)
  have "entry_id (hd (sort_key entry_id scanned)) = hd (map entry_id (sort_key entry_id scanned))"
    using nonempty by (rule hd_map [symmetric])
  also have "\<dots> = sort (map entry_id scanned) ! 0"
    unfolding sorted_ids using assms(2)
    by (intro hd_conv_nth) (metis length_0_conv length_map length_sort)
  finally have "entry_id (hd (sort_key entry_id scanned)) = sort (map entry_id scanned) ! 0" .
  then show ?case
    using outage_sweep [OF assms(1) nonempty, of None]
    by (simp add: replay_step_def replay_sweep_def sweep_order_def split_beta Let_def)
next
  case (Suc k)
  let ?t = "((\<lambda>t. fst (replay_step t (Interval True (Some scanned) world))) ^^ Suc k)
      \<lparr>was_available = False, last_attempt = None\<rparr>"
  let ?ids = "sort (map entry_id scanned)"
  have "sweep_order (last_attempt ?t) scanned \<noteq> []"
    using assms(2) mset_sweep_order [of "last_attempt ?t" scanned] by auto
  then have "last_attempt (fst (replay_step ?t (Interval True (Some scanned) world))) =
      Some (entry_id (hd (sweep_order (last_attempt ?t) scanned)))"
    using outage_sweep [OF assms(1)]
    by (simp only: replay_step_def replay_sweep_def split_beta Let_def) simp
  also have "\<dots> = Some (?ids ! (Suc (k mod length scanned) mod length ?ids))"
    using hd_sweep_order [OF assms(3), of "k mod length scanned"] assms(2) Suc.IH by simp
  finally show ?case by (simp add: mod_Suc_eq)
qed

text \<open>An operator that can not be reached.\<close>

definition unreachable :: "u32 \<Rightarrow> 't exchange" where
  "unreachable _ = \<lparr>seq = 0, answer = Inl (Transport ''down''), took_ms = 1\<rparr>"

definition outage_world :: "SpoolEntry \<Rightarrow> EntryWorld" where
  "outage_world e =
     \<lparr>open_gate = True, unclaimed = True, still_there = Some True, file_len = Some 1,
      replies = \<lparr>init_answers = unreachable, put_answers = unreachable, complete_answers = unreachable\<rparr>\<rparr>"

lemma outage_world_outage: "outage outage_world"
  by (auto simp: outage_def outage_world_def entry_bytes_def confirmed_def init_result_def is_ok_def
      is_duplicate_def retry_operator_unrolled unreachable_def retryable_def
      is_retryable_operator_error_def Let_def split: option.split)

theorem outage_is_fair_witness:
  "last_attempt (((\<lambda>t. fst (replay_step t
       (Interval True (Some [plain_entry ''b'', plain_entry ''a'']) outage_world))) ^^ Suc 1)
      \<lparr>was_available = False, last_attempt = None\<rparr>) = Some ''b''"
  using outage_is_fair [OF outage_world_outage, of "[plain_entry ''b'', plain_entry ''a'']" 1]
  by (simp add: plain_entry_def less_list_code)

end
