(* ===== verification/Config.thy ===== *)
theory Config
  imports Strings Gpio OperatorCalls
begin

text \<open>
  The runtime's configuration: the sections of \<open>RuntimeConfig\<close> with their defaults
  (\<open>crates/booth-bin/src/lib.rs\<close>, \<open>observability.rs\<close>, \<open>shelly.rs\<close>, \<open>weather.rs\<close>,
  \<open>crates/booth-pi/src/lib.rs\<close>, \<open>crates/booth-debug/src/lib.rs\<close>), the environment overrides and
  \<open>validate_config\<close>. The environment, the secret files and the parser of floating-point
  numbers are arguments; the Cargo features are flags. An error is its outermost message. Text
  is ASCII where it is trimmed or lower-cased.
\<close>

section \<open>Sections\<close>

record PowerButtonConfig =
  pb_enabled :: bool
  hold_ms :: u64

definition power_button_default :: PowerButtonConfig where
  "power_button_default = \<lparr>pb_enabled = False, hold_ms = 3000\<rparr>"

record StatusLedConfig =
  led_enabled :: bool
  red :: u8
  green :: u8
  blue :: u8
  active_low :: bool
  brightness :: f32_bits

definition status_led_default :: StatusLedConfig where
  "status_led_default =
     \<lparr>led_enabled = False, red = 5, green = 6, blue = 13, active_low = True, brightness = 0x3F800000\<rparr>"

record MixerControl =
  control_name :: string
  control_index :: u32
  playback_volume_percent :: "u8 option"
  capture_volume_percent :: "u8 option"
  playback_switch :: "bool option"
  capture_switch :: "bool option"
  switch :: "bool option"

record MixerConfig =
  mixer_card :: "string option"
  controls :: "MixerControl list"

record AudioConfig =
  device_substring :: "string option"
  audio_sample_rate_hz :: u32
  channels :: u16
  max_recording_secs :: u32
  min_recording_secs :: u32
  max_audio_download_bytes :: u64
  audio_recordings_dir :: string
  mixer :: "MixerConfig option"

definition audio_config_default :: AudioConfig where
  "audio_config_default =
     \<lparr>device_substring = Some ''Focusrite'', audio_sample_rate_hz = 48000, channels = 1,
      max_recording_secs = 60, min_recording_secs = 2, max_audio_download_bytes = 32 * 1024 * 1024,
      audio_recordings_dir = ''/var/lib/phone-booth/recordings'', mixer = None\<rparr>"

record OperatorConfig =
  base_url :: string
  token :: string
  status_topic :: string
  http_timeout_secs :: u64
  ws_reconnect_initial_ms :: u64
  ws_reconnect_max_ms :: u64
  allowed_audio_hosts :: "string list"
  max_audio_body_bytes :: u64
  allow_private_audio_hosts :: bool
  allow_http_audio :: bool
  allowed_upload_hosts :: "string list"
  max_upload_bytes :: u64

definition operator_config_default :: OperatorConfig where
  "operator_config_default =
     \<lparr>base_url = ''https://operator.example.com'', token = [], status_topic = ''booth-1'',
      http_timeout_secs = 10, ws_reconnect_initial_ms = 500, ws_reconnect_max_ms = 30000,
      allowed_audio_hosts = [], max_audio_body_bytes = 32 * 1024 * 1024,
      allow_private_audio_hosts = False, allow_http_audio = False, allowed_upload_hosts = [],
      max_upload_bytes = MAX_UPLOAD_BYTES\<rparr>"

record OperatorForwardConfig =
  forward_enabled :: bool
  batch_max :: nat
  flush_interval_ms :: u64
  buffer_max :: nat
  system_push_interval_ms :: u64
  heartbeat_interval_ms :: u64

definition operator_forward_default :: OperatorForwardConfig where
  "operator_forward_default =
     \<lparr>forward_enabled = True, batch_max = 200, flush_interval_ms = 2000, buffer_max = 4096,
      system_push_interval_ms = 5000, heartbeat_interval_ms = 30000\<rparr>"

record ObservabilityConfig =
  obs_enabled :: bool
  booth_id :: string
  sample_interval_ms :: u64
  operator_forward :: OperatorForwardConfig

definition observability_default :: ObservabilityConfig where
  "observability_default =
     \<lparr>obs_enabled = True, booth_id = ''booth-01'', sample_interval_ms = 5000,
      operator_forward = operator_forward_default\<rparr>"

record ShellyConfig =
  shelly_enabled :: bool
  shelly_device :: string
  shelly_endpoint :: string
  switch_id :: u8
  shelly_poll_interval_seconds :: u64
  shelly_request_timeout_seconds :: u64

definition shelly_default :: ShellyConfig where
  "shelly_default =
     \<lparr>shelly_enabled = False, shelly_device = ''vivosun_heat_mat'',
      shelly_endpoint = ''192.168.8.220'', switch_id = 0, shelly_poll_interval_seconds = 15,
      shelly_request_timeout_seconds = 5\<rparr>"

record WeatherConfig =
  weather_enabled :: bool
  latitude :: "f64_bits option"
  longitude :: "f64_bits option"
  weather_poll_interval_seconds :: u64
  weather_request_timeout_seconds :: u64

definition weather_default :: WeatherConfig where
  "weather_default =
     \<lparr>weather_enabled = False, latitude = None, longitude = None,
      weather_poll_interval_seconds = 600, weather_request_timeout_seconds = 15\<rparr>"

record RuntimeStartupConfig =
  mock :: bool
  simulator :: bool

record RuntimeConfig =
  gpio :: GpioConfig
  power_button :: PowerButtonConfig
  status_led :: StatusLedConfig
  audio_section :: AudioConfig
  operator :: OperatorConfig
  debug_allow_controls :: bool            \<comment> \<open>\<open>debug\<close>: the field the runtime reads\<close>
  journal_level :: string
  observability :: ObservabilityConfig
  shelly_section :: ShellyConfig
  weather :: WeatherConfig
  runtime :: RuntimeStartupConfig
  debug_token :: "string option"

definition runtime_config_default :: RuntimeConfig where
  "runtime_config_default =
     \<lparr>gpio = gpio_config_default, power_button = power_button_default,
      status_led = status_led_default, audio_section = audio_config_default,
      operator = operator_config_default, debug_allow_controls = False, journal_level = ''info'',
      observability = observability_default, shelly_section = shelly_default,
      weather = weather_default, runtime = \<lparr>mock = False, simulator = False\<rparr>, debug_token = None\<rparr>"

section \<open>Parsing\<close>

definition parse_bool :: "string \<Rightarrow> (bool, string) result" where
  "parse_bool value =
     (let v = map ascii_lower (trim value) in
      if v = ''1'' \<or> v = ''true'' \<or> v = ''yes'' \<or> v = ''on'' then Inr True
      else if v = ''0'' \<or> v = ''false'' \<or> v = ''no'' \<or> v = ''off'' then Inr False
      else Inl (''expected boolean, got '' @ value))"

definition parse_pull :: "string \<Rightarrow> (GpioPull, string) result" where
  "parse_pull value =
     (let v = map ascii_lower (trim value) in
      if v = ''up'' then Inr Up else if v = ''down'' then Inr Down
      else Inl (''expected up or down, got '' @ value))"

definition parse_word :: "string \<Rightarrow> 'a::len word option" where
  "parse_word s = map_option of_nat (parse_unsigned (2 ^ LENGTH('a)) s)"

section \<open>The environment\<close>

type_synonym env = "string \<Rightarrow> string option"

text \<open>\<open>?\<close> and the loop of \<open>set_gpio_*\<close>: every key that is set is parsed, the last one wins.\<close>

definition and_then :: "('a, 'e) result \<Rightarrow> ('a \<Rightarrow> ('b, 'e) result) \<Rightarrow> ('b, 'e) result" where
  "and_then r f = (case r of Inl e \<Rightarrow> Inl e | Inr v \<Rightarrow> f v)"

fun set_keys ::
    "(string \<Rightarrow> 'v option) \<Rightarrow> string \<Rightarrow> env \<Rightarrow> 'v \<Rightarrow> string list \<Rightarrow> ('v, string) result" where
  "set_keys parse suffix getenv target [] = Inr target"
| "set_keys parse suffix getenv target (key # keys) =
     (case getenv key of
        None \<Rightarrow> set_keys parse suffix getenv target keys
      | Some value \<Rightarrow>
          (case parse value of
             None \<Rightarrow> Inl (''parse '' @ key @ suffix)
           | Some v \<Rightarrow> set_keys parse suffix getenv v keys))"

definition set_gpio_u8 :: "env \<Rightarrow> u8 \<Rightarrow> string list \<Rightarrow> (u8, string) result" where
  "set_gpio_u8 = set_keys parse_word '' as u8''"

definition set_gpio_u64 :: "env \<Rightarrow> u64 \<Rightarrow> string list \<Rightarrow> (u64, string) result" where
  "set_gpio_u64 = set_keys parse_word '' as u64''"

definition set_gpio_bool :: "env \<Rightarrow> bool \<Rightarrow> string list \<Rightarrow> (bool, string) result" where
  "set_gpio_bool =
     set_keys (\<lambda>s. case parse_bool s of Inl _ \<Rightarrow> None | Inr b \<Rightarrow> Some b) []"

text \<open>\<open>files\<close>: \<open>std::fs::read_to_string\<close>.\<close>

definition secret_env ::
    "env \<Rightarrow> (string \<Rightarrow> string option) \<Rightarrow> string \<Rightarrow> string \<Rightarrow> (string option, string) result" where
  "secret_env getenv files value_key file_key = (case getenv value_key of
     Some value \<Rightarrow> Inr (Some value)
   | None \<Rightarrow> (case getenv file_key of
       None \<Rightarrow> Inr None
     | Some file \<Rightarrow> (case files file of
         None \<Rightarrow> Inl (''read secret from '' @ file)
       | Some value \<Rightarrow>
           Inr (Some (trim_end (\<lambda>c. c = CHR 0x0D \<or> c = CHR 0x0A) value)))))"

text \<open>An optional variable parsed with its own context message.\<close>

definition override ::
    "env \<Rightarrow> string \<Rightarrow> (string \<Rightarrow> 'v option) \<Rightarrow> string \<Rightarrow> ('v \<Rightarrow> 'c \<Rightarrow> 'c) \<Rightarrow> 'c \<Rightarrow> ('c, string) result" where
  "override getenv key parse message put c = (case getenv key of
     None \<Rightarrow> Inr c
   | Some value \<Rightarrow> (case parse value of None \<Rightarrow> Inl message | Some v \<Rightarrow> Inr (put v c)))"

definition bool_of :: "string \<Rightarrow> bool option" where
  "bool_of s = (case parse_bool s of Inl _ \<Rightarrow> None | Inr b \<Rightarrow> Some b)"

fun run_overrides :: "('c \<Rightarrow> ('c, string) result) list \<Rightarrow> 'c \<Rightarrow> ('c, string) result" where
  "run_overrides [] c = Inr c"
| "run_overrides (f # fs) c = and_then (f c) (run_overrides fs)"

text \<open>Setting a field of a section with one of the \<open>set_gpio\<close> functions.\<close>

definition field ::
    "('v \<Rightarrow> string list \<Rightarrow> ('v, string) result) \<Rightarrow> ('c \<Rightarrow> 'v) \<Rightarrow> ('v \<Rightarrow> 'c \<Rightarrow> 'c) \<Rightarrow> string list \<Rightarrow>
     'c \<Rightarrow> ('c, string) result" where
  "field set_value get put keys c = and_then (set_value (get c) keys) (\<lambda>v. Inr (put v c))"

definition apply_weather_env_overrides ::
    "(string \<Rightarrow> f64_bits option) \<Rightarrow> env \<Rightarrow> WeatherConfig \<Rightarrow> (WeatherConfig, string) result" where
  "apply_weather_env_overrides parse_f64 getenv = run_overrides
    [override getenv ''BOOTH_WEATHER_ENABLED'' bool_of ''parse BOOTH_WEATHER_ENABLED''
       (\<lambda>v. weather_enabled_update (\<lambda>_. v)),
     override getenv ''BOOTH_WEATHER_LATITUDE'' parse_f64 ''parse BOOTH_WEATHER_LATITUDE as f64''
       (\<lambda>v. latitude_update (\<lambda>_. Some v)),
     override getenv ''BOOTH_WEATHER_LONGITUDE'' parse_f64 ''parse BOOTH_WEATHER_LONGITUDE as f64''
       (\<lambda>v. longitude_update (\<lambda>_. Some v)),
     override getenv ''BOOTH_WEATHER_POLL_INTERVAL_SECONDS'' parse_word
       ''parse BOOTH_WEATHER_POLL_INTERVAL_SECONDS as u64''
       (\<lambda>v. weather_poll_interval_seconds_update (\<lambda>_. v)),
     override getenv ''BOOTH_WEATHER_REQUEST_TIMEOUT_SECONDS'' parse_word
       ''parse BOOTH_WEATHER_REQUEST_TIMEOUT_SECONDS as u64''
       (\<lambda>v. weather_request_timeout_seconds_update (\<lambda>_. v))]"

definition apply_runtime_env_overrides ::
    "env \<Rightarrow> RuntimeStartupConfig \<Rightarrow> (RuntimeStartupConfig, string) result" where
  "apply_runtime_env_overrides getenv = run_overrides
    [override getenv ''BOOTH_RUNTIME_MOCK'' bool_of ''parse BOOTH_RUNTIME_MOCK''
       (\<lambda>v. mock_update (\<lambda>_. v)),
     override getenv ''BOOTH_RUNTIME_SIMULATOR'' bool_of ''parse BOOTH_RUNTIME_SIMULATOR''
       (\<lambda>v. simulator_update (\<lambda>_. v))]"

text \<open>\<open>BOOTH_GPIO_PULL\<close>, whose error has no context of its own.\<close>

definition override_pull :: "env \<Rightarrow> RuntimeConfig \<Rightarrow> (RuntimeConfig, string) result" where
  "override_pull getenv c = (case getenv ''BOOTH_GPIO_PULL'' of
     None \<Rightarrow> Inr c
   | Some value \<Rightarrow> and_then (parse_pull value) (\<lambda>v. Inr (gpio_update (pull_update (\<lambda>_. v)) c)))"

definition apply_env_overrides ::
    "env \<Rightarrow> (string \<Rightarrow> string option) \<Rightarrow> (string \<Rightarrow> f32_bits option) \<Rightarrow> (string \<Rightarrow> f64_bits option) \<Rightarrow>
     RuntimeConfig \<Rightarrow> (RuntimeConfig, string) result" where
  "apply_env_overrides getenv files parse_f32 parse_f64 = run_overrides
    [override getenv ''BOOTH_OPERATOR_BASE_URL'' Some []
       (\<lambda>v. operator_update (base_url_update (\<lambda>_. v))),
     (\<lambda>c. and_then (secret_env getenv files ''BOOTH_OPERATOR_TOKEN'' ''BOOTH_OPERATOR_TOKEN_FILE'')
       (\<lambda>t. Inr (case t of None \<Rightarrow> c | Some v \<Rightarrow> operator_update (token_update (\<lambda>_. v)) c))),
     (\<lambda>c. and_then (secret_env getenv files ''BOOTH_DEBUG_TOKEN'' ''BOOTH_DEBUG_TOKEN_FILE'')
       (\<lambda>t. Inr (case t of None \<Rightarrow> c | Some v \<Rightarrow> debug_token_update (\<lambda>_. Some v) c))),
     override getenv ''BOOTH_AUDIO_DEVICE'' Some []
       (\<lambda>v. audio_section_update (device_substring_update (\<lambda>_. Some v))),
     field (set_gpio_u8 getenv) (\<lambda>c. pin_hook (gpio c)) (\<lambda>v. gpio_update (pin_hook_update (\<lambda>_. v)))
       [''BOOTH_GPIO_HOOK'', ''BOOTH_GPIO_HOOK_BCM''],
     field (set_gpio_u8 getenv) (\<lambda>c. pin_rotary_pulse (gpio c)) (\<lambda>v. gpio_update (pin_rotary_pulse_update (\<lambda>_. v)))
       [''BOOTH_GPIO_ROTARY_PULSE'', ''BOOTH_GPIO_ROTARY_PULSE_BCM''],
     field (set_gpio_u8 getenv) (\<lambda>c. pin_rotary_read (gpio c)) (\<lambda>v. gpio_update (pin_rotary_read_update (\<lambda>_. v)))
       [''BOOTH_GPIO_ROTARY_READ'', ''BOOTH_GPIO_ROTARY_READ_BCM'', ''BOOTH_GPIO_ROTARY_GATE'', ''BOOTH_GPIO_ROTARY_GATE_BCM''],
     field (set_gpio_u64 getenv) (\<lambda>c. debounce_ms (gpio c)) (\<lambda>v. gpio_update (debounce_ms_update (\<lambda>_. v)))
       [''BOOTH_GPIO_DEBOUNCE_MS''],
     override_pull getenv,
     field (set_gpio_bool getenv) (\<lambda>c. inv_hook (invert (gpio c))) (\<lambda>v. gpio_update (invert_update (inv_hook_update (\<lambda>_. v))))
       [''BOOTH_GPIO_INVERT_HOOK''],
     field (set_gpio_bool getenv) (\<lambda>c. inv_rotary_pulse (invert (gpio c))) (\<lambda>v. gpio_update (invert_update (inv_rotary_pulse_update (\<lambda>_. v))))
       [''BOOTH_GPIO_INVERT_ROTARY_PULSE''],
     field (set_gpio_bool getenv) (\<lambda>c. inv_rotary_read (invert (gpio c))) (\<lambda>v. gpio_update (invert_update (inv_rotary_read_update (\<lambda>_. v))))
       [''BOOTH_GPIO_INVERT_ROTARY_READ'', ''BOOTH_GPIO_INVERT_ROTARY_GATE''],
     field (set_gpio_u8 getenv) (\<lambda>c. pin_power_button (gpio c)) (\<lambda>v. gpio_update (pin_power_button_update (\<lambda>_. v)))
       [''BOOTH_GPIO_POWER_BUTTON'', ''BOOTH_GPIO_POWER_BUTTON_BCM''],
     field (set_gpio_bool getenv) (\<lambda>c. inv_power_button (invert (gpio c))) (\<lambda>v. gpio_update (invert_update (inv_power_button_update (\<lambda>_. v))))
       [''BOOTH_GPIO_INVERT_POWER_BUTTON''],
     field (set_gpio_bool getenv) (\<lambda>c. pb_enabled (power_button c)) (\<lambda>v. power_button_update (pb_enabled_update (\<lambda>_. v)))
       [''BOOTH_POWER_BUTTON_ENABLED''],
     field (set_gpio_u64 getenv) (\<lambda>c. hold_ms (power_button c)) (\<lambda>v. power_button_update (hold_ms_update (\<lambda>_. v)))
       [''BOOTH_POWER_BUTTON_HOLD_MS''],
     field (set_gpio_bool getenv) (\<lambda>c. led_enabled (status_led c)) (\<lambda>v. status_led_update (led_enabled_update (\<lambda>_. v)))
       [''BOOTH_STATUS_LED_ENABLED''],
     field (set_gpio_u8 getenv) (\<lambda>c. red (status_led c)) (\<lambda>v. status_led_update (red_update (\<lambda>_. v)))
       [''BOOTH_STATUS_LED_RED'', ''BOOTH_STATUS_LED_RED_BCM''],
     field (set_gpio_u8 getenv) (\<lambda>c. green (status_led c)) (\<lambda>v. status_led_update (green_update (\<lambda>_. v)))
       [''BOOTH_STATUS_LED_GREEN'', ''BOOTH_STATUS_LED_GREEN_BCM''],
     field (set_gpio_u8 getenv) (\<lambda>c. blue (status_led c)) (\<lambda>v. status_led_update (blue_update (\<lambda>_. v)))
       [''BOOTH_STATUS_LED_BLUE'', ''BOOTH_STATUS_LED_BLUE_BCM''],
     field (set_gpio_bool getenv) (\<lambda>c. active_low (status_led c)) (\<lambda>v. status_led_update (active_low_update (\<lambda>_. v)))
       [''BOOTH_STATUS_LED_ACTIVE_LOW''],
     override getenv ''BOOTH_STATUS_LED_BRIGHTNESS'' parse_f32 ''parse BOOTH_STATUS_LED_BRIGHTNESS as f32''
       (\<lambda>v. status_led_update (brightness_update (\<lambda>_. v))),
     override getenv ''BOOTH_OBSERVABILITY_ENABLED'' bool_of ''parse BOOTH_OBSERVABILITY_ENABLED''
       (\<lambda>v. observability_update (obs_enabled_update (\<lambda>_. v))),
     override getenv ''BOOTH_OBSERVABILITY_BOOTH_ID'' Some []
       (\<lambda>v. observability_update (booth_id_update (\<lambda>_. v))),
     override getenv ''BOOTH_OBSERVABILITY_FORWARD_ENABLED'' bool_of ''parse BOOTH_OBSERVABILITY_FORWARD_ENABLED''
       (\<lambda>v. observability_update (operator_forward_update (forward_enabled_update (\<lambda>_. v)))),
     field (\<lambda>w _. apply_weather_env_overrides parse_f64 getenv w) weather (\<lambda>v. weather_update (\<lambda>_. v)) [],
     field (\<lambda>r _. apply_runtime_env_overrides getenv r) runtime (\<lambda>v. runtime_update (\<lambda>_. v)) []]"

section \<open>Validation\<close>

definition MAX_RECORDING_SECS_CEILING :: u32 where "MAX_RECORDING_SECS_CEILING = 600"
definition MIN_SHELLY_POLL_INTERVAL_SECONDS :: u64 where "MIN_SHELLY_POLL_INTERVAL_SECONDS = 2"
definition MAX_SHELLY_REQUEST_TIMEOUT_SECONDS :: u64 where "MAX_SHELLY_REQUEST_TIMEOUT_SECONDS = 30"
definition MIN_WEATHER_POLL_INTERVAL_SECONDS :: u64 where "MIN_WEATHER_POLL_INTERVAL_SECONDS = 60"
definition MAX_WEATHER_REQUEST_TIMEOUT_SECONDS :: u64 where "MAX_WEATHER_REQUEST_TIMEOUT_SECONDS = 60"

text \<open>
  Range tests on IEEE bit patterns: a number is within \<open>0..=1\<close> when its pattern is that of \<open>-0\<close> or at
  most that of 1; the absolute value of a number is at most a positive bound when its pattern without
  the sign bit is at most the bound's. Infinities and NaNs have larger patterns.
\<close>

definition f32_in_unit :: "f32_bits \<Rightarrow> bool" where
  "f32_in_unit b \<longleftrightarrow> b \<le> 0x3F800000 \<or> b = 0x80000000"

definition f64_abs_le :: "f64_bits \<Rightarrow> f64_bits \<Rightarrow> bool" where
  "f64_abs_le b bound \<longleftrightarrow> (if b < 0x8000000000000000 then b else b - 0x8000000000000000) \<le> bound"

definition NINETY :: f64_bits where "NINETY = 0x4056800000000000"
definition ONE_EIGHTY :: f64_bits where "ONE_EIGHTY = 0x4066800000000000"

record Features =
  with_shelly :: bool
  with_weather :: bool
  with_mock :: bool
  with_simulator :: bool

definition gpio_pins :: "RuntimeConfig \<Rightarrow> u8 list" where
  "gpio_pins c =
     [pin_hook (gpio c), pin_rotary_pulse (gpio c), pin_rotary_read (gpio c)] @
     (if pb_enabled (power_button c) then [pin_power_button (gpio c)] else []) @
     (if led_enabled (status_led c)
      then [red (status_led c), green (status_led c), blue (status_led c)] else [])"

text \<open>A sequence of \<open>if ... { bail!(...) }\<close>.\<close>

fun bail_first :: "(bool \<times> string) list \<Rightarrow> (unit, string) result" where
  "bail_first [] = Inr ()"
| "bail_first ((fails, message) # rest) = (if fails then Inl message else bail_first rest)"

definition operator_checks :: "OperatorConfig \<Rightarrow> (bool \<times> string) list" where
  "operator_checks o' =
    [(http_timeout_secs o' = 0, ''operator.http_timeout_secs must be greater than 0''),
     (ws_reconnect_initial_ms o' = 0, ''operator.ws_reconnect_initial_ms must be greater than 0''),
     (ws_reconnect_max_ms o' < ws_reconnect_initial_ms o',
      ''operator.ws_reconnect_max_ms ('' @ show_word (ws_reconnect_max_ms o') @
      '') must be >= operator.ws_reconnect_initial_ms ('' @ show_word (ws_reconnect_initial_ms o') @ '')'')]"

definition recording_checks :: "AudioConfig \<Rightarrow> (bool \<times> string) list" where
  "recording_checks a =
    [(max_recording_secs a = 0, ''audio.max_recording_secs must be greater than 0''),
     (MAX_RECORDING_SECS_CEILING < max_recording_secs a,
      ''audio.max_recording_secs ('' @ show_word (max_recording_secs a) @
      '') exceeds maximum allowed ('' @ show_word MAX_RECORDING_SECS_CEILING @ '')''),
     (max_recording_secs a \<le> min_recording_secs a,
      ''audio.min_recording_secs ('' @ show_word (min_recording_secs a) @
      '') must be less than audio.max_recording_secs ('' @ show_word (max_recording_secs a) @ '')'')]"

definition observability_checks :: "ObservabilityConfig \<Rightarrow> (bool \<times> string) list" where
  "observability_checks ob =
    (let fwd = operator_forward ob in
     [(sample_interval_ms ob = 0, ''observability.sample_interval_ms must be greater than 0''),
      (batch_max fwd = 0, ''observability.operator_forward.batch_max must be greater than 0''),
      (flush_interval_ms fwd = 0,
       ''observability.operator_forward.flush_interval_ms must be greater than 0''),
      (buffer_max fwd < batch_max fwd,
       ''observability.operator_forward.buffer_max ('' @ show_nat (buffer_max fwd) @
       '') must be >= observability.operator_forward.batch_max ('' @ show_nat (batch_max fwd) @ '')''),
      (system_push_interval_ms fwd = 0,
       ''observability.operator_forward.system_push_interval_ms must be greater than 0'')])"

definition shelly_checks :: "Features \<Rightarrow> ObservabilityConfig \<Rightarrow> ShellyConfig \<Rightarrow> (bool \<times> string) list" where
  "shelly_checks fs ob s =
    [(shelly_poll_interval_seconds s < MIN_SHELLY_POLL_INTERVAL_SECONDS,
      ''shelly.poll_interval_seconds must be at least '' @ show_word MIN_SHELLY_POLL_INTERVAL_SECONDS),
     (shelly_request_timeout_seconds s = 0 \<or>
      MAX_SHELLY_REQUEST_TIMEOUT_SECONDS < shelly_request_timeout_seconds s,
      ''shelly.request_timeout_seconds must be between 1 and '' @
      show_word MAX_SHELLY_REQUEST_TIMEOUT_SECONDS),
     (shelly_enabled s \<and> \<not> obs_enabled ob, ''shelly.enabled requires observability.enabled''),
     (shelly_enabled s \<and> trim (shelly_device s) = [],
      ''shelly.device must not be empty when shelly is enabled''),
     (shelly_enabled s \<and> trim (shelly_endpoint s) = [],
      ''shelly.endpoint must not be empty when shelly is enabled''),
     (shelly_enabled s \<and> \<not> with_shelly fs,
      ''shelly.enabled = true but this binary was built without the `shelly` Cargo feature'')]"

definition weather_checks :: "Features \<Rightarrow> ObservabilityConfig \<Rightarrow> WeatherConfig \<Rightarrow> (bool \<times> string) list" where
  "weather_checks fs ob w =
    [(weather_poll_interval_seconds w < MIN_WEATHER_POLL_INTERVAL_SECONDS,
      ''weather.poll_interval_seconds must be at least '' @ show_word MIN_WEATHER_POLL_INTERVAL_SECONDS),
     (weather_request_timeout_seconds w = 0 \<or>
      MAX_WEATHER_REQUEST_TIMEOUT_SECONDS < weather_request_timeout_seconds w,
      ''weather.request_timeout_seconds must be between 1 and '' @
      show_word MAX_WEATHER_REQUEST_TIMEOUT_SECONDS),
     ((case latitude w of None \<Rightarrow> False | Some v \<Rightarrow> \<not> f64_abs_le v NINETY),
      ''weather.latitude must be between -90 and 90''),
     ((case longitude w of None \<Rightarrow> False | Some v \<Rightarrow> \<not> f64_abs_le v ONE_EIGHTY),
      ''weather.longitude must be between -180 and 180''),
     (weather_enabled w \<and> \<not> obs_enabled ob, ''weather.enabled requires observability.enabled''),
     (weather_enabled w \<and> latitude w = None, ''weather.latitude is required when weather is enabled''),
     (weather_enabled w \<and> longitude w = None, ''weather.longitude is required when weather is enabled''),
     (weather_enabled w \<and> \<not> with_weather fs,
      ''weather.enabled = true but this binary was built without the `weather` Cargo feature'')]"

definition validate_config ::
    "Features \<Rightarrow> (f32_bits \<Rightarrow> string) \<Rightarrow> RuntimeConfig \<Rightarrow> (unit, string) result" where
  "validate_config fs show_f32 c = bail_first (
    [(trim (base_url (operator c)) = [], ''operator.base_url must not be empty''),
     (channels (audio_section c) = 0, ''audio.channels must be at least 1''),
     (audio_sample_rate_hz (audio_section c) = 0, ''audio.sample_rate_hz must be at least 1'')] @
    operator_checks (operator c) @ recording_checks (audio_section c) @
    observability_checks (observability c) @
    shelly_checks fs (observability c) (shelly_section c) @
    weather_checks fs (observability c) (weather c) @
    [(card (set (gpio_pins c)) \<noteq> length (gpio_pins c),
      ''gpio pins (including power button / status LED, when enabled) must be unique''),
     (pb_enabled (power_button c) \<and> hold_ms (power_button c) = 0,
      ''power_button.hold_ms must be greater than 0''),
     (led_enabled (status_led c) \<and> \<not> f32_in_unit (brightness (status_led c)),
      ''status_led.brightness ('' @ show_f32 (brightness (status_led c)) @ '') must be between 0.0 and 1.0''),
     (\<not> with_mock fs \<and> mock (runtime c),
      ''runtime.mock = true but this binary was built without the `mock` Cargo feature''),
     (\<not> with_simulator fs \<and> simulator (runtime c),
      ''runtime.simulator = true but this binary was built without the `simulator` Cargo feature'')])"

section \<open>Secrets and the watchdog\<close>

definition redact_secret :: "string \<Rightarrow> string" where
  "redact_secret secret =
     (if secret = [] then ''<empty>''
      else ''<redacted:'' @ rev (take 4 (rev secret)) @ ''>'')"

text \<open>The interval in microseconds; \<open>current_pid\<close> is this process.\<close>

definition watchdog_interval :: "string option \<Rightarrow> string option \<Rightarrow> u32 \<Rightarrow> nat option" where
  "watchdog_interval usec watchdog_pid current_pid =
     (let own = (case watchdog_pid of
                   None \<Rightarrow> True
                 | Some pid \<Rightarrow> parse_word (trim pid) = Some current_pid)
      in if \<not> own then None
         else case usec of
           None \<Rightarrow> None
         | Some u \<Rightarrow>
             (case parse_unsigned (2 ^ 64) (trim u) of
                None \<Rightarrow> None
              | Some n \<Rightarrow> (let half = n div 2 in if half = 0 then None else Some half)))"

section \<open>Validation\<close>

lemma bail_first_iff: "bail_first checks = Inr () \<longleftrightarrow> list_all (\<lambda>(fails, _). \<not> fails) checks"
  by (induction checks rule: bail_first.induct) auto

declare bail_first.simps(2) [simp del]

lemma bail_first_append [simp]:
  "bail_first (xs @ ys) = Inr () \<longleftrightarrow> bail_first xs = Inr () \<and> bail_first ys = Inr ()"
  by (simp add: bail_first_iff)

lemmas check_defs = operator_checks_def recording_checks_def observability_checks_def
  shelly_checks_def weather_checks_def

lemmas default_defs = runtime_config_default_def gpio_config_default_def power_button_default_def
  status_led_default_def audio_config_default_def operator_config_default_def observability_default_def
  operator_forward_default_def shelly_default_def weather_default_def

lemmas valid_eval = validate_config_def bail_first_iff check_defs default_defs gpio_pins_def Let_def
  trim_def trim_end_def is_whitespace_def MAX_RECORDING_SECS_CEILING_def
  MIN_SHELLY_POLL_INTERVAL_SECONDS_def MAX_SHELLY_REQUEST_TIMEOUT_SECONDS_def
  MIN_WEATHER_POLL_INTERVAL_SECONDS_def MAX_WEATHER_REQUEST_TIMEOUT_SECONDS_def

lemma default_config_valid: "validate_config fs show_f32 runtime_config_default = Inr ()"
  by (simp add: valid_eval)

text \<open>A configuration that passes validation is one the rest of the runtime can run on: the pins of the
  phone and of every optional part that is enabled are distinct, an answer can be recorded at all, the
  event forwarder's queue holds a batch, no timer has a zero period, a button press can be told from a
  hold, and a part whose feature was not built is off.\<close>
theorem validated_config_usable:
  assumes "validate_config fs show_f32 c = Inr ()"
  shows "distinct (gpio_pins c) \<and>
    min_recording_secs (audio_section c) < max_recording_secs (audio_section c) \<and>
    max_recording_secs (audio_section c) \<le> 600 \<and>
    0 < batch_max (operator_forward (observability c)) \<and>
    batch_max (operator_forward (observability c)) \<le> buffer_max (operator_forward (observability c)) \<and>
    0 < sample_interval_ms (observability c) \<and>
    0 < flush_interval_ms (operator_forward (observability c)) \<and>
    0 < system_push_interval_ms (operator_forward (observability c)) \<and>
    (if pb_enabled (power_button c) then 0 < hold_ms (power_button c) else True) \<and>
    (if mock (runtime c) then with_mock fs else True) \<and>
    (if shelly_enabled (shelly_section c) then with_shelly fs \<and> obs_enabled (observability c) else True)"
proof -
  have rec: "bail_first (recording_checks (audio_section c)) = Inr ()"
    and obs: "bail_first (observability_checks (observability c)) = Inr ()"
    and shelly: "bail_first (shelly_checks fs (observability c) (shelly_section c)) = Inr ()"
    and rest: "card (set (gpio_pins c)) = length (gpio_pins c)"
      "\<not> (pb_enabled (power_button c) \<and> hold_ms (power_button c) = 0)"
      "\<not> (\<not> with_mock fs \<and> mock (runtime c))"
    using assms by (simp_all only: validate_config_def bail_first_append, simp_all add: bail_first_iff)
  have "distinct (gpio_pins c)"
    using rest(1) by (rule card_distinct)
  moreover have "min_recording_secs (audio_section c) < max_recording_secs (audio_section c) \<and>
      max_recording_secs (audio_section c) \<le> 600"
    using rec by (simp add: recording_checks_def bail_first_iff MAX_RECORDING_SECS_CEILING_def not_le not_less)
  moreover have "0 < batch_max (operator_forward (observability c)) \<and>
      batch_max (operator_forward (observability c)) \<le> buffer_max (operator_forward (observability c)) \<and>
      0 < sample_interval_ms (observability c) \<and>
      0 < flush_interval_ms (operator_forward (observability c)) \<and>
      0 < system_push_interval_ms (operator_forward (observability c))"
    using obs by (simp add: observability_checks_def bail_first_iff word_gt_0 not_less Let_def)
  moreover have "if shelly_enabled (shelly_section c) then with_shelly fs \<and> obs_enabled (observability c) else True"
    using shelly by (simp add: shelly_checks_def bail_first_iff)
  ultimately show ?thesis
    using rest(2,3) by (auto simp: word_gt_0)
qed

theorem validated_config_usable_witness:
  "distinct (gpio_pins runtime_config_default)"
  using validated_config_usable [OF default_config_valid] by blast

text \<open>Validation and the operator's cap disagree: recordings of up to ten minutes are a valid setting, but
  one longer than five minutes can never be uploaded, whatever the operator answers.\<close>
theorem long_recordings_never_upload:
  "validate_config fs show_f32 (runtime_config_default\<lparr>audio_section :=
      audio_config_default\<lparr>max_recording_secs := 600\<rparr>\<rparr>) = Inr () \<and>
   \<not> fst (upload_recording world (c\<lparr>recording_ms := Some 300001\<rparr>))"
proof
  show "validate_config fs show_f32 (runtime_config_default\<lparr>audio_section :=
      audio_config_default\<lparr>max_recording_secs := 600\<rparr>\<rparr>) = Inr ()"
    by (simp add: valid_eval)
  show "\<not> fst (upload_recording world (c\<lparr>recording_ms := Some 300001\<rparr>))"
    using upload_recording_result [of "c\<lparr>recording_ms := Some 300001\<rparr>" world]
    by (auto simp: caps_ok_iff MAX_UPLOAD_DURATION_MS_def)
qed

section \<open>The environment\<close>

lemma parse_show_nat: "parse_unsigned bound (show_nat n) = (if n < bound then Some n else None)"
  using parse_show_padded [of n "Suc n" 0]
  by (simp add: parse_unsigned_def show_padded_def Let_def split: option.splits if_splits)

lemma parse_show_word: "parse_word (show_word w) = Some (w :: 'a::len word)"
proof -
  have "unat w < 2 ^ LENGTH('a)" by (rule unsigned_less)
  then show ?thesis by (simp add: parse_word_def show_word_def parse_show_nat)
qed

text \<open>Environment overrides are exact: without any variable the configuration is unchanged, and a pin
  printed in decimal into the last of its variables comes back as that pin, whatever the earlier
  (older) names of the variable hold, as long as they are numbers.\<close>
theorem env_pin_roundtrip:
  "set_gpio_u8 (\<lambda>k. if k = key then Some (show_word pin) else None) target [older, key] = Inr pin \<and>
   apply_env_overrides (\<lambda>_. None) files parse_f32 parse_f64 config = Inr config"
proof -
  have "set_gpio_u8 (\<lambda>_. None) t ks = Inr t" "set_gpio_u64 (\<lambda>_. None) t' ks = Inr t'"
    "set_gpio_bool (\<lambda>_. None) b ks = Inr b" for t t' b ks
    by (induction ks; simp add: set_gpio_u8_def set_gpio_u64_def set_gpio_bool_def)+
  then show ?thesis
    by (auto simp: set_gpio_u8_def parse_show_word apply_env_overrides_def field_def and_then_def override_def
        override_pull_def secret_env_def apply_weather_env_overrides_def apply_runtime_env_overrides_def)
qed

section \<open>Secrets and the watchdog\<close>

lemma redact_secret_tail:
  "redact_secret s = (if s = [] then ''<empty>'' else ''<redacted:'' @ drop (length s - 4) s @ ''>'')"
  by (simp add: redact_secret_def take_rev)

text \<open>A secret of at most four characters is shown in full.\<close>

lemma short_secret_shown: "s \<noteq> [] \<Longrightarrow> length s \<le> 4 \<Longrightarrow> redact_secret s = ''<redacted:'' @ s @ ''>''"
  by (simp add: redact_secret_tail)

lemma trim_digits:
  assumes "set s \<subseteq> {c. digit_value c \<noteq> None}"
  shows "trim s = s"
proof -
  have "\<not> is_whitespace c" if "c \<in> set s" for c
    using assms that by (fastforce simp: is_whitespace_def digit_value_def Let_def split: if_splits)
  then have "dropWhile is_whitespace s = s" "dropWhile is_whitespace (rev s) = rev s"
    by (cases "s = []"; simp add: dropWhile_eq_self_iff hd_rev)+
  then show ?thesis by (simp add: trim_def trim_end_def)
qed

text \<open>The watchdog is fed at half of the time-out systemd set for this process, rounded down, and not at
  all when the time-out is another process's or too short to halve.\<close>
theorem watchdog_at_half:
  "watchdog_interval (Some (show_nat usec)) (map_option show_word pid) me =
     (if (pid = None \<or> pid = Some me) \<and> 2 \<le> usec \<and> usec < 2 ^ 64 then Some (usec div 2) else None)"
proof -
  have "trim (show_nat n) = show_nat n" for n
    by (rule trim_digits [OF show_nat_digits])
  moreover have "parse_unsigned (2 ^ 64) (show_nat usec) = (if usec < 2 ^ 64 then Some usec else None)"
    by (rule parse_show_nat)
  ultimately show ?thesis
    by (cases pid) (auto simp: watchdog_interval_def show_word_def parse_show_word [unfolded show_word_def] Let_def)
qed

end
