(* ===== verification/FileStorage.thy ===== *)
theory FileStorage
  imports Hal PendingUploads
begin

text \<open>
  The key-value store of \<open>crates/booth-bin/src/file_storage.rs\<close>, one file per key under a base
  directory, and the \<open>Storage\<close> interface of \<open>crates/booth-hal/src/lib.rs\<close> it provides. The directory is
  that of \<open>PendingUploads\<close>; a fault says which file-system call fails, so the directory after a
  fault is also the one a crash at that point leaves. Strings are lists of UTF-8 bytes; \<open>utf8\<close>
  tells which are valid.
\<close>

section \<open>File names\<close>

definition is_special :: "char \<Rightarrow> bool" where
  "is_special c \<longleftrightarrow> c = CHR ''/'' \<or> c = CHR 0x5C \<or> c = CHR '':'' \<or> c = CHR ''%'' \<or> c = CHR 0x00 \<or> c = CHR ''.''"

definition hex_digit :: "nat \<Rightarrow> char" where
  "hex_digit n = (if n < 10 then char_of (48 + n) else char_of (55 + n))"

definition encode_char :: "char \<Rightarrow> string" where
  "encode_char c =
     (if is_special c
      then [CHR ''%'', hex_digit (of_char c div 16), hex_digit (of_char c mod 16)] else [c])"

definition encode_key :: "string \<Rightarrow> string" where
  "encode_key key = (if key = [] then ''%empty'' else concat (map encode_char key))"

text \<open>\<open>u8::from_str_radix\<close> on two bytes: a leading plus sign is allowed.\<close>

definition hex_value :: "char \<Rightarrow> nat option" where
  "hex_value c = (let n = of_char c :: nat in
     if 48 \<le> n \<and> n \<le> 57 then Some (n - 48)
     else if 65 \<le> n \<and> n \<le> 70 then Some (n - 55)
     else if 97 \<le> n \<and> n \<le> 102 then Some (n - 87) else None)"

definition from_hex :: "char \<Rightarrow> char \<Rightarrow> nat option" where
  "from_hex a b =
     (if a = CHR ''+'' then hex_value b
      else case hex_value a of
        None \<Rightarrow> None
      | Some x \<Rightarrow> (case hex_value b of None \<Rightarrow> None | Some y \<Rightarrow> Some (16 * x + y)))"

text \<open>The \<open>while\<close> loop: the rest of the bytes from \<open>i\<close>.\<close>

fun decode_from :: "string \<Rightarrow> string" where
  "decode_from [] = []"
| "decode_from (c # cs) =
     (case cs of
        a # b # rest \<Rightarrow>
          (if c = CHR ''%''
           then (case from_hex a b of
                   Some n \<Rightarrow> char_of n # decode_from rest
                 | None \<Rightarrow> c # decode_from cs)
           else c # decode_from cs)
      | _ \<Rightarrow> c # decode_from cs)"

definition decode_key :: "(string \<Rightarrow> bool) \<Rightarrow> string \<Rightarrow> string" where
  "decode_key utf8 encoded =
     (if encoded = ''%empty'' then []
      else if utf8 (decode_from encoded) then decode_from encoded else [])"

section \<open>Operations\<close>

datatype IoFault = NoIoFault | TempWriteFails | TempRenameFails

definition io_error :: "string \<Rightarrow> StorageError" where
  "io_error what = StorageError.Io what"

definition storage_get ::
    "bool \<Rightarrow> string \<Rightarrow> dir \<Rightarrow> (string option, StorageError) result" where
  "storage_get read_fails key d =
     (case map_of d (encode_key key) of
        None \<Rightarrow> Inr None
      | Some bytes \<Rightarrow> (if read_fails then Inl (io_error ''read'') else Inr (Some bytes)))"

text \<open>\<open>temp\<close>: the name \<open>temp_path\<close> makes.\<close>

definition storage_set ::
    "IoFault \<Rightarrow> string \<Rightarrow> string \<Rightarrow> string \<Rightarrow> dir \<Rightarrow> dir \<times> (unit, StorageError) result" where
  "storage_set fault temp key value d =
     (if fault = TempWriteFails then (d, Inl (io_error ''write temp''))
      else
        (let d1 = write_file temp value d in
         if fault = TempRenameFails then (remove_file temp d1, Inl (io_error ''rename''))
         else (rename_file temp (encode_key key) d1, Inr ())))"

definition storage_delete :: "bool \<Rightarrow> string \<Rightarrow> dir \<Rightarrow> dir \<times> (unit, StorageError) result" where
  "storage_delete fails key d =
     (if map_of d (encode_key key) = None then (d, Inr ())
      else if fails then (d, Inl (io_error ''delete''))
      else (remove_file (encode_key key) d, Inr ()))"

section \<open>The encoding\<close>

lemma hex_digit_code:
  "n < 16 \<Longrightarrow> of_char (hex_digit n) = (if n < 10 then 48 + n else 55 + n :: nat)"
  by (simp add: hex_digit_def)

lemma hex_value_digit: "n < 16 \<Longrightarrow> hex_value (hex_digit n) = Some n"
  by (simp add: hex_value_def hex_digit_code Let_def)

lemma of_char_bound: "of_char c < (256 :: nat)"
  by (metis of_char_mod_256 mod_less_divisor zero_less_numeral)

lemma hex_digit_neq:
  "n < 16 \<Longrightarrow> of_char c < (48 :: nat) \<or> 70 < (of_char c :: nat) \<Longrightarrow> hex_digit n \<noteq> c"
  using hex_digit_code [of n] by (auto split: if_splits)

lemma char_digits: "of_char c div 16 < (16 :: nat)" "of_char c mod 16 < (16 :: nat)"
  using of_char_bound [of c] by (simp_all add: less_mult_imp_div_less)

lemma special_hex:
  "from_hex (hex_digit (of_char c div 16)) (hex_digit (of_char c mod 16)) = Some (of_char c)"
  using char_digits [of c] by (simp add: from_hex_def hex_value_digit hex_digit_neq)

lemma decode_plain: "c \<noteq> CHR ''%'' \<Longrightarrow> decode_from (c # cs) = c # decode_from cs"
  by (simp split: list.split)

lemma decode_encode: "decode_from (concat (map encode_char key)) = key"
proof (induction key)
  case (Cons c key)
  show ?case
  proof (cases "is_special c")
    case True
    then show ?thesis
      using True Cons.IH special_hex [of c] by (simp add: encode_char_def)
  next
    case False
    then have "c \<noteq> CHR ''%''" by (auto simp: is_special_def)
    then show ?thesis
      using False Cons.IH by (simp add: encode_char_def decode_plain del: decode_from.simps(2))
  qed
qed simp

lemma encode_not_empty: "concat (map encode_char key) \<noteq> ''%empty''"
proof (cases key)
  case (Cons c cs)
  then show ?thesis
    using char_digits [of c] by (auto simp: encode_char_def is_special_def hex_digit_neq)
qed simp

section \<open>The store as a map\<close>

text \<open>
  What the clients of \<open>Storage\<close> rely on: a store is observed through \<open>get\<close>; an operation
  changes the key it names and no other. A run of operations then refines the same run on a map.
\<close>

datatype 'v StoreOp = Put string 'v | Del string

fun map_op :: "'v StoreOp \<Rightarrow> (string \<rightharpoonup> 'v) \<Rightarrow> (string \<rightharpoonup> 'v)" where
  "map_op (Put k v) m = m(k \<mapsto> v)"
| "map_op (Del k) m = m(k := None)"

locale key_value =
  fixes get :: "string \<Rightarrow> 's \<Rightarrow> 'v option"
    and put :: "string \<Rightarrow> 'v \<Rightarrow> 's \<Rightarrow> 's"
    and del :: "string \<Rightarrow> 's \<Rightarrow> 's"
  assumes get_put: "get k' (put k v s) = (if k' = k then Some v else get k' s)"
    and get_del: "get k' (del k s) = (if k' = k then None else get k' s)"
begin

definition view :: "'s \<Rightarrow> string \<rightharpoonup> 'v" where
  "view s = (\<lambda>k. get k s)"

fun apply_op :: "'v StoreOp \<Rightarrow> 's \<Rightarrow> 's" where
  "apply_op (Put k v) s = put k v s"
| "apply_op (Del k) s = del k s"

lemma view_op: "view (apply_op op s) = map_op op (view s)"
  by (cases op) (auto simp: view_def get_put get_del)

lemma view_run: "view (fold apply_op ops s) = fold map_op ops (view s)"
  by (induction ops arbitrary: s) (simp_all add: view_op)

end

definition lookup_key :: "string \<Rightarrow> dir \<Rightarrow> string option" where
  "lookup_key key d = (case storage_get False key d of Inr v \<Rightarrow> v | Inl _ \<Rightarrow> None)"

lemma lookup_key_eq: "lookup_key key d = map_of d (encode_key key)"
  by (simp add: lookup_key_def storage_get_def split: option.split)

lemma map_of_write: "map_of (write_file n b d) k = (if k = n then Some b else map_of d k)"
  by (induction d) (auto simp: write_file_def)

lemma map_of_remove: "map_of (remove_file n d) k = (if k = n then None else map_of d k)"
  by (induction d) (auto simp: remove_file_def)

lemma map_of_rename_new:
  "map_of (rename_file m n (write_file m b d)) k = (if k = n then Some b else if k = m then None else map_of d k)"
  by (auto simp: rename_write map_of_write map_of_remove)

lemma encode_key_inj: "encode_key a = encode_key b \<longleftrightarrow> a = b"
  using decode_encode [of a] decode_encode [of b] encode_not_empty [of a] encode_not_empty [of b]
  unfolding encode_key_def by metis

lemma encode_key_plain:
  "x \<in> set (encode_key key) \<Longrightarrow> x \<noteq> CHR ''/'' \<and> x \<noteq> CHR 0x00 \<and> x \<noteq> CHR ''.''"
proof -
  have "x \<in> set (encode_char c) \<Longrightarrow> x \<noteq> CHR ''/'' \<and> x \<noteq> CHR 0x00 \<and> x \<noteq> CHR ''.''" for c
    using char_digits [of c]
    by (auto simp: encode_char_def is_special_def hex_digit_neq dest: sym split: if_splits)
  then show "x \<in> set (encode_key key) \<Longrightarrow> ?thesis"
    by (auto simp: encode_key_def split: if_splits)
qed

lemma encode_key_visible: "\<not> is_hidden (encode_key key)" "encode_key key \<noteq> temp_name pid ns"
  using encode_key_plain [of "CHR ''.''" key]
  by (auto simp: is_hidden_def temp_name_def split: list.splits)

lemma lookup_after_set:
  "lookup_key k (fst (storage_set fault (temp_name pid ns) key v d)) =
     (if fault \<noteq> TempWriteFails \<and> fault \<noteq> TempRenameFails \<and> k = key then Some v else lookup_key k d)"
  using encode_key_visible(2) [of k pid ns]
  by (auto simp: storage_set_def lookup_key_eq map_of_rename_new map_of_write map_of_remove
      Let_def encode_key_inj)

lemma lookup_after_delete:
  "lookup_key k (fst (storage_delete fails key d)) =
     (if (\<not> fails \<or> lookup_key key d = None) \<and> k = key then None else lookup_key k d)"
  by (auto simp: storage_delete_def lookup_key_eq map_of_remove encode_key_inj)

definition set_ok :: "nat \<times> u64 \<Rightarrow> string \<Rightarrow> string \<Rightarrow> dir \<Rightarrow> dir" where
  "set_ok tmp key v d = fst (storage_set NoIoFault (temp_name (fst tmp) (snd tmp)) key v d)"

definition delete_ok :: "string \<Rightarrow> dir \<Rightarrow> dir" where
  "delete_ok key d = fst (storage_delete False key d)"

interpretation file_storage: key_value lookup_key "set_ok tmp" delete_ok for tmp
  by unfold_locales (simp_all add: set_ok_def delete_ok_def lookup_after_set lookup_after_delete)

fun storage_op :: "nat \<times> u64 \<Rightarrow> string StoreOp \<Rightarrow> dir \<Rightarrow> dir" where
  "storage_op tmp (Put k v) d = set_ok tmp k v d"
| "storage_op tmp (Del k) d = delete_ok k d"

lemma storage_op_apply: "storage_op tmp = file_storage.apply_op tmp"
proof (intro ext)
  show "storage_op tmp op d = file_storage.apply_op tmp op d" for op d
    by (cases op) (simp_all add: file_storage.apply_op.simps)
qed

text \<open>C40. The directory refines a map from keys to values: after any sequence of \<open>set\<close>s and
  \<open>delete\<close>s, \<open>get\<close> returns for every key what the same operations leave in the map of what \<open>get\<close>
  returned before. Every operation that fails leaves every key as it was, whatever the failing
  call left on disk.\<close>
theorem storage_refines_map:
  "(\<lambda>k. lookup_key k (fold (storage_op tmp) ops d)) = fold map_op ops (\<lambda>k. lookup_key k d) \<and>
   (snd (storage_set fault (temp_name pid ns) key v d) = Inr () \<and>
      lookup_key k (fst (storage_set fault (temp_name pid ns) key v d)) =
        (if k = key then Some v else lookup_key k d) \<or>
    snd (storage_set fault (temp_name pid ns) key v d) \<noteq> Inr () \<and>
      lookup_key k (fst (storage_set fault (temp_name pid ns) key v d)) = lookup_key k d) \<and>
   (snd (storage_delete fails key d) = Inr () \<and> lookup_key key (fst (storage_delete fails key d)) = None \<or>
    snd (storage_delete fails key d) \<noteq> Inr () \<and> fst (storage_delete fails key d) = d)"
proof (intro conjI)
  show "(\<lambda>k. lookup_key k (fold (storage_op tmp) ops d)) = fold map_op ops (\<lambda>k. lookup_key k d)"
    using file_storage.view_run [of tmp ops d] by (simp add: file_storage.view_def storage_op_apply)
next
  have "snd (storage_set fault (temp_name pid ns) key v d) = Inr () \<longleftrightarrow>
      fault \<noteq> TempWriteFails \<and> fault \<noteq> TempRenameFails"
    by (simp add: storage_set_def Let_def)
  then show "snd (storage_set fault (temp_name pid ns) key v d) = Inr () \<and>
      lookup_key k (fst (storage_set fault (temp_name pid ns) key v d)) =
        (if k = key then Some v else lookup_key k d) \<or>
    snd (storage_set fault (temp_name pid ns) key v d) \<noteq> Inr () \<and>
      lookup_key k (fst (storage_set fault (temp_name pid ns) key v d)) = lookup_key k d"
    by (simp add: lookup_after_set) blast
next
  show "snd (storage_delete fails key d) = Inr () \<and> lookup_key key (fst (storage_delete fails key d)) = None \<or>
    snd (storage_delete fails key d) \<noteq> Inr () \<and> fst (storage_delete fails key d) = d"
    by (simp add: storage_delete_def lookup_key_eq map_of_remove)
qed

text \<open>Every key can be read back from its file name: decoding the name \<open>encode_key\<close> makes gives the key,
  so that distinct keys never share a file; and the name is a single path component that is neither
  hidden nor a temporary name.\<close>
theorem key_roundtrip:
  "decode_key (\<lambda>s. s = key) (encode_key key) = key \<and>
   CHR ''/'' \<notin> set (encode_key key) \<and> CHR 0x00 \<notin> set (encode_key key) \<and>
   \<not> is_hidden (encode_key key) \<and> encode_key key \<noteq> temp_name pid ns"
  using encode_key_plain [of _ key] encode_key_visible [of key] decode_encode [of key]
    encode_not_empty [of key]
  by (auto simp: decode_key_def) (simp_all add: encode_key_def split: if_splits)

end
