(* ===== verification/Runtime.thy ===== *)
theory Runtime
  imports Effects
begin

text \<open>
  The runtime's main loop and audio task (\<open>crates/booth-bin/src/lib.rs\<close>): \<open>handle_event\<close> drives the
  state machine with the gate's decision and publishes what happened; \<open>run_runtime\<close>'s \<open>select!\<close> loop is
  one input per iteration; \<open>audio_task\<close> plays and stops clips and reports their end. \<open>dbg\<close> is the
  \<open>Debug\<close> text of an event, which the loop only passes on; at readings are inputs.
\<close>

section \<open>Handling one event\<close>

datatype LoopOut =
    ToEffects Effect
  | Announce TelemetryEvent
  | Reply State
  | Ping                                \<comment> \<open>\<open>ping_watchdog\<close>\<close>

definition dialed_digit_for_telemetry :: "State \<Rightarrow> Event \<Rightarrow> (u8 \<times> u8) option" where
  "dialed_digit_for_telemetry s event = (case (s, event) of
     (Dialing pulses, Tick) \<Rightarrow>
       (if 1 \<le> pulses \<and> pulses \<le> 10 then Some (if pulses = 10 then 0 else pulses, pulses) else None)
   | (State.DialTone, Event.DigitDialed digit) \<Rightarrow>
       (if digit \<le> 9 then Some (digit, if digit = 0 then 10 else digit) else None)
   | (Dialing _, Event.DigitDialed digit) \<Rightarrow>
       (if digit \<le> 9 then Some (digit, if digit = 0 then 10 else digit) else None)
   | (CallsPaused False, Event.DigitDialed digit) \<Rightarrow>
       (if digit \<le> 9 then Some (digit, if digit = 0 then 10 else digit) else None)
   | _ \<Rightarrow> None)"

definition publish_transition ::
    "(Event \<Rightarrow> string) \<Rightarrow> u64 \<Rightarrow> State \<Rightarrow> State \<Rightarrow> Event \<Rightarrow> LoopOut list" where
  "publish_transition dbg at from_state to_state event =
     [Announce (StateTransition (tag from_state) (tag to_state) (dbg event) at)]"

definition resumes_call :: "State \<Rightarrow> State \<Rightarrow> bool" where
  "resumes_call from_state to_state \<longleftrightarrow>
     is_paused from_state \<and> \<not> (to_state = State.Idle \<or> is_paused to_state)"

definition handle_event ::
    "(Event \<Rightarrow> string) \<Rightarrow> u64 \<Rightarrow> bool \<Rightarrow> State \<Rightarrow> Event \<Rightarrow> State \<times> LoopOut list" where
  "handle_event dbg at admit from_state event =
     (let dialed_digit =
            (if admit then dialed_digit_for_telemetry from_state event else None);
          (to_state, effects) = handle_with_call_availability from_state event admit;
          transition = publish_transition dbg at from_state to_state event;
          digit = (case dialed_digit of
                     None \<Rightarrow> []
                   | Some (d, pulses) \<Rightarrow> [Announce (TelemetryEvent.DigitDialed d pulses at)])
      in (to_state,
          (if resumes_call from_state to_state then transition else []) @ digit @
          (if resumes_call from_state to_state then [] else transition) @
          map ToEffects effects))"

section \<open>The main loop\<close>

record RuntimeLoop =
  booth :: State
  accepting :: bool                     \<comment> \<open>the loop's copy, \<open>accepting_calls\<close>\<close>

text \<open>
  One branch of \<open>select!\<close> each. The second flag of \<open>GateChanged\<close> and the flag of the others is
  what \<open>installation.accepting_calls()\<close> says inside \<open>handle_event\<close>.
\<close>

datatype LoopInput =
    GateChanged bool bool u64
  | WatchdogTick
  | Received Event bool u64
  | InjectEvent Event bool u64
  | Snapshot

definition loop_step ::
    "(Event \<Rightarrow> string) \<Rightarrow> bool \<Rightarrow> RuntimeLoop \<Rightarrow> LoopInput \<Rightarrow> RuntimeLoop \<times> LoopOut list" where
  "loop_step dbg allow_controls l input = (case input of
     GateChanged available now at \<Rightarrow>
       (if available \<noteq> accepting l \<or> available \<and> is_paused (booth l) then
          (let (s, outs) = handle_event dbg at now (booth l) Tick
           in (\<lparr>booth = s, accepting = available\<rparr>, outs))
        else (l, []))
   | WatchdogTick \<Rightarrow> (l, [Ping])
   | Received event now at \<Rightarrow>
       (let (s, outs) = handle_event dbg at now (booth l) event in (l\<lparr>booth := s\<rparr>, outs))
   | InjectEvent event now at \<Rightarrow>
       (if allow_controls then
          (let (s, outs) = handle_event dbg at now (booth l) event in (l\<lparr>booth := s\<rparr>, outs))
        else (l, [Announce (TelemetryEvent.Error ''booth_bin::debug'' ''debug controls are disabled'')]))
   | Snapshot \<Rightarrow> (l, [Reply (booth l)]))"

text \<open>How the loop starts: paused or idle, with a caller already off the hook let in.\<close>

definition loop_start ::
    "(Event \<Rightarrow> string) \<Rightarrow> u64 \<Rightarrow> bool \<Rightarrow> bool \<Rightarrow> bool \<Rightarrow> RuntimeLoop \<times> LoopOut list" where
  "loop_start dbg at initial_hook_on available now =
     (let s0 = (if available then state_default else CallsPaused initial_hook_on) in
      if available \<and> \<not> initial_hook_on then
        (let (s, outs) = handle_event dbg at now s0 HookOff
         in (\<lparr>booth = s, accepting = available\<rparr>, outs))
      else (\<lparr>booth = s0, accepting = available\<rparr>, []))"

text \<open>\<open>simulate_pulses\<close> of the command line.\<close>

fun simulate_events :: "State \<Rightarrow> Event list \<Rightarrow> (Event \<times> State \<times> Effect list) list" where
  "simulate_events s [] = []"
| "simulate_events s (e # es) =
     (let (next, effects) = handle s e in (e, next, effects) # simulate_events next es)"

definition simulate_pulses :: "u8 \<Rightarrow> (Event \<times> State \<times> Effect list) list" where
  "simulate_pulses pulses =
     simulate_events State.Idle ([HookOff] @ replicate (unat pulses) RotaryPulse @ [Tick])"

section \<open>The audio task\<close>

datatype AudioInput =
    Command AudioCommand "(unit, AudioError) result" "(unit, AudioError) result"
      \<comment> \<open>what \<open>sink.stop()\<close> and \<open>sink.play()\<close> answer\<close>
  | CommandsClosed
  | Ended "(unit, AudioError) result"   \<comment> \<open>\<open>wait_for_end\<close>, awaited only while playing\<close>

datatype AudioOut = SinkStop | SinkPlay AudioRef | Tell Event | Report TelemetryEvent

record AudioTask =
  playing :: bool
  over :: bool                          \<comment> \<open>the loop has been left\<close>

definition audio_err :: "(unit, AudioError) result \<Rightarrow> AudioOut list" where
  "audio_err result = (case result of
     Inr _ \<Rightarrow> [] | Inl err \<Rightarrow> [Report (TelemetryEvent.Error ''audio'' (audio_error_str err))])"

definition completes :: "AudioRef \<Rightarrow> bool" where
  "completes src = (case src of
     Builtin BuiltinTone.DialTone \<Rightarrow> False | Builtin LineBusy \<Rightarrow> False | _ \<Rightarrow> True)"

definition audio_step :: "AudioTask \<Rightarrow> AudioInput \<Rightarrow> AudioTask \<times> AudioOut list" where
  "audio_step t input =
     (if over t then (t, [])
      else if playing t then (case input of
          Command cmd stopped played \<Rightarrow> (case cmd of
            Play src \<Rightarrow>
              (t\<lparr>playing := \<not> isl played\<rparr>,
               SinkStop # audio_err stopped @ SinkPlay src # audio_err played)
          | Stop \<Rightarrow> (t\<lparr>playing := False\<rparr>, SinkStop # audio_err stopped)
          | Shutdown \<Rightarrow> (t\<lparr>over := True\<rparr>, [SinkStop]))
        | CommandsClosed \<Rightarrow> (t\<lparr>over := True\<rparr>, [SinkStop])
        | Ended result \<Rightarrow>
            (t\<lparr>playing := False\<rparr>,
             case result of Inr _ \<Rightarrow> [Tell PlaybackEnded] | Inl _ \<Rightarrow> audio_err result))
      else (case input of
          Command cmd stopped played \<Rightarrow> (case cmd of
            Play src \<Rightarrow>
              (case played of
                 Inr _ \<Rightarrow> (t\<lparr>playing := completes src\<rparr>, [SinkPlay src])
               | Inl _ \<Rightarrow> (t, SinkPlay src # audio_err played))
          | Stop \<Rightarrow> (t, SinkStop # audio_err stopped)
          | Shutdown \<Rightarrow> (t\<lparr>over := True\<rparr>, []))
        | CommandsClosed \<Rightarrow> (t\<lparr>over := True\<rparr>, [])
        | Ended _ \<Rightarrow> (t, [])))"

section \<open>The loop drives the state machine\<close>

text \<open>The events an iteration hands to the machine, with the gate's decision.\<close>

definition handled :: "bool \<Rightarrow> RuntimeLoop \<Rightarrow> LoopInput \<Rightarrow> (Event \<times> bool) list" where
  "handled allow_controls l input = (case input of
     GateChanged available now _ \<Rightarrow>
       if available \<noteq> accepting l \<or> available \<and> is_paused (booth l) then [(Tick, now)] else []
   | Received event now _ \<Rightarrow> [(event, now)]
   | InjectEvent event now _ \<Rightarrow> if allow_controls then [(event, now)] else []
   | _ \<Rightarrow> [])"

fun all_handled ::
    "(Event \<Rightarrow> string) \<Rightarrow> bool \<Rightarrow> RuntimeLoop \<Rightarrow> LoopInput list \<Rightarrow> (Event \<times> bool) list" where
  "all_handled dbg ac l [] = []"
| "all_handled dbg ac l (i # is) =
     handled ac l i @ all_handled dbg ac (fst (loop_step dbg ac l i)) is"

text \<open>The states a run of the machine goes through, its start included.\<close>

fun visited :: "State \<Rightarrow> (Event \<times> bool) list \<Rightarrow> State list" where
  "visited s [] = [s]"
| "visited s (e # es) = s # visited (fst (admit_step s e)) es"

definition dispatched :: "LoopOut list \<Rightarrow> Effect list" where
  "dispatched outs = List.map_filter (\<lambda>out. case out of ToEffects e \<Rightarrow> Some e | _ \<Rightarrow> None) outs"

definition transitions :: "LoopOut list \<Rightarrow> (string \<times> string) list" where
  "transitions outs = List.map_filter (\<lambda>out. case out of
     Announce (StateTransition f t _ _) \<Rightarrow> Some (f, t) | _ \<Rightarrow> None) outs"

definition digits_reported :: "LoopOut list \<Rightarrow> u8 list" where
  "digits_reported outs = List.map_filter (\<lambda>out. case out of
     Announce (TelemetryEvent.DigitDialed d _ _) \<Rightarrow> Some d | _ \<Rightarrow> None) outs"

lemmas loop_view_defs = dispatched_def transitions_def digits_reported_def

lemma loop_view_append [simp]:
  "dispatched (xs @ ys) = dispatched xs @ dispatched ys"
  "transitions (xs @ ys) = transitions xs @ transitions ys"
  "digits_reported (xs @ ys) = digits_reported xs @ digits_reported ys"
  by (simp_all add: loop_view_defs List.map_filter_def)

lemma loop_view_Nil [simp]: "dispatched [] = []" "transitions [] = []" "digits_reported [] = []"
  by (simp_all add: loop_view_defs List.map_filter_simps)

lemma loop_view_Cons [simp]:
  "dispatched (x # xs) = (case x of ToEffects e \<Rightarrow> [e] | _ \<Rightarrow> []) @ dispatched xs"
  "transitions (x # xs) = (case x of Announce (StateTransition f t _ _) \<Rightarrow> [(f, t)] | _ \<Rightarrow> []) @ transitions xs"
  "digits_reported (x # xs) =
     (case x of Announce (TelemetryEvent.DigitDialed d _ _) \<Rightarrow> [d] | _ \<Rightarrow> []) @ digits_reported xs"
  by (simp_all add: loop_view_defs List.map_filter_simps split: LoopOut.split TelemetryEvent.split)

lemma loop_view_effects [simp]:
  "dispatched (map ToEffects es) = es" "transitions (map ToEffects es) = []"
  "digits_reported (map ToEffects es) = []"
  by (induction es) simp_all

lemma handle_event_state:
  "fst (handle_event dbg at a s e) = fst (admit_step s (e, a))"
  by (simp add: handle_event_def admit_step_def split_beta Let_def)

lemma handle_event_views:
  "dispatched (snd (handle_event dbg at a s e)) = snd (admit_step s (e, a))"
  "transitions (snd (handle_event dbg at a s e)) = [(tag s, tag (fst (admit_step s (e, a))))]"
  "digits_reported (snd (handle_event dbg at a s e)) =
     (if a then (case dialed_digit_for_telemetry s e of None \<Rightarrow> [] | Some (d, _) \<Rightarrow> [d]) else [])"
  by (auto simp: handle_event_def admit_step_def publish_transition_def split_beta Let_def
      split: option.split)

lemma loop_step_machine:
  "booth (fst (loop_step dbg ac l i)) = fst (run_machine admit_step (booth l) (handled ac l i))"
  "dispatched (snd (loop_step dbg ac l i)) = snd (run_machine admit_step (booth l) (handled ac l i))"
  "transitions (snd (loop_step dbg ac l i)) =
     (let ss = map tag (visited (booth l) (handled ac l i)) in zip ss (tl ss))"
  by (cases i; simp add: loop_step_def handled_def handle_event_state handle_event_views split_beta Let_def)+

lemma visited_ends: "visited s es \<noteq> [] \<and> hd (visited s es) = s \<and>
    last (visited s es) = fst (run_machine admit_step s es)"
  by (induction es arbitrary: s) auto

lemma visited_append:
  "visited s (es @ fs) = butlast (visited s es) @ visited (fst (run_machine admit_step s es)) fs"
proof (induction es arbitrary: s)
  case (Cons e es)
  show ?case
    using Cons.IH [of "fst (admit_step s e)"] visited_ends [of "fst (admit_step s e)" es]
    by (simp del: split_paired_All)
qed simp

lemma zip_tl_append:
  "xs \<noteq> [] \<Longrightarrow> ys \<noteq> [] \<Longrightarrow> last xs = hd ys \<Longrightarrow>
   zip (butlast xs @ ys) (tl (butlast xs @ ys)) = zip xs (tl xs) @ zip ys (tl ys)"
proof (induction xs)
  case (Cons x xs)
  show ?case
  proof (cases xs)
    case Nil
    then show ?thesis using Cons.prems by (cases ys) simp_all
  next
    case (Cons x' xs')
    then show ?thesis
      using Cons.IH Cons.prems by (cases "butlast xs @ ys") (auto simp: butlast_append split: if_splits)
  qed
qed simp

text \<open>C4. The runtime adds nothing to the state machine and hides nothing of it: over every run of the
  main loop, whichever branch of the \<open>select!\<close> is ready when, its state and the effects it dispatches
  are those of the machine on the events it handled, in order, and the published transitions are
  the consecutive pairs of states the machine went through.\<close>
theorem loop_runs_the_machine:
  "case run_machine (loop_step dbg ac) l inputs of (l', outs) \<Rightarrow>
     run_machine admit_step (booth l) (all_handled dbg ac l inputs) = (booth l', dispatched outs) \<and>
     transitions outs =
       (let ss = map tag (visited (booth l) (all_handled dbg ac l inputs)) in zip ss (tl ss))"
proof (induction inputs arbitrary: l)
  case Nil
  then show ?case by simp
next
  case (Cons i "is")
  let ?l = "fst (loop_step dbg ac l i)"
  let ?now = "map tag (visited (booth l) (handled ac l i))"
  let ?then = "map tag (visited (booth ?l) (all_handled dbg ac ?l is))"
  have "zip (butlast ?now @ ?then) (tl (butlast ?now @ ?then)) = zip ?now (tl ?now) @ zip ?then (tl ?then)"
    using visited_ends [of "booth l" "handled ac l i"]
      visited_ends [of "booth ?l" "all_handled dbg ac ?l is"]
    by (intro zip_tl_append) (simp_all add: last_map hd_map loop_step_machine(1))
  then show ?case
    using Cons.IH [of ?l]
    by (simp add: split_beta run_machine_append loop_step_machine visited_append map_butlast Let_def)
qed

section \<open>Dialed digits\<close>

definition dial_log :: "u8 \<Rightarrow> Effect" where
  "dial_log d = Effect.Log (''dialed digit '' @ show_word d @ '': '' @ digit_action d)"

definition is_dial_log :: "Effect \<Rightarrow> bool" where
  "is_dial_log e = (case e of Effect.Log m \<Rightarrow> take 13 m = ''dialed digit '' | _ \<Rightarrow> False)"

definition dial_ok :: "State \<Rightarrow> bool" where
  "dial_ok s = (case s of Dialing pulses \<Rightarrow> 1 \<le> pulses \<and> pulses \<le> 10 | _ \<Rightarrow> True)"

lemma decode_digit_logs:
  "filter is_dial_log (snd (decode_digit d)) = (if d \<le> 9 then [dial_log d] else [])"
proof -
  have "d \<le> 9 \<longleftrightarrow> d = 0 \<or> d = 1 \<or> d = 2 \<or> 3 \<le> d \<and> d \<le> 9"
    by unat_arith
  then show ?thesis
    by (auto simp: decode_digit_def is_dial_log_def dial_log_def Let_def)
qed

lemmas loop_core_defs = handle_available_def handle_accepting_def handle_pausing_def handle_inner_def
  handle_match_def handle_hook_on_def arm_defs view_defs Let_def

lemma is_dial_log_simps [simp]:
  "is_dial_log (Effect.Log m) \<longleftrightarrow> take 13 m = ''dialed digit ''"
  "\<not> is_dial_log (SetStatusLed c p)" "\<not> is_dial_log (Effect.Play src)" "\<not> is_dial_log StopAudio"
  "\<not> is_dial_log (PutStatus b)" "\<not> is_dial_log CancelPulseTimeout" "\<not> is_dial_log ArmPulseTimeout"
  "\<not> is_dial_log CancelRecordingTimeout" "\<not> is_dial_log ArmRecordingTimeout"
  "\<not> is_dial_log StartRecording" "\<not> is_dial_log StopRecording" "\<not> is_dial_log (UploadRecording r q)"
  "\<not> is_dial_log Reboot" "\<not> is_dial_log PowerOff"
  by (simp_all add: is_dial_log_def)

lemma pulses_digit:
  fixes pulses :: u8
  assumes "1 \<le> pulses" and "pulses \<le> 10"
  shows "pulses \<noteq> 10 \<Longrightarrow> pulses \<le> 9"
  using assms by unat_arith

lemma paused_no_dial_log:
  "filter is_dial_log (snd (handle_available s e False)) = []"
  by (cases s; cases e) (simp_all add: loop_core_defs decode_digit_def split: UploadOutcome.splits bool.splits)

lemma accepted_dial_log:
  assumes "dial_ok s"
  shows "filter is_dial_log (snd (handle_available s e True)) =
    (case dialed_digit_for_telemetry s e of None \<Rightarrow> [] | Some (d, _) \<Rightarrow> [dial_log d])"
  using assms
  by (cases s; cases e)
    (simp_all add: loop_core_defs decode_digit_logs dialed_digit_for_telemetry_def dial_ok_def
      pulses_digit split_beta split: UploadOutcome.splits bool.splits)

text \<open>The telemetry reports a dialed digit exactly when the machine decodes one, and reports that
  digit, whether the call was idle, dialing or resumed from a pause (for a machine whose pulse count is
  in range, as it is in every reachable state).\<close>
theorem digit_reported_iff_decoded:
  assumes "dial_ok s"
  shows "filter is_dial_log (snd (admit_step s (e, a))) =
    map dial_log (digits_reported (snd (handle_event dbg at a s e)))"
  using accepted_dial_log [OF assms, of e] paused_no_dial_log [of s e]
  by (cases a) (auto simp: handle_event_views admit_step_def snd_admit_step split_beta split: option.split)

theorem digit_reported_iff_decoded_witness:
  "filter is_dial_log (snd (admit_step (Dialing 10) (Tick, True))) = [dial_log 0]"
  using digit_reported_iff_decoded [of "Dialing 10" Tick True "\<lambda>_. []" 0]
  by (simp add: dial_ok_def handle_event_views dialed_digit_for_telemetry_def)

section \<open>Playback\<close>

text \<open>The states that go on only when a playback ends, and what the audio task was last told.\<close>

definition awaits_playback :: "State \<Rightarrow> bool" where
  "awaits_playback s = (case s of
     RingingQuestion _ \<Rightarrow> True | State.PlayingQuestion _ \<Rightarrow> True | State.Beep _ \<Rightarrow> True
   | UploadingTimedOut _ _ beep \<Rightarrow> beep | RecordingEndedBeep \<Rightarrow> True
   | State.PlayingMessage \<Rightarrow> True | State.PlayingInstructions \<Rightarrow> True | State.CallUnavailable \<Rightarrow> True
   | _ \<Rightarrow> False)"

definition clip_playing_upd :: "bool \<Rightarrow> Effect \<Rightarrow> bool" where
  "clip_playing_upd p e = (case e of
     Effect.Play src \<Rightarrow> completes src | StopAudio \<Rightarrow> False | _ \<Rightarrow> p)"

definition playback_agrees :: "bool \<Rightarrow> State \<Rightarrow> bool" where
  "playback_agrees p s \<longleftrightarrow> (awaits_playback s \<longrightarrow> p)"

lemma available_playback:
  "playback_agrees p s \<Longrightarrow>
   playback_agrees (foldl clip_playing_upd p (snd (handle_available s e a))) (fst (handle_available s e a))"
  by (cases s; cases e; cases a)
    (simp_all add: loop_core_defs decode_digit_def playback_agrees_def awaits_playback_def
      clip_playing_upd_def completes_def split: UploadOutcome.splits bool.splits)

lemma led_skip_playback [simp]: "clip_playing_upd p (case_prod SetStatusLed led) = p"
  by (simp add: clip_playing_upd_def split_beta)

interpretation playback: machine_observer admit_step clip_playing_upd playback_agrees
  by unfold_locales
    (simp add: admit_step_def fst_admit_step snd_admit_step available_playback)

text \<open>The booth never waits for a playback it has not asked for: after any run, when the machine is in
  a state that only the end of a playback leaves, the last thing the audio task was told is to play a
  clip that has an end.\<close>
theorem awaited_playback_was_started:
  "if awaits_playback (fst (run_machine admit_step State.Idle es))
   then foldl clip_playing_upd False (snd (run_machine admit_step State.Idle es)) else True"
  using playback.agrees_run [of False State.Idle es]
  by (simp add: playback_agrees_def awaits_playback_def [of State.Idle])

text \<open>The audio task: whether a \<open>PlaybackEnded\<close> would be for the clip started last and not stopped since.\<close>

definition sound_upd :: "bool \<times> bool \<Rightarrow> AudioOut \<Rightarrow> bool \<times> bool" where
  "sound_upd m out = (case out of
     SinkPlay _ \<Rightarrow> (True, snd m) | SinkStop \<Rightarrow> (False, snd m)
   | Tell _ \<Rightarrow> (False, snd m \<and> fst m) | Report _ \<Rightarrow> m)"

definition sound_agrees :: "bool \<times> bool \<Rightarrow> AudioTask \<Rightarrow> bool" where
  "sound_agrees m t \<longleftrightarrow> snd m \<and> (playing t \<and> \<not> over t \<longrightarrow> fst m)"

interpretation sound: machine_observer audio_step sound_upd sound_agrees
  by unfold_locales
    (auto simp: sound_agrees_def sound_upd_def audio_step_def audio_err_def
      split: AudioInput.splits AudioCommand.splits sum.splits)

text \<open>The state machine never advances on the end of the wrong clip: every \<open>PlaybackEnded\<close> the audio task
  sends follows a start of a clip with no stop, other start or earlier end in between, whatever commands,
  ends and adapter errors arrive in whatever order.\<close>
theorem playback_end_is_current:
  "snd (foldl sound_upd (False, True)
     (snd (run_machine audio_step \<lparr>playing = False, over = False\<rparr> inputs)))"
  using sound.agrees_run [of "(False, True)" "\<lparr>playing = False, over = False\<rparr>" inputs]
  by (simp add: sound_agrees_def)

text \<open>A clip whose playback fails ends without a \<open>PlaybackEnded\<close>, so the state that awaits it stays.\<close>

lemma failed_playback_is_silent:
  "Tell e \<notin> set (snd (audio_step t (Command (Play src) stopped (Inl err))))"
  "Tell e \<notin> set (snd (audio_step t (Ended (Inl err))))"
  by (auto simp: audio_step_def audio_err_def split: sum.splits)

end
