(* ===== verification/Telemetry.thy ===== *)
theory Telemetry
  imports Hal "HOL-Library.Multiset"
begin

text \<open>
  The telemetry bus of \<open>crates/booth-telemetry/src/lib.rs\<close>: the bounded replay ring, the
  separately retained status-LED record and \<open>publish\<close>. The bus is shared by tasks on
  several threads, so \<open>publish\<close> is modelled twice: as one operation, and as its four atomic
  actions (take an id, retain the LED record, push, send) interleaved with those of other
  publishers. The clock is an argument; the broadcast channel (tokio) is modelled by the list
  of records handed to it. \<open>next_id\<close> wraps like the atomic it is; that it does not wrap is a
  hypothesis where it matters.
\<close>

section \<open>Records and the ring\<close>

record TelemetryRecord =
  rec_id :: u64
  ts :: nat                        \<comment> \<open>\<open>SystemTime\<close>, nanoseconds since the epoch\<close>
  payload :: TelemetryEvent

record RingBuffer =
  capacity :: nat
  records :: "TelemetryRecord list"

definition ring_new :: "nat \<Rightarrow> RingBuffer" where
  "ring_new cap = \<lparr>capacity = cap, records = []\<rparr>"

text \<open>The eviction loop \<open>while self.records.len() >= self.capacity\<close> pops at the front.\<close>

fun evict :: "nat \<Rightarrow> TelemetryRecord list \<Rightarrow> TelemetryRecord list" where
  "evict cap [] = []"
| "evict cap (r # rs) = (if cap \<le> length (r # rs) then evict cap rs else r # rs)"

definition push :: "RingBuffer \<Rightarrow> TelemetryRecord \<Rightarrow> RingBuffer" where
  "push ring r =
     (if capacity ring = 0 then ring
      else ring\<lparr>records := evict (capacity ring) (records ring) @ [r]\<rparr>)"

definition ring_snapshot_since :: "RingBuffer \<Rightarrow> u64 option \<Rightarrow> TelemetryRecord list" where
  "ring_snapshot_since ring since_id =
     filter (\<lambda>r. case since_id of None \<Rightarrow> True | Some since \<Rightarrow> since < rec_id r) (records ring)"

definition ring_len :: "RingBuffer \<Rightarrow> nat" where
  "ring_len ring = length (records ring)"

definition ring_is_empty :: "RingBuffer \<Rightarrow> bool" where
  "ring_is_empty ring = (records ring = [])"

section \<open>The bus\<close>

record TelemetryBus =
  ring :: RingBuffer
  next_id :: u64
  latest_status_led :: "TelemetryRecord option"
  live :: "TelemetryRecord list"   \<comment> \<open>what was handed to the broadcast channel\<close>

definition bus_new :: "nat \<Rightarrow> TelemetryBus" where
  "bus_new cap = \<lparr>ring = ring_new cap, next_id = 0, latest_status_led = None, live = []\<rparr>"

definition is_status_led :: "TelemetryRecord \<Rightarrow> bool" where
  "is_status_led r = (case payload r of StatusLed _ _ _ \<Rightarrow> True | _ \<Rightarrow> False)"

text \<open>The atomic actions of \<open>publish\<close>: \<open>fetch_add\<close>, the locked block, the push, the send.\<close>

definition stamp :: "TelemetryBus \<Rightarrow> nat \<Rightarrow> TelemetryEvent \<Rightarrow> TelemetryBus \<times> TelemetryRecord" where
  "stamp bus now event =
     (bus\<lparr>next_id := next_id bus + 1\<rparr>,
      \<lparr>rec_id = next_id bus + 1, ts = now, payload = event\<rparr>)"

definition retain_status_led :: "TelemetryBus \<Rightarrow> TelemetryRecord \<Rightarrow> TelemetryBus" where
  "retain_status_led bus r =
     (if is_status_led r \<and>
         (case latest_status_led bus of None \<Rightarrow> True | Some held \<Rightarrow> rec_id held < rec_id r)
      then bus\<lparr>latest_status_led := Some r\<rparr> else bus)"

definition push_record :: "TelemetryBus \<Rightarrow> TelemetryRecord \<Rightarrow> TelemetryBus" where
  "push_record bus r = bus\<lparr>ring := push (ring bus) r\<rparr>"

definition send_record :: "TelemetryBus \<Rightarrow> TelemetryRecord \<Rightarrow> TelemetryBus" where
  "send_record bus r = bus\<lparr>live := live bus @ [r]\<rparr>"

definition publish :: "TelemetryBus \<Rightarrow> nat \<Rightarrow> TelemetryEvent \<Rightarrow> TelemetryBus" where
  "publish bus now event =
     (let (bus1, r) = stamp bus now event;
          bus2 = retain_status_led bus1 r;
          bus3 = push_record bus2 r
      in send_record bus3 r)"

definition snapshot_since :: "TelemetryBus \<Rightarrow> u64 option \<Rightarrow> TelemetryRecord list" where
  "snapshot_since bus since_id = ring_snapshot_since (ring bus) since_id"

section \<open>Interleaved publishers\<close>

text \<open>
  Publishers in flight, each with the record it stamped and the next action it will take.
\<close>

datatype phase = Stamped | Retained | Pushed

record BusSystem =
  bus :: TelemetryBus
  in_flight :: "(phase \<times> TelemetryRecord) list"

inductive bus_step :: "BusSystem \<Rightarrow> BusSystem \<Rightarrow> bool" where
  begin_publish:
    "stamp (bus sys) now event = (b, r) \<Longrightarrow>
     bus_step sys (sys\<lparr>bus := b, in_flight := in_flight sys @ [(Stamped, r)]\<rparr>)"
| do_retain:
    "in_flight sys = ps @ (Stamped, r) # qs \<Longrightarrow>
     bus_step sys (sys\<lparr>bus := retain_status_led (bus sys) r,
       in_flight := ps @ (Retained, r) # qs\<rparr>)"
| do_push:
    "in_flight sys = ps @ (Retained, r) # qs \<Longrightarrow>
     bus_step sys (sys\<lparr>bus := push_record (bus sys) r, in_flight := ps @ (Pushed, r) # qs\<rparr>)"
| do_send:
    "in_flight sys = ps @ (Pushed, r) # qs \<Longrightarrow>
     bus_step sys (sys\<lparr>bus := send_record (bus sys) r, in_flight := ps @ qs\<rparr>)"

inductive bus_reachable :: "nat \<Rightarrow> BusSystem \<Rightarrow> bool" for cap :: nat where
  start: "bus_reachable cap \<lparr>bus = bus_new cap, in_flight = []\<rparr>"
| step: "bus_reachable cap s \<Longrightarrow> bus_step s s' \<Longrightarrow> bus_reachable cap s'"

section \<open>The ring\<close>

lemma evict_eq: "0 < cap \<Longrightarrow> evict cap rs = drop (length rs - (cap - 1)) rs"
proof (induction rs)
  case (Cons r rs)
  show ?case
  proof (cases "cap \<le> length (r # rs)")
    case True
    then have "length (r # rs) - (cap - 1) = Suc (length rs - (cap - 1))"
      using Cons.prems by simp
    with True Cons show ?thesis by simp
  qed simp
qed simp

lemma capacity_push [simp]: "capacity (push rg r) = capacity rg"
  by (simp add: push_def)

lemma length_push:
  "length (records rg) \<le> capacity rg \<Longrightarrow> length (records (push rg r)) \<le> capacity rg"
  by (auto simp: push_def evict_eq)

text \<open>A ring is a bounded queue of its capacity; fed from empty, it retains the newest records.\<close>

lemma records_push:
  "capacity rg = cap \<Longrightarrow> length (records rg) \<le> cap \<Longrightarrow>
   records (push rg r) = keep_last cap (records rg @ [r])"
  by (auto simp: push_def evict_eq keep_last_def)

interpretation replay_ring: bounded_fifo push records "\<lambda>r. r" cap
  "\<lambda>n rg. capacity rg = cap \<and> length (records rg) \<le> cap" for cap
  by unfold_locales (auto simp: records_push length_push)

lemma records_push_all: "records (foldl push (ring_new cap) rs) = keep_last cap rs"
  using replay_ring.contents_pushes [of "ring_new cap" cap rs] by (simp add: ring_new_def)

section \<open>One publisher\<close>

fun publish_all :: "TelemetryBus \<Rightarrow> (nat \<times> TelemetryEvent) list \<Rightarrow> TelemetryBus" where
  "publish_all b [] = b"
| "publish_all b ((now, event) # es) = publish_all (publish b now event) es"

lemma bus_selectors [simp]:
  "ring (retain_status_led b r) = ring b"
  "next_id (retain_status_led b r) = next_id b"
  "live (retain_status_led b r) = live b"
  "latest_status_led (push_record b r) = latest_status_led b"
  "next_id (push_record b r) = next_id b"
  "live (push_record b r) = live b"
  "ring (push_record b r) = push (ring b) r"
  "ring (send_record b r) = ring b"
  "next_id (send_record b r) = next_id b"
  "latest_status_led (send_record b r) = latest_status_led b"
  "live (send_record b r) = live b @ [r]"
  by (simp_all add: retain_status_led_def push_record_def send_record_def)

text \<open>The records the bus makes of a list of events, after \<open>n\<close> earlier ones.\<close>

definition stamped :: "nat \<Rightarrow> (nat \<times> TelemetryEvent) list \<Rightarrow> TelemetryRecord list" where
  "stamped n es =
     map (\<lambda>(i, now, event). \<lparr>rec_id = of_nat (n + i + 1), ts = now, payload = event\<rparr>)
       (enumerate 0 es)"

lemma stamped_Cons:
  "stamped n ((now, event) # es) =
     \<lparr>rec_id = of_nat (n + 1), ts = now, payload = event\<rparr> # stamped (Suc n) es"
  by (simp add: stamped_def enumerate_Suc_eq) (simp add: case_prod_beta)

lemma publish_all_eq:
  "next_id b = of_nat n \<Longrightarrow>
   ring (publish_all b es) = foldl push (ring b) (stamped n es) \<and>
   live (publish_all b es) = live b @ stamped n es"
proof (induction es arbitrary: b n)
  case (Cons e es)
  obtain now event where e: "e = (now, event)" by fastforce
  have "next_id (publish b now event) = of_nat (Suc n)"
    using Cons.prems by (simp add: publish_def stamp_def Let_def)
  then show ?case
    using Cons.IH [of "publish b now event" "Suc n"] Cons.prems
    by (simp add: e stamped_Cons publish_def stamp_def Let_def add.commute)
qed (simp add: stamped_def)

section \<open>Many publishers\<close>

text \<open>The records published so far, and those whose LED block has been executed.\<close>

definition published :: "BusSystem \<Rightarrow> TelemetryRecord multiset" where
  "published sys = mset (live (bus sys)) + mset (map snd (in_flight sys))"

definition retained :: "BusSystem \<Rightarrow> TelemetryRecord set" where
  "retained sys = set (live (bus sys)) \<union> {r. \<exists>ph. (ph, r) \<in> set (in_flight sys) \<and> ph \<noteq> Stamped}"

definition newest_led :: "TelemetryRecord option \<Rightarrow> TelemetryRecord set \<Rightarrow> bool" where
  "newest_led latest rs =
     (case latest of
        None \<Rightarrow> \<forall>r \<in> rs. \<not> is_status_led r
      | Some l \<Rightarrow> l \<in> rs \<and> is_status_led l \<and> (\<forall>r \<in> rs. is_status_led r \<longrightarrow> rec_id r \<le> rec_id l))"

lemma newest_led_retain:
  "newest_led (latest_status_led b) rs \<Longrightarrow>
   newest_led (latest_status_led (retain_status_led b r)) (insert r rs)"
  by (auto simp: newest_led_def retain_status_led_def not_less split: option.splits
      intro: order.strict_implies_order order.trans)

inductive_cases bus_stepE: "bus_step sys sys'"

lemma step_retained:
  assumes "bus_step sys sys'"
  shows "retained sys' = retained sys \<and> latest_status_led (bus sys') = latest_status_led (bus sys) \<or>
    (\<exists>r. retained sys' = insert r (retained sys) \<and>
      latest_status_led (bus sys') = latest_status_led (retain_status_led (bus sys) r))"
  using assms
proof (cases rule: bus_step.cases)
  case (do_retain ps r qs)
  then have "retained sys' = insert r (retained sys)"
    by (auto simp: retained_def)
  then show ?thesis
    using do_retain by auto
qed (auto simp: retained_def stamp_def)

lemma reachable_newest_led:
  "bus_reachable cap sys \<Longrightarrow> newest_led (latest_status_led (bus sys)) (retained sys)"
proof (induction rule: bus_reachable.induct)
  case start
  then show ?case by (simp add: newest_led_def bus_new_def retained_def)
next
  case (step s s')
  then show ?case
    using step_retained [OF step.hyps(2)] newest_led_retain by metis
qed

lemma step_published:
  assumes "bus_step sys sys'"
  shows "published sys' = published sys \<and> next_id (bus sys') = next_id (bus sys) \<or>
    (\<exists>r. published sys' = add_mset r (published sys) \<and>
      rec_id r = next_id (bus sys) + 1 \<and> next_id (bus sys') = next_id (bus sys) + 1)"
  using assms
  by (cases rule: bus_step.cases) (auto simp: published_def stamp_def)

lemma reachable_next_id:
  "bus_reachable cap sys \<Longrightarrow> next_id (bus sys) = of_nat (size (published sys))"
proof (induction rule: bus_reachable.induct)
  case start
  then show ?case by (simp add: bus_new_def published_def)
next
  case (step s s')
  then show ?case using step_published [OF step.hyps(2)] by auto
qed

lemma reachable_ids:
  "bus_reachable cap sys \<Longrightarrow> size (published sys) < 2 ^ 64 \<Longrightarrow>
   image_mset (\<lambda>r. unat (rec_id r)) (published sys) = mset [1..<Suc (size (published sys))]"
proof (induction rule: bus_reachable.induct)
  case start
  then show ?case by (simp add: bus_new_def published_def)
next
  case (step s s')
  note id = reachable_next_id [OF step.hyps(1)]
  from step_published [OF step.hyps(2)] show ?case
  proof (elim disjE conjE exE)
    assume "published s' = published s"
    then show ?case using step by simp
  next
    fix r
    assume r: "published s' = add_mset r (published s)" "rec_id r = next_id (bus s) + 1"
    let ?n = "size (published s)"
    have n: "Suc ?n < 2 ^ 64" using step.prems r(1) by simp
    then have "unat (rec_id r) = Suc ?n"
      unfolding r(2) id by (simp add: unat_word_ariths unat_of_nat take_bit_nat_eq_self)
    then show ?case
      using step.IH n by (simp add: r(1))
  qed
qed

lemma reachable_bounded:
  "bus_reachable cap sys \<Longrightarrow> ring_len (ring (bus sys)) \<le> cap \<and> capacity (ring (bus sys)) = cap"
proof (induction rule: bus_reachable.induct)
  case start
  then show ?case by (simp add: bus_new_def ring_new_def ring_len_def)
next
  case (step s s')
  from step.hyps(2) step.IH show ?case
    by (cases rule: bus_step.cases)
      (use length_push [of "ring (bus s)"] in \<open>auto simp: stamp_def ring_len_def\<close>)
qed

text \<open>The one-operation view of \<open>publish\<close> is the run of its four actions on their own.\<close>

lemma publish_reachable:
  assumes "bus_reachable cap \<lparr>bus = b, in_flight = []\<rparr>"
  shows "bus_reachable cap \<lparr>bus = publish b now event, in_flight = []\<rparr>"
proof -
  obtain b1 r where r: "stamp b now event = (b1, r)" by fastforce
  let ?b2 = "retain_status_led b1 r"
  have "bus_reachable cap \<lparr>bus = b1, in_flight = [(Stamped, r)]\<rparr>"
    using bus_reachable.step [OF assms begin_publish] r by fastforce
  then have "bus_reachable cap \<lparr>bus = ?b2, in_flight = [(Retained, r)]\<rparr>"
    using bus_reachable.step [OF _ do_retain [of _ "[]" r "[]"]] by fastforce
  then have "bus_reachable cap \<lparr>bus = push_record ?b2 r, in_flight = [(Pushed, r)]\<rparr>"
    using bus_reachable.step [OF _ do_push [of _ "[]" r "[]"]] by fastforce
  then have "bus_reachable cap \<lparr>bus = send_record (push_record ?b2 r) r, in_flight = []\<rparr>"
    using bus_reachable.step [OF _ do_send [of _ "[]" r "[]"]] by fastforce
  then show ?thesis by (simp add: publish_def r)
qed

lemma filter_above:
  assumes "k \<le> s" and "\<And>i. i < length xs \<Longrightarrow> P (xs ! i) \<longleftrightarrow> s \<le> i"
  shows "filter P (drop k xs) = drop s xs"
proof -
  have "drop k xs = take (s - k) (drop k xs) @ drop s xs"
    using append_take_drop_id [of "s - k" "drop k xs"] assms(1) by simp
  moreover have "filter P (take (s - k) (drop k xs)) = []"
    using assms by (auto simp: filter_empty_conv in_set_conv_nth)
  moreover have "filter P (drop s xs) = drop s xs"
    using assms(2) by (auto simp: filter_id_conv in_set_conv_nth)
  ultimately show ?thesis by (metis append_Nil filter_append)
qed

abbreviation led_red :: TelemetryEvent where
  "led_red \<equiv> StatusLed Red (Steady 255) 0"

lemma led_red_reachable: "bus_reachable 2 \<lparr>bus = publish (bus_new 2) 0 led_red, in_flight = []\<rparr>"
  by (rule publish_reachable) (rule bus_reachable.start)

section \<open>Properties\<close>

text \<open>C18. However the publishers interleave, once none is in flight the retained status-LED
  record is the newest of all status-LED records published, and it is absent only when none
  was: an out-of-order publisher can not pin the slot to a superseded indication.\<close>
theorem latest_status_led_is_newest:
  assumes "bus_reachable cap sys" and "in_flight sys = []"
  shows "newest_led (latest_status_led (bus sys)) (set (live (bus sys)))"
  using reachable_newest_led [OF assms(1)] by (simp add: retained_def assms(2))

theorem latest_status_led_is_newest_witness:
  "newest_led (Some \<lparr>rec_id = 1, ts = 0, payload = led_red\<rparr>)
     {\<lparr>rec_id = 1, ts = 0, payload = led_red\<rparr>}"
  using latest_status_led_is_newest [OF led_red_reachable]
  by (simp add: publish_def stamp_def retain_status_led_def push_record_def send_record_def
      bus_new_def is_status_led_def)

text \<open>Record ids are unique and gap-free under any interleaving: the records published
  so far carry exactly the ids from 1 to their number, as long as the 64-bit counter has not
  wrapped; and the ring never holds more than its capacity.\<close>
theorem record_ids_gap_free:
  assumes "bus_reachable cap sys" and "size (published sys) < 2 ^ 64"
  shows "image_mset (\<lambda>r. unat (rec_id r)) (published sys) = mset [1..<Suc (size (published sys))] \<and>
    ring_len (ring (bus sys)) \<le> cap"
  using reachable_ids [OF assms] reachable_bounded [OF assms(1)] by simp

theorem record_ids_gap_free_witness:
  "let sys = \<lparr>bus = publish (bus_new 2) 0 led_red, in_flight = []\<rparr> in
     image_mset (\<lambda>r. unat (rec_id r)) (published sys) = mset [1..<Suc (size (published sys))] \<and>
     ring_len (ring (bus sys)) \<le> 2"
  unfolding Let_def
  by (rule record_ids_gap_free [OF led_red_reachable])
    (simp add: published_def publish_def stamp_def bus_new_def)

text \<open>A client that has seen the records up to \<open>seen\<close> and asks for what came after gets
  exactly the records published since, in order and without a gap, as long as it is at most
  one ring behind.\<close>
theorem replay_catches_up:
  assumes "length es < 2 ^ 64" and "seen \<le> length es" and "length es \<le> cap + seen"
  shows "snapshot_since (publish_all (bus_new cap) es) (Some (of_nat seen)) =
    drop seen (live (publish_all (bus_new cap) es))"
proof -
  let ?rs = "stamped 0 es"
  have all: "ring (publish_all (bus_new cap) es) = foldl push (ring_new cap) ?rs"
    "live (publish_all (bus_new cap) es) = ?rs"
    using publish_all_eq [of "bus_new cap" 0 es] by (simp_all add: bus_new_def)
  have len: "length ?rs = length es" by (simp add: stamped_def)
  have id: "unat (rec_id (?rs ! i)) = Suc i" if "i < length es" for i
    using that assms(1) by (simp add: stamped_def case_prod_beta unat_of_nat take_bit_nat_eq_self nth_enumerate_eq flip: of_nat_Suc)
  let ?k = "length es - cap"
  have "filter (\<lambda>r. (of_nat seen :: u64) < rec_id r) (drop ?k ?rs) = drop seen ?rs"
      using assms id by (intro filter_above) (simp_all add: len word_less_nat_alt unat_of_nat take_bit_nat_eq_self less_Suc_eq_le)
  then show ?thesis
    by (simp add: snapshot_since_def ring_snapshot_since_def all records_push_all keep_last_def len)
qed

theorem replay_catches_up_witness:
  "snapshot_since (publish_all (bus_new 2) [(0, led_red), (1, led_red), (2, led_red)]) (Some 1) =
     drop 1 (live (publish_all (bus_new 2) [(0, led_red), (1, led_red), (2, led_red)]))"
  using replay_catches_up [of "[(0, led_red), (1, led_red), (2, led_red)]" 1 2] by simp

end
