(* ===== verification/Sessions.thy ===== *)
theory Sessions
  imports Runtime Telemetry
begin

text \<open>
  Call sessions, from \<open>crates/booth-bin/src/observability.rs\<close>: \<open>SessionTracker\<close> derives the markers of a
  call from the telemetry, \<open>ingest_record\<close> stamps what is forwarded with the sequence number of this
  boot and buffers it, and the status heartbeat repeats the booth's status. The random session id is
  an argument (\<open>fresh\<close>). The wire envelope is a record; its JSON text is outside.
\<close>

section \<open>The session tracker\<close>

datatype SessionPhase =
  Prompt | Recording | Uploading | RecordingDone | RecordingFailed | OperatorErrorPhase

record LiveSession =
  session :: string
  phase :: SessionPhase
  digits :: string

record SessionTracker =
  current :: "LiveSession option"

definition tracker_new :: SessionTracker where
  "tracker_new = \<lparr>current = None\<rparr>"

definition resting :: "string \<Rightarrow> bool" where
  "resting name \<longleftrightarrow> name = ''idle'' \<or> name = ''calls_paused''"

definition phase_after :: "string \<Rightarrow> SessionPhase \<Rightarrow> SessionPhase" where
  "phase_after to_tag p =
     (if to_tag = ''recording'' then SessionPhase.Recording
      else if to_tag = ''uploading'' \<or> to_tag = ''uploading_timeout'' then SessionPhase.Uploading
      else if to_tag = ''error'' then OperatorErrorPhase
      else p)"

definition call_outcome :: "string \<Rightarrow> LiveSession \<Rightarrow> CallOutcome" where
  "call_outcome to_tag s =
     (if phase s \<in> {Prompt, SessionPhase.Recording, SessionPhase.Uploading} \<and> to_tag = ''calls_paused''
      then Aborted
      else case phase s of
        Prompt \<Rightarrow> (if digits s = [] then HungUpBeforeDial else HungUpDuringPrompt)
      | SessionPhase.Recording \<Rightarrow> HungUpDuringRecording
      | SessionPhase.Uploading \<Rightarrow> HungUpDuringUpload
      | RecordingDone \<Rightarrow> RecordingCompleted
      | SessionPhase.RecordingFailed \<Rightarrow> CallOutcome.UploadFailed
      | OperatorErrorPhase \<Rightarrow> CallOutcome.OperatorError)"

definition set_phase :: "SessionPhase \<Rightarrow> SessionTracker \<Rightarrow> SessionTracker" where
  "set_phase p t = t\<lparr>current := map_option (\<lambda>s. s\<lparr>phase := p\<rparr>) (current t)\<rparr>"

definition observe_event ::
    "string \<Rightarrow> SessionTracker \<Rightarrow> TelemetryEvent \<Rightarrow> u64 \<Rightarrow> SessionTracker \<times> TelemetryEvent list" where
  "observe_event fresh t event ns = (case event of
     StateTransition from_tag to_tag _ _ \<Rightarrow>
       (let was_idle = resting from_tag; now_idle = resting to_tag;
            starts = was_idle \<and> \<not> now_idle \<and> current t = None;
            live0 = (if starts then Some \<lparr>session = fresh, phase = Prompt, digits = []\<rparr> else current t);
            live1 = map_option (\<lambda>s. s\<lparr>phase := phase_after to_tag (phase s)\<rparr>) live0;
            started = (if starts then [CallStarted fresh ns] else [])
        in case live1 of
             Some s \<Rightarrow>
               (if \<not> was_idle \<and> now_idle
                then (\<lparr>current = None\<rparr>,
                      started @ [CallEnded (session s) (call_outcome to_tag s) (digits s) ns])
                else (\<lparr>current = Some s\<rparr>, started))
           | None \<Rightarrow> (\<lparr>current = None\<rparr>, started))
   | TelemetryEvent.DigitDialed digit _ _ \<Rightarrow>
       (t\<lparr>current := map_option (\<lambda>s. s\<lparr>digits := digits s @ show_word digit\<rparr>) (current t)\<rparr>, [])
   | UploadCompleted _ _ _ _ _ \<Rightarrow> (set_phase RecordingDone t, [])
   | TelemetryEvent.UploadFailed _ _ _ _ \<Rightarrow> (set_phase SessionPhase.RecordingFailed t, [])
   | _ \<Rightarrow> (t, []))"

definition current_session_id :: "SessionTracker \<Rightarrow> string option" where
  "current_session_id t = map_option session (current t)"

section \<open>The wire envelope\<close>

definition should_forward :: "TelemetryEvent \<Rightarrow> bool" where
  "should_forward event = (case event of
     AudioLevelEvent _ \<Rightarrow> False
   | GpioEdgeEvent _ \<Rightarrow> False
   | StatusLed _ _ _ \<Rightarrow> False
   | SystemSample _ _ \<Rightarrow> False
   | CallStarted _ _ \<Rightarrow> False
   | CallEnded _ _ _ _ \<Rightarrow> False
   | _ \<Rightarrow> True)"

definition event_kind :: "TelemetryEvent \<Rightarrow> string" where
  "event_kind event = (case event of
     GpioEdgeEvent _ \<Rightarrow> ''gpio_edge''
   | StatusLed _ _ _ \<Rightarrow> ''status_led''
   | TelemetryEvent.DigitDialed _ _ _ \<Rightarrow> ''digit_dialed''
   | StateTransition _ _ _ _ \<Rightarrow> ''state_transition''
   | AudioLevelEvent _ \<Rightarrow> ''audio_level''
   | AudioDeviceChange _ _ \<Rightarrow> ''audio_device_change''
   | OperatorRequest _ _ \<Rightarrow> ''operator_request''
   | OperatorResponse _ _ _ \<Rightarrow> ''operator_response''
   | TelemetryEvent.Log _ _ _ \<Rightarrow> ''log''
   | TelemetryEvent.Error _ _ \<Rightarrow> ''error''
   | SystemSample _ _ \<Rightarrow> ''system_sample''
   | CallStarted _ _ \<Rightarrow> ''call_started''
   | CallEnded _ _ _ _ \<Rightarrow> ''call_ended''
   | RecordingStarted _ _ _ \<Rightarrow> ''recording_started''
   | RecordingStopped _ _ _ _ _ \<Rightarrow> ''recording_stopped''
   | UploadStarted _ _ _ \<Rightarrow> ''upload_started''
   | UploadCompleted _ _ _ _ _ \<Rightarrow> ''upload_completed''
   | TelemetryEvent.UploadFailed _ _ _ _ \<Rightarrow> ''upload_failed'')"

definition session_id_of :: "TelemetryEvent \<Rightarrow> string option" where
  "session_id_of event = (case event of
     CallStarted s _ \<Rightarrow> Some s
   | CallEnded s _ _ _ \<Rightarrow> Some s
   | RecordingStarted _ s _ \<Rightarrow> Some s
   | RecordingStopped _ s _ _ _ \<Rightarrow> Some s
   | UploadStarted _ s _ \<Rightarrow> Some s
   | UploadCompleted _ s _ _ _ \<Rightarrow> Some s
   | TelemetryEvent.UploadFailed _ s _ _ \<Rightarrow> Some s
   | _ \<Rightarrow> None)"

definition recording_id_of :: "TelemetryEvent \<Rightarrow> RecordingId option" where
  "recording_id_of event = (case event of
     RecordingStarted r _ _ \<Rightarrow> Some r
   | RecordingStopped r _ _ _ _ \<Rightarrow> Some r
   | UploadStarted r _ _ \<Rightarrow> Some r
   | UploadCompleted r _ _ _ _ \<Rightarrow> Some r
   | TelemetryEvent.UploadFailed r _ _ _ \<Rightarrow> Some r
   | _ \<Rightarrow> None)"

definition monotonic_ns_of :: "TelemetryEvent \<Rightarrow> u64" where
  "monotonic_ns_of event = (case event of
     StateTransition _ _ _ at \<Rightarrow> at
   | TelemetryEvent.DigitDialed _ _ at \<Rightarrow> at
   | SystemSample _ at \<Rightarrow> at
   | CallStarted _ at \<Rightarrow> at
   | CallEnded _ _ _ at \<Rightarrow> at
   | RecordingStarted _ _ at \<Rightarrow> at
   | RecordingStopped _ _ _ _ at \<Rightarrow> at
   | UploadStarted _ _ at \<Rightarrow> at
   | UploadCompleted _ _ _ _ at \<Rightarrow> at
   | TelemetryEvent.UploadFailed _ _ _ at \<Rightarrow> at
   | _ \<Rightarrow> 0)"

definition session_id_for_wire :: "TelemetryEvent \<Rightarrow> string option \<Rightarrow> string option" where
  "session_id_for_wire event active = (case event of
     TelemetryEvent.DigitDialed _ _ _ \<Rightarrow> active | _ \<Rightarrow> session_id_of event)"

record RuntimeIdentity =
  booth_id :: string
  boot_id :: string
  version :: string

record Envelope =
  event_id :: string
  env_booth :: string
  env_boot :: string
  kind :: string
  occurred_at :: string
  env_version :: string
  session_id :: "string option"
  recording_id :: "RecordingId option"
  env_payload :: TelemetryEvent

definition next_event_seq :: "u64 \<Rightarrow> u64 \<times> u64" where
  "next_event_seq next = (next, saturating_add next 1)"

definition envelope ::
    "RuntimeIdentity \<Rightarrow> string \<Rightarrow> string \<Rightarrow> string option \<Rightarrow> RecordingId option \<Rightarrow> TelemetryEvent \<Rightarrow>
     u64 \<Rightarrow> Envelope" where
  "envelope who now k sid rid event serial =
     \<lparr>event_id = boot_id who @ '':'' @ show_word serial, env_booth = booth_id who, env_boot = boot_id who,
      kind = k, occurred_at = now, env_version = version who, session_id = sid,
      recording_id = rid, env_payload = event\<rparr>"

definition wire_for ::
    "RuntimeIdentity \<Rightarrow> string \<Rightarrow> TelemetryEvent \<Rightarrow> u64 \<Rightarrow> string option \<Rightarrow> Envelope option \<times> u64" where
  "wire_for who now event next active =
     (if \<not> should_forward event then (None, next)
      else (let (serial, next') = next_event_seq next in
        (Some (envelope who now (event_kind event) (session_id_for_wire event active)
           (recording_id_of event) event serial), next')))"

definition wire_for_synthetic ::
    "RuntimeIdentity \<Rightarrow> string \<Rightarrow> TelemetryEvent \<Rightarrow> u64 \<Rightarrow> Envelope \<times> u64" where
  "wire_for_synthetic who now event next =
     (let (serial, next') = next_event_seq next in
      (envelope who now (event_kind event) (session_id_of event) (recording_id_of event) event serial,
       next'))"

section \<open>Buffering\<close>

definition push_with_cap :: "nat \<Rightarrow> 'v list \<times> u64 \<Rightarrow> 'v \<Rightarrow> 'v list \<times> u64" where
  "push_with_cap cap buf item = (case buf of (batch, dropped) \<Rightarrow>
     (if cap \<le> length batch then (tl batch @ [item], saturating_add dropped 1)
      else (batch @ [item], dropped)))"

record Ingest =
  tracker :: SessionTracker
  session_handle :: "string option"     \<comment> \<open>what \<open>SessionHandle::current\<close> returns\<close>
  next_seq :: u64
  batch :: "Envelope list"
  dropped :: u64

definition push_wire :: "nat \<Rightarrow> Envelope \<Rightarrow> Ingest \<Rightarrow> Ingest" where
  "push_wire cap wire g =
     (let (b, n) = push_with_cap cap (batch g, dropped g) wire in g\<lparr>batch := b, dropped := n\<rparr>)"

definition push_synthetic ::
    "RuntimeIdentity \<Rightarrow> string \<Rightarrow> nat \<Rightarrow> TelemetryEvent \<Rightarrow> Ingest \<Rightarrow> Ingest" where
  "push_synthetic who now cap synth g =
     (let (wire, next') = wire_for_synthetic who now synth (next_seq g)
      in push_wire cap wire (g\<lparr>next_seq := next'\<rparr>))"

text \<open>The result's second part is what is published back to the bus.\<close>

definition ingest_record ::
    "RuntimeIdentity \<Rightarrow> nat \<Rightarrow> string \<Rightarrow> string \<Rightarrow> TelemetryRecord \<Rightarrow> Ingest \<Rightarrow> Ingest \<times> TelemetryEvent list"
  where
  "ingest_record who cap fresh now r g =
     (let event = payload r;
          (t, synthetic) = observe_event fresh (tracker g) event (monotonic_ns_of event);
          active = current_session_id t;
          (wire, next') = wire_for who now event (next_seq g) active;
          g1 = g\<lparr>tracker := t, session_handle := active, next_seq := next'\<rparr>;
          g2 = (case wire of None \<Rightarrow> g1 | Some w \<Rightarrow> push_wire cap w g1)
      in (fold (push_synthetic who now cap) synthetic g2, synthetic))"

section \<open>The status heartbeat\<close>

definition state_name_to_booth_status :: "string \<Rightarrow> BoothStatus" where
  "state_name_to_booth_status name =
     (if name \<in> {''idle'', ''Idle''} then BoothStatus.Idle
      else if name \<in> {''dial_tone'', ''dialing'', ''DialTone''} then BoothStatus.DialTone
      else if name \<in> {''ringing_question'', ''playing_question'', ''beep'', ''PlayingQuestion''}
        then BoothStatus.PlayingQuestion
      else if name \<in> {''recording'', ''Recording''} then BoothStatus.Recording
      else if name \<in> {''finishing_timeout_recording'', ''uploading'', ''uploading_timeout'',
                      ''recording_end_beep'', ''Uploading''} then BoothStatus.Uploading
      else if name \<in> {''playing_message'', ''PlayingMessage''} then BoothStatus.PlayingMessage
      else if name \<in> {''playing_instructions'', ''PlayingInstructions''}
        then BoothStatus.PlayingInstructions
      else if name \<in> {''call_unavailable'', ''CallUnavailable''} then BoothStatus.CallUnavailable
      else BoothStatus.Idle)"

datatype HeartbeatInput = Beat | BusRecord TelemetryEvent | BusLagged

definition heartbeat_step :: "BoothStatus \<Rightarrow> HeartbeatInput \<Rightarrow> BoothStatus \<times> BoothStatus list" where
  "heartbeat_step current_status input = (case input of
     Beat \<Rightarrow> (current_status, [current_status])
   | BusRecord (StateTransition _ to_tag _ _) \<Rightarrow> (state_name_to_booth_status to_tag, [])
   | _ \<Rightarrow> (current_status, []))"

section \<open>The system pusher\<close>

text \<open>
  Readings of the clock are nanoseconds; \<open>last_pushed\<close> starts an hour in the past where the clock
  goes back that far. A sample is put unless the last accepted one is more recent than the
  interval; \<open>ok\<close> is whether the operator takes it.
\<close>

definition pusher_start :: "nat \<Rightarrow> nat" where
  "pusher_start now = (if 3600 * 1000000000 \<le> now then now - 3600 * 1000000000 else now)"

definition pusher_step ::
    "nat \<Rightarrow> nat \<Rightarrow> TelemetryEvent \<times> nat \<times> nat \<times> bool \<Rightarrow> nat \<times> SystemSnapshot list" where
  "pusher_step min_interval last_pushed input = (case input of
     (SystemSample snap _, now, answered, ok) \<Rightarrow>
       (if now - last_pushed < min_interval then (last_pushed, [])
        else (if ok then answered else last_pushed, [snap]))
   | _ \<Rightarrow> (last_pushed, []))"

section \<open>Sessions are well bracketed\<close>

text \<open>A run of the tracker: each event with the id a session started by it would get.\<close>

definition tracker_step ::
    "SessionTracker \<Rightarrow> string \<times> TelemetryEvent \<Rightarrow> SessionTracker \<times> TelemetryEvent list" where
  "tracker_step t fe = observe_event (fst fe) t (snd fe) (monotonic_ns_of (snd fe))"

lemmas tracker_defs = tracker_step_def observe_event_def current_session_id_def set_phase_def

text \<open>
  The session open after a list of markers, starting with session \<open>m\<close>; \<open>None\<close> when a call starts
  inside another, ends without having started or under another id.
\<close>

fun brackets :: "string option option \<Rightarrow> TelemetryEvent \<Rightarrow> string option option" where
  "brackets (Some None) (CallStarted s _) = Some (Some s)"
| "brackets (Some (Some s)) (CallEnded s' _ _ _) = (if s = s' then Some None else None)"
| "brackets _ _ = None"

interpretation session_markers: machine_monitor tracker_step "\<lambda>t. Some (current_session_id t)" brackets
proof
  fix t :: SessionTracker and fe :: "string \<times> TelemetryEvent"
  show "foldl brackets (Some (current_session_id t)) (snd (tracker_step t fe)) =
      Some (current_session_id (fst (tracker_step t fe)))"
    by (cases "current t"; cases "snd fe")
      (simp_all add: tracker_defs Let_def)
qed

section \<open>Sessions follow the calls\<close>

text \<open>Who is in a call, and whether every digit so far was dialed in one.\<close>

definition in_call :: "State \<Rightarrow> bool" where
  "in_call s \<longleftrightarrow> \<not> (s = State.Idle \<or> is_paused s)"

definition call_view :: "bool \<times> bool \<Rightarrow> TelemetryEvent \<Rightarrow> bool \<times> bool" where
  "call_view v event = (case (v, event) of
     ((inside, ok), StateTransition f t _ _) \<Rightarrow>
       (if resting f then inside \<or> \<not> resting t else inside \<and> \<not> resting t, ok)
   | ((inside, ok), TelemetryEvent.DigitDialed _ _ _) \<Rightarrow> (inside, ok \<and> inside)
   | _ \<Rightarrow> v)"

definition is_call_event :: "TelemetryEvent \<Rightarrow> bool" where
  "is_call_event event = (case event of
     StateTransition _ _ _ _ \<Rightarrow> True | TelemetryEvent.DigitDialed _ _ _ \<Rightarrow> True | _ \<Rightarrow> False)"

definition announced :: "LoopOut list \<Rightarrow> TelemetryEvent list" where
  "announced outs = List.map_filter (\<lambda>out. case out of Announce e \<Rightarrow> Some e | _ \<Rightarrow> None) outs"

lemma resting_tag: "resting (tag s) \<longleftrightarrow> \<not> in_call s"
  by (cases s) (simp_all add: resting_def tag_def in_call_def is_paused_def)

lemma call_view_skip: "\<not> is_call_event e \<Longrightarrow> call_view v e = v"
  by (cases v; cases e) (simp_all add: call_view_def is_call_event_def)

lemma call_view_filter: "foldl call_view v (filter is_call_event es) = foldl call_view v es"
  by (induction es arbitrary: v) (simp_all add: call_view_skip)

lemma tracker_view:
  "fst (call_view (current t \<noteq> None, ok) (snd fe)) \<longleftrightarrow> current (fst (tracker_step t fe)) \<noteq> None"
  by (cases "current t"; cases "snd fe")
    (simp_all add: tracker_defs call_view_def Let_def)

lemma digit_during_call:
  "dialed_digit_for_telemetry s e = Some x \<Longrightarrow> in_call s \<or> is_paused s \<and> in_call (fst (admit_step s (e, True)))"
  by (cases s; cases e)
    (auto simp: dialed_digit_for_telemetry_def in_call_def admit_step_def fst_admit_step available_defs
      split: if_splits bool.splits UploadOutcome.splits)

lemma call_view_loop:
  assumes "inside \<longleftrightarrow> in_call s"
  shows "foldl call_view (inside, ok) (announced (snd (handle_event dbg at admit s e))) =
    (in_call (fst (handle_event dbg at admit s e)), ok)"
proof -
  let ?t = "fst (handle_event dbg at admit s e)"
  let ?tr = "StateTransition (tag s) (tag ?t) (dbg e) at"
  have moved: "call_view (inside, ok) ?tr = (in_call ?t, ok)" for ok
    using assms by (auto simp: call_view_def resting_tag)
  let ?digit = "if admit then dialed_digit_for_telemetry s e else None"
  have out: "announced (snd (handle_event dbg at admit s e)) =
      (if resumes_call s ?t then [?tr] else []) @
      (case ?digit of None \<Rightarrow> [] | Some (d, p) \<Rightarrow> [TelemetryEvent.DigitDialed d p at]) @
      (if resumes_call s ?t then [] else [?tr])"
    by (auto simp: handle_event_def announced_def publish_transition_def split_beta Let_def
        List.map_filter_def split: option.split)
  have "\<exists>d p. ?digit = Some (d, p) \<Longrightarrow> in_call s \<or> resumes_call s ?t"
    using digit_during_call [of s e] by (cases admit) (auto simp: handle_event_state resumes_call_def in_call_def)
  then have "?digit \<noteq> None \<Longrightarrow> \<not> resumes_call s ?t \<Longrightarrow> inside"
    using assms by auto
  moreover have "resumes_call s ?t \<Longrightarrow> in_call ?t"
    by (simp add: resumes_call_def in_call_def)
  moreover have "call_view (v, ok) (TelemetryEvent.DigitDialed d p at) = (v, ok \<and> v)" for v d p
    by (simp add: call_view_def)
  ultimately show ?thesis
    using moved [of ok] unfolding out
    by (cases ?digit; cases "resumes_call s ?t") (simp_all add: split_beta)
qed

lemma announced_append: "announced (xs @ ys) = announced xs @ announced ys"
  by (simp add: announced_def List.map_filter_def)

lemma announced_handled:
  "fst v = in_call (booth l) \<Longrightarrow>
   foldl call_view v (announced (snd (loop_step dbg ac l i))) = (in_call (booth (fst (loop_step dbg ac l i))), snd v)"
  by (cases v; cases i)
    (simp_all add: loop_step_def split_beta Let_def call_view_loop,
      simp_all add: announced_def List.map_filter_simps call_view_def)

definition announced_upd :: "bool \<times> bool \<Rightarrow> LoopOut \<Rightarrow> bool \<times> bool" where
  "announced_upd v out = (case out of Announce e \<Rightarrow> call_view v e | _ \<Rightarrow> v)"

lemma foldl_announced: "foldl announced_upd v outs = foldl call_view v (announced outs)"
  by (induction outs arbitrary: v)
    (auto simp: announced_def announced_upd_def List.map_filter_simps split: LoopOut.split)

interpretation call_observer: machine_observer "loop_step dbg ac" announced_upd
    "\<lambda>v l. v = (in_call (booth l), True)" for dbg ac
  by unfold_locales (simp add: foldl_announced announced_handled)

fun digits_attributed :: "SessionTracker \<Rightarrow> (string \<times> TelemetryEvent) list \<Rightarrow> bool" where
  "digits_attributed t [] = True"
| "digits_attributed t (fe # fes) =
     ((case snd fe of TelemetryEvent.DigitDialed _ _ _ \<Rightarrow>
         session_id_for_wire (snd fe) (current_session_id (fst (tracker_step t fe))) \<noteq> None
       | _ \<Rightarrow> True) \<and> digits_attributed (fst (tracker_step t fe)) fes)"

lemma call_view_ok: "snd (call_view v e) \<longleftrightarrow>
    snd v \<and> (case e of TelemetryEvent.DigitDialed _ _ _ \<Rightarrow> fst v | _ \<Rightarrow> True)"
  by (cases v; cases e) (simp_all add: call_view_def)

lemma tracker_digit:
  "(case snd fe of TelemetryEvent.DigitDialed _ _ _ \<Rightarrow>
      session_id_for_wire (snd fe) (current_session_id (fst (tracker_step t fe))) \<noteq> None | _ \<Rightarrow> True)
   \<longleftrightarrow> (case snd fe of TelemetryEvent.DigitDialed _ _ _ \<Rightarrow> current t \<noteq> None | _ \<Rightarrow> True)"
  by (cases "snd fe") (simp_all add: tracker_defs session_id_for_wire_def)

lemma tracker_run_view:
  "foldl call_view (current t \<noteq> None, ok) (map snd fes) =
     (current (fst (run_machine tracker_step t fes)) \<noteq> None, ok \<and> digits_attributed t fes)"
proof (induction fes arbitrary: t ok)
  case (Cons fe fes)
  have "call_view (current t \<noteq> None, ok) (snd fe) =
      (current (fst (tracker_step t fe)) \<noteq> None,
       ok \<and> (case snd fe of TelemetryEvent.DigitDialed _ _ _ \<Rightarrow> current t \<noteq> None | _ \<Rightarrow> True))"
    by (rule prod_eqI) (simp_all add: tracker_view call_view_ok del: not_None_eq split: TelemetryEvent.split)
  then show ?case
    by (simp add: Cons.IH tracker_digit conj_assoc del: not_None_eq)
qed simp

section \<open>Unique event numbers\<close>

definition event_number :: "RuntimeIdentity \<Rightarrow> u64 \<Rightarrow> string" where
  "event_number who n = boot_id who @ '':'' @ show_word n"

lemma event_number_inj: "event_number who m = event_number who n \<longleftrightarrow> m = n"
  by (simp add: event_number_def show_word_def show_nat_inj word_unat_eq_iff)

section \<open>Outcomes\<close>

definition outcomes :: "TelemetryEvent list \<Rightarrow> CallOutcome list" where
  "outcomes ms = List.map_filter (\<lambda>m. case m of CallEnded _ c _ _ \<Rightarrow> Some c | _ \<Rightarrow> None) ms"

lemma outcomes_append: "outcomes (xs @ ys) = outcomes xs @ outcomes ys"
  by (simp add: outcomes_def List.map_filter_def)

lemma step_outcomes: "CallOutcome.RecordingFailed \<notin> set (outcomes (snd (tracker_step t fe)))"
  by (cases "current t"; cases "snd fe")
    (auto simp: tracker_defs Let_def outcomes_def List.map_filter_simps call_outcome_def
      split: SessionPhase.split)

lemma run_outcomes: "CallOutcome.RecordingFailed \<notin> set (outcomes (snd (run_machine tracker_step t fes)))"
proof (induction fes arbitrary: t)
  case (Cons fe fes)
  then show ?case by (simp add: outcomes_append step_outcomes)
qed (simp add: outcomes_def List.map_filter_simps)

lemma failed_upload_announced:
  "announced (snd (run_machine (loop_step dbg ac) \<lparr>booth = State.Uploading r q False, accepting = True\<rparr>
      [Received (UploadFinished r (Failed reason)) True at, Received HookOn True at'])) =
   [StateTransition ''uploading'' ''error'' (dbg (UploadFinished r (Failed reason))) at,
    StateTransition ''error'' ''idle'' (dbg HookOn) at']"
  by (simp add: loop_step_def handle_event_def handle_with_call_availability_def available_defs upload_awaited_def outcome_event_def
      publish_transition_def resumes_call_def tag_def dialed_digit_for_telemetry_def
      status_led_for_def announced_def List.map_filter_simps del: run_machine_Cons add: run_machine.simps(2))

section \<open>Properties of sessions\<close>

text \<open>Whatever telemetry the forwarder sees, even with records lost on the bus, the call markers it
  makes are well bracketed: a call starts only when none is open, ends once and under the id it
  started with, and the session the other tasks read is exactly the open one.\<close>
theorem call_markers_bracketed:
  "case run_machine tracker_step tracker_new events of (t, markers) \<Rightarrow>
     foldl brackets (Some None) markers = Some (current_session_id t)"
  using session_markers.run_tracks [of tracker_new events]
  by (simp add: split_beta tracker_new_def current_session_id_def)

text \<open>C12. Sessions follow the phone: when the tracker sees the transitions and digits the runtime loop
  announces, among any other telemetry, a session is open exactly while the state machine is in a
  call, and every dialed digit is attributed to a session, also the digit that takes a paused
  caller back into service.\<close>
theorem sessions_follow_calls:
  assumes "\<not> in_call (booth l)"
    and "filter is_call_event (map snd events) =
      filter is_call_event (announced (snd (run_machine (loop_step dbg ac) l inputs)))"
  shows "(current (fst (run_machine tracker_step tracker_new events)) \<noteq> None \<longleftrightarrow>
      in_call (booth (fst (run_machine (loop_step dbg ac) l inputs)))) \<and>
    digits_attributed tracker_new events"
proof -
  let ?final = "run_machine (loop_step dbg ac) l inputs"
  have "foldl call_view (False, True) (announced (snd ?final)) = (in_call (booth (fst ?final)), True)"
    using call_observer.agrees_run [of "(False, True)" l dbg ac inputs] assms(1)
    by (simp add: foldl_announced)
  then have "foldl call_view (False, True) (map snd events) = (in_call (booth (fst ?final)), True)"
    by (metis call_view_filter assms(2))
  then show ?thesis
    using tracker_run_view [of tracker_new True events] by (simp add: tracker_new_def)
qed

theorem sessions_follow_calls_witness:
  "current (fst (run_machine tracker_step tracker_new
     [(''a'', StateTransition ''idle'' ''dial_tone'' [] 1),
      (''b'', TelemetryEvent.Error ''audio'' ''late''),
      (''c'', TelemetryEvent.DigitDialed 2 2 5), (''d'', StateTransition ''dial_tone'' ''dial_tone'' [] 5)]))
   \<noteq> None"
  using sessions_follow_calls [where dbg = "\<lambda>_. []" and ac = False
      and l = "\<lparr>booth = State.Idle, accepting = True\<rparr>"
      and inputs = "[Received HookOff True 1, Received (Event.DigitDialed 2) True 5]"
      and events = "[(''a'', StateTransition ''idle'' ''dial_tone'' [] 1),
        (''b'', TelemetryEvent.Error ''audio'' ''late''),
        (''c'', TelemetryEvent.DigitDialed 2 2 5), (''d'', StateTransition ''dial_tone'' ''dial_tone'' [] 5)]"]
  by (simp add: loop_step_def handle_event_def fst_admit_step snd_admit_step handle_with_call_availability_def
      available_defs publish_transition_def resumes_call_def in_call_def tag_def
      dialed_digit_for_telemetry_def status_led_for_def announced_def List.map_filter_simps is_call_event_def
      del: run_machine_Cons add: run_machine.simps(2))

text \<open>An upload that fails for good while the caller listens is reported as an operator error: the
  failure sets the session's outcome, but the transition to the error state that the same failure
  causes overwrites it before the call ends. The outcome for a failed recording is never reported.\<close>
theorem upload_failure_reported_as_operator_error:
  "snd (run_machine tracker_step \<lparr>current = Some s\<rparr>
      (map (Pair f) (TelemetryEvent.UploadFailed r (session s) msg at #
         announced (snd (run_machine (loop_step dbg ac)
           \<lparr>booth = State.Uploading r q False, accepting = True\<rparr>
           [Received (UploadFinished r (Failed reason)) True at, Received HookOn True at']))))) =
        [CallEnded (session s) CallOutcome.OperatorError (digits s) at'] \<and>
    CallOutcome.RecordingFailed \<notin> set (outcomes (snd (run_machine tracker_step t events)))"
  unfolding failed_upload_announced
  by (simp add: run_outcomes tracker_defs resting_def phase_after_def call_outcome_def
      monotonic_ns_of_def)

section \<open>Properties of the buffer\<close>

interpretation event_buffer: bounded_fifo "push_with_cap cap" fst id cap
    "\<lambda>_ buf. 0 < cap \<and> length (fst buf) \<le> cap" for cap
proof
  fix n and buf :: "'a list \<times> u64" and x
  assume "0 < cap \<and> length (fst buf) \<le> cap"
  then show "fst (push_with_cap cap buf x) = keep_last cap (fst buf @ [id x])"
    by (cases buf; cases "fst buf") (auto simp: push_with_cap_def keep_last_def)
  with \<open>0 < cap \<and> length (fst buf) \<le> cap\<close>
  show "0 < cap \<and> length (fst (push_with_cap cap buf x)) \<le> cap" by simp
qed simp

definition numbered :: "RuntimeIdentity \<Rightarrow> u64 \<Rightarrow> u64 \<Rightarrow> string list" where
  "numbered who a b = map (\<lambda>k. event_number who (of_nat k)) [unat a..<unat b]"

lemma numbered_snoc:
  "unat n + 1 < 2 ^ 64 \<Longrightarrow> unat a \<le> unat n \<Longrightarrow>
   numbered who a (saturating_add n 1) = numbered who a n @ [event_number who n] \<and>
   unat (saturating_add n 1) = unat n + 1"
  by (simp add: numbered_def unat_saturating_add)

definition buf :: "Ingest \<Rightarrow> Envelope list \<times> u64" where
  "buf g = (batch g, dropped g)"

lemma push_wire_buf: "buf (push_wire cap w g) = push_with_cap cap (buf g) w"
    "next_seq (push_wire cap w g) = next_seq g" "tracker (push_wire cap w g) = tracker g"
  by (simp_all add: push_wire_def buf_def split_beta)

definition adds :: "RuntimeIdentity \<Rightarrow> nat \<Rightarrow> nat \<Rightarrow> Ingest \<Rightarrow> Ingest \<Rightarrow> bool" where
  "adds who cap n g g' \<longleftrightarrow>
     (\<exists>ws. length ws \<le> n \<and> buf g' = foldl (push_with_cap cap) (buf g) ws \<and>
        map event_id ws = numbered who (next_seq g) (next_seq g') \<and>
        unat (next_seq g) \<le> unat (next_seq g') \<and> unat (next_seq g') \<le> unat (next_seq g) + n)"

lemma adds_none: "buf g' = buf g \<Longrightarrow> next_seq g' = next_seq g \<Longrightarrow> adds who cap n g g'"
  by (auto simp: adds_def numbered_def intro!: exI [of _ "[]"])

lemma adds_trans:
  assumes "adds who cap m g g1" and "adds who cap n g1 g2"
  shows "adds who cap (m + n) g g2"
proof -
  obtain xs where xs: "length xs \<le> m" "buf g1 = foldl (push_with_cap cap) (buf g) xs"
      "map event_id xs = numbered who (next_seq g) (next_seq g1)"
      "unat (next_seq g) \<le> unat (next_seq g1)" "unat (next_seq g1) \<le> unat (next_seq g) + m"
    using assms(1) by (auto simp: adds_def)
  obtain ys where ys: "length ys \<le> n" "buf g2 = foldl (push_with_cap cap) (buf g1) ys"
      "map event_id ys = numbered who (next_seq g1) (next_seq g2)"
      "unat (next_seq g1) \<le> unat (next_seq g2)" "unat (next_seq g2) \<le> unat (next_seq g1) + n"
    using assms(2) by (auto simp: adds_def)
  have "numbered who (next_seq g) (next_seq g2) =
      numbered who (next_seq g) (next_seq g1) @ numbered who (next_seq g1) (next_seq g2)"
    using upt_add_eq_append [of "unat (next_seq g)" "unat (next_seq g1)"
        "unat (next_seq g2) - unat (next_seq g1)"] xs(4) ys(4) by (simp add: numbered_def)
  then show ?thesis
    unfolding adds_def using xs ys by (intro exI [of _ "xs @ ys"]) simp
qed

lemma adds_one:
  assumes "event_id w = event_number who (next_seq g)" and "unat (next_seq g) + 1 < 2 ^ 64"
    and "buf g' = push_with_cap cap (buf g) w" and "next_seq g' = saturating_add (next_seq g) 1"
  shows "adds who cap 1 g g'"
  using numbered_snoc [of "next_seq g" "next_seq g" who] assms
  by (auto simp: adds_def numbered_def intro!: exI [of _ "[w]"])

lemma adds_synthetic:
  assumes "unat (next_seq g) + 1 < 2 ^ 64"
  shows "adds who cap 1 g (push_synthetic who now cap e g)"
  by (rule adds_one [where w = "fst (wire_for_synthetic who now e (next_seq g))"])
    (use assms in \<open>simp_all add: push_synthetic_def wire_for_synthetic_def next_event_seq_def envelope_def
      event_number_def push_wire_buf, simp add: buf_def\<close>)

lemma observe_at_most_one: "length (snd (observe_event fresh t e ns)) \<le> 1"
  by (cases "current t"; cases e) (auto simp: tracker_defs Let_def)

lemma adds_ingest:
  assumes "unat (next_seq g) + 2 < 2 ^ 64"
  shows "adds who cap 2 g (fst (ingest_record who cap fresh now r g))"
proof -
  let ?e = "payload r"
  let ?obs = "observe_event fresh (tracker g) ?e (monotonic_ns_of ?e)"
  let ?active = "current_session_id (fst ?obs)"
  let ?wire = "wire_for who now ?e (next_seq g) ?active"
  define g1 where "g1 = g\<lparr>tracker := fst ?obs, session_handle := ?active, next_seq := snd ?wire\<rparr>"
  define g2 where "g2 = (case fst ?wire of None \<Rightarrow> g1 | Some w \<Rightarrow> push_wire cap w g1)"
  have result: "fst (ingest_record who cap fresh now r g) = fold (push_synthetic who now cap) (snd ?obs) g2"
    unfolding ingest_record_def Let_def split_beta g1_def g2_def by simp
  have first: "adds who cap 1 g g2"
  proof (cases "should_forward ?e")
    case False
    then show ?thesis
      by (intro adds_none) (simp_all add: g2_def g1_def wire_for_def buf_def)
  next
    case True
    then show ?thesis
      using assms by (intro adds_one [where w = "the (fst ?wire)"])
        (simp_all add: g2_def g1_def wire_for_def next_event_seq_def envelope_def event_number_def push_wire_buf,
          simp add: buf_def)
  qed
  then have room: "unat (next_seq g2) + 1 < 2 ^ 64"
    using assms by (auto simp: adds_def)
  have "adds who cap 1 g2 (fold (push_synthetic who now cap) (snd ?obs) g2)"
  proof (cases "snd ?obs")
    case Nil
    then show ?thesis by (simp add: adds_none)
  next
    case (Cons e es)
    then have "es = []"
      using observe_at_most_one [of fresh "tracker g" ?e "monotonic_ns_of ?e"] by simp
    then show ?thesis
      using Cons adds_synthetic [OF room] by simp
  qed
  with first show ?thesis
    unfolding result using adds_trans [of who cap 1 g g2 1] by (simp add: numeral_2_eq_2)
qed

fun ingest_all ::
    "RuntimeIdentity \<Rightarrow> nat \<Rightarrow> (string \<times> string \<times> TelemetryRecord) list \<Rightarrow> Ingest \<Rightarrow> Ingest" where
  "ingest_all who cap [] g = g"
| "ingest_all who cap ((fresh, now, r) # rs) g =
     ingest_all who cap rs (fst (ingest_record who cap fresh now r g))"

lemma adds_all:
  "unat (next_seq g) + 2 * length rs < 2 ^ 64 \<Longrightarrow> adds who cap (2 * length rs) g (ingest_all who cap rs g)"
proof (induction rs arbitrary: g)
  case (Cons x rs)
  obtain fresh now r where x: "x = (fresh, now, r)" by (cases x)
  let ?g = "fst (ingest_record who cap fresh now r g)"
  have first: "adds who cap 2 g ?g"
    using Cons.prems by (intro adds_ingest) simp
  then have "unat (next_seq ?g) + 2 * length rs < 2 ^ 64"
    using Cons.prems by (auto simp: adds_def)
  then show ?case
    using adds_trans [OF first Cons.IH] by (simp add: x)
qed (simp add: adds_none)

lemma numbered_distinct: "distinct (numbered who a b)"
proof -
  have "k < 2 ^ 64" if "k < unat b" for k
    using that unsigned_less [of b, where 'a = nat] by simp
  then show ?thesis
    by (simp add: numbered_def distinct_map inj_on_def event_number_inj word_of_nat_eq_iff take_bit_nat_eq_self)
qed

text \<open>The forwarder's buffer holds the newest events, numbered without a gap or a repetition: after any
  records are ingested from an empty buffer, the event ids buffered are the last \<open>buffer_max\<close> of the
  consecutive ids stamped since, so no two differ only by a retry; and the markers the forwarder
  publishes back to the bus are not forwarded, counted or tracked again when it receives them.\<close>
theorem buffered_ids_consecutive:
  fixes who :: RuntimeIdentity and cap :: nat
  assumes "0 < cap" and "unat (next_seq g) + 2 * length rs < 2 ^ 64" and "batch g = []"
  defines "g' \<equiv> ingest_all who cap rs g"
  shows "map event_id (batch g') = keep_last cap (numbered who (next_seq g) (next_seq g')) \<and>
    distinct (map event_id (batch g')) \<and>
    fst (ingest_record who cap fresh now \<lparr>rec_id = i, ts = n, payload = CallEnded sid c ds at\<rparr> g') =
      g'\<lparr>session_handle := current_session_id (tracker g')\<rparr> \<and>
    fst (ingest_record who cap fresh now \<lparr>rec_id = i, ts = n, payload = CallStarted sid at\<rparr> g') =
      g'\<lparr>session_handle := current_session_id (tracker g')\<rparr>"
proof -
  obtain ws where ws: "buf g' = foldl (push_with_cap cap) (buf g) ws"
      "map event_id ws = numbered who (next_seq g) (next_seq g')"
    using adds_all [OF assms(2), of who cap] by (auto simp: adds_def g'_def)
  have "fst (buf g') = keep_last cap ws"
    using event_buffer.contents_pushes [of cap "buf g" ws] assms(1,3) unfolding ws(1) by (simp add: buf_def)
  then have ids: "map event_id (batch g') = keep_last cap (map event_id ws)"
    by (simp add: buf_def keep_last_def drop_map)
  then have "distinct (map event_id (batch g'))"
    using numbered_distinct [of who "next_seq g" "next_seq g'"] by (simp add: ws(2) keep_last_def)
  moreover have "fst (ingest_record who cap fresh now r g') = g'\<lparr>session_handle := current_session_id (tracker g')\<rparr>"
    if "payload r = CallEnded sid c ds at \<or> payload r = CallStarted sid at" for r
    using that by (auto simp: ingest_record_def tracker_defs wire_for_def should_forward_def)
  ultimately show ?thesis
    using ids ws(2) by simp
qed

theorem buffered_ids_consecutive_witness:
  "distinct (map event_id (batch (ingest_all \<lparr>booth_id = ''booth'', boot_id = ''b'', version = ''1''\<rparr> 2
     [(''u'', ''t'', \<lparr>rec_id = 1, ts = 0, payload = StateTransition ''idle'' ''dial_tone'' [] 1\<rparr>),
      (''v'', ''t'', \<lparr>rec_id = 2, ts = 0, payload = StateTransition ''dial_tone'' ''idle'' [] 1\<rparr>)]
     \<lparr>tracker = tracker_new, session_handle = None, next_seq = 7, batch = [], dropped = 0\<rparr>)))"
  by (rule buffered_ids_consecutive [where cap = 2 and who = "\<lparr>booth_id = ''booth'', boot_id = ''b'', version = ''1''\<rparr>"
      and g = "\<lparr>tracker = tracker_new, session_handle = None, next_seq = 7, batch = [], dropped = 0\<rparr>"
      and rs = "[(''u'', ''t'', \<lparr>rec_id = 1, ts = 0, payload = StateTransition ''idle'' ''dial_tone'' [] 1\<rparr>),
        (''v'', ''t'', \<lparr>rec_id = 2, ts = 0, payload = StateTransition ''dial_tone'' ''idle'' [] 1\<rparr>)]",
      THEN conjunct2, THEN conjunct1]) simp_all

text \<open>The status the heartbeat repeats is the status of the state the booth is in, with one exception:
  while a recording is being finished the heartbeat says idle where the state machine says uploading,
  because the state's name is missing from the table.\<close>
theorem heartbeat_repeats_status:
  "snd (run_machine heartbeat_step b [BusRecord (StateTransition f (tag s) cause at), BusLagged, Beat]) =
     [if (\<exists>q h. s = FinishingRecording q h) then BoothStatus.Idle else status s] \<and>
   status (FinishingRecording q h) = BoothStatus.Uploading"
  by (cases s) (simp_all add: heartbeat_step_def state_name_to_booth_status_def tag_def status_def
      del: run_machine_Cons add: run_machine.simps(2))

section \<open>Snapshots\<close>

definition puts :: "nat \<Rightarrow> nat \<Rightarrow> (TelemetryEvent \<times> nat \<times> nat \<times> bool) list \<Rightarrow> SystemSnapshot list" where
  "puts gap last_pushed inputs = snd (run_machine (pusher_step gap) last_pushed inputs)"

text \<open>Clock readings in the order they are taken.\<close>

fun in_order :: "nat \<Rightarrow> (TelemetryEvent \<times> nat \<times> nat \<times> bool) list \<Rightarrow> bool" where
  "in_order t [] = True"
| "in_order t ((e, now, answered, ok) # is) = (t \<le> now \<and> now \<le> answered \<and> in_order answered is)"

definition finish :: "nat \<Rightarrow> (TelemetryEvent \<times> nat \<times> nat \<times> bool) list \<Rightarrow> nat" where
  "finish t inputs = foldl (\<lambda>_ i. fst (snd (snd i))) t inputs"

definition all_taken :: "(TelemetryEvent \<times> nat \<times> nat \<times> bool) list \<Rightarrow> bool" where
  "all_taken inputs = list_all (\<lambda>i. snd (snd (snd i))) inputs"

lemma pusher_paced:
  "in_order t inputs \<Longrightarrow> all_taken inputs \<Longrightarrow> last_pushed \<le> t \<Longrightarrow>
   length (puts gap last_pushed inputs) * gap \<le> finish t inputs - last_pushed"
proof (induction inputs arbitrary: t last_pushed)
  case Nil
  then show ?case by (simp add: puts_def)
next
  case (Cons i "is")
  obtain e now answered ok where i: "i = (e, now, answered, ok)" by (cases i)
  have mono: "answered' \<le> finish answered' is'" if "in_order answered' is'" for answered' is'
    using that by (induction answered' is' rule: in_order.induct) (auto simp: finish_def)
  show ?case
  proof (cases "snd (pusher_step gap last_pushed i) = []")
    case True
    then have same: "pusher_step gap last_pushed i = (last_pushed, [])"
      by (auto simp: pusher_step_def i split: TelemetryEvent.splits if_splits)
    then show ?thesis
      using Cons.IH [of answered last_pushed] Cons.prems
      by (simp add: i puts_def finish_def all_taken_def)
  next
    case False
    then obtain snap where put: "pusher_step gap last_pushed i = (answered, [snap])" "gap \<le> now - last_pushed"
      using Cons.prems(2) by (auto simp: pusher_step_def i all_taken_def split: TelemetryEvent.splits if_splits)
    have "length (puts gap answered is) * gap \<le> finish answered is - answered"
      using Cons.IH [of answered answered] Cons.prems by (simp add: i all_taken_def)
    moreover have "answered \<le> finish answered is"
      using Cons.prems by (intro mono) (simp add: i)
    ultimately show ?thesis
      using put Cons.prems by (simp add: i puts_def finish_def) linarith
  qed
qed

text \<open>While the operator takes them, snapshots are put no faster than the configured interval: over any
  run, however many samples are published, the snapshots put times the interval fit into the time
  that passed since the last one before.\<close>
theorem snapshots_paced:
  "in_order t inputs \<and> all_taken inputs \<and> last_pushed \<le> t \<Longrightarrow>
   length (snd (run_machine (pusher_step gap) last_pushed inputs)) * gap \<le> finish t inputs - last_pushed"
  using pusher_paced by (simp add: puts_def)

definition blank_snapshot :: SystemSnapshot where
  "blank_snapshot = \<lparr>cpu = None, temperature_celsius = None, memory = None, disks = [], networks = [],
     uptime_seconds = None, process = None, audio = None, tailscale = None, throttling = None,
     fan = None, runtime_mode = None, shelly = []\<rparr>"

theorem snapshots_paced_witness:
  "length (snd (run_machine (pusher_step 50) 0
     [(SystemSample blank_snapshot 1, 60, 61, True), (SystemSample blank_snapshot 2, 90, 91, True),
      (SystemSample blank_snapshot 3, 120, 125, True)])) * 50 \<le> (125 :: nat)"
  using snapshots_paced [of 0 "[(SystemSample blank_snapshot 1, 60, 61, True),
      (SystemSample blank_snapshot 2, 90, 91, True), (SystemSample blank_snapshot 3, 120, 125, True)]" 0 50]
  by (simp add: all_taken_def finish_def del: run_machine_Cons)

end
