(* ===== verification/EventSpool.thy ===== *)
theory EventSpool
  imports Strings "HOL-Library.Product_Lexorder" "HOL-Library.List_Lexorder" "HOL-Library.Char_ord"
begin

text \<open>
  The durable spool of telemetry batches, \<open>crates/booth-bin/src/event_spool.rs\<close>: numbered
  files, replayed oldest first, at most \<open>max_files\<close> of them. The directory is the list of its
  files in the order \<open>read_dir\<close> yields them. serde_json is outside: a batch's body is a string,
  \<open>dec\<close> the (partial) decoder. The writer mutex makes \<open>spill\<close> and \<open>replace_file_with_chunks\<close>
  atomic for each other; where a file-system call of \<open>spill\<close> fails is an argument.
\<close>

definition DEFAULT_MAX_FILES :: nat where "DEFAULT_MAX_FILES = 50"

record SpoolFile =
  name :: string
  modified :: nat          \<comment> \<open>nanoseconds since the epoch\<close>
  body :: string

type_synonym spool_dir = "SpoolFile list"

section \<open>Names and order\<close>

text \<open>\<open>str::split("-part-")\<close>.\<close>

fun split_parts :: "string \<Rightarrow> string \<Rightarrow> string list" where
  "split_parts acc [] = [rev acc]"
| "split_parts acc (c # cs) =
     (if take 6 (c # cs) = ''-part-'' then rev acc # split_parts [] (drop 5 cs)
      else split_parts (c # acc) cs)"

definition parse_part :: "string \<Rightarrow> nat option" where
  "parse_part part =
     (case parse_unsigned (2 ^ 32) part of
        None \<Rightarrow> None
      | Some n \<Rightarrow> (if n + 1 < 2 ^ 32 then Some (n + 1) else None))"

text \<open>\<open>collect::<Option<Vec<_>>>\<close>.\<close>

fun collect_options :: "'a option list \<Rightarrow> 'a list option" where
  "collect_options [] = Some []"
| "collect_options (x # xs) =
     (case (x, collect_options xs) of (Some y, Some ys) \<Rightarrow> Some (y # ys) | _ \<Rightarrow> None)"

definition batch_sort_key :: "string \<Rightarrow> (nat \<times> nat list) option" where
  "batch_sort_key file =
     (let stem = file_stem file in
      if take 6 stem \<noteq> ''batch-'' then None
      else case split_parts [] (drop 6 stem) of
        [] \<Rightarrow> None
      | first # rest \<Rightarrow>
          (case parse_unsigned (2 ^ 64) first of
             None \<Rightarrow> None
           | Some sequence \<Rightarrow>
               (case collect_options (map parse_part rest) of
                  None \<Rightarrow> None
                | Some parts \<Rightarrow> Some (sequence, parts))))"

definition batch_sequence :: "string \<Rightarrow> nat option" where
  "batch_sequence file = map_option fst (batch_sort_key file)"

definition entry_key :: "SpoolFile \<Rightarrow> (nat \<times> nat \<times> string \<times> nat list) \<times> string" where
  "entry_key f =
     ((case batch_sort_key (name f) of
         Some (sequence, parts) \<Rightarrow> (1, sequence, [], parts)
       | None \<Rightarrow> (0, modified f, name f, [])),
      name f)"

definition visible :: "SpoolFile \<Rightarrow> bool" where
  "visible f = (extension (name f) = Some ''json'' \<and> \<not> is_hidden (name f))"

definition entries :: "spool_dir \<Rightarrow> SpoolFile list" where
  "entries d = sort_key entry_key (filter visible d)"

definition has_pending :: "spool_dir \<Rightarrow> bool" where
  "has_pending d = (entries d \<noteq> [])"

section \<open>Spilling\<close>

definition batch_name :: "nat \<Rightarrow> string" where
  "batch_name sequence = ''batch-'' @ show_padded 20 sequence @ ''.json''"

definition temp_of :: "string \<Rightarrow> string" where
  "temp_of filename = ''.tmp-'' @ filename"

definition max_sequence :: "spool_dir \<Rightarrow> nat" where
  "max_sequence d = fold max (List.map_filter (\<lambda>f. batch_sequence (name f)) (entries d)) 0"

definition remove_named :: "string list \<Rightarrow> spool_dir \<Rightarrow> spool_dir" where
  "remove_named names d = filter (\<lambda>f. name f \<notin> set names) d"

definition put_file :: "SpoolFile \<Rightarrow> spool_dir \<Rightarrow> spool_dir" where
  "put_file f d = remove_named [name f] d @ [f]"

text \<open>\<open>enforce_cap\<close>, as far as its loop gets: at most \<open>limit\<close> removals succeed.\<close>

definition enforce_cap :: "nat \<Rightarrow> nat \<Rightarrow> spool_dir \<Rightarrow> spool_dir" where
  "enforce_cap max_files limit d =
     (let es = entries d in
      if max_files < length es
      then remove_named (map name (take (min limit (length es - max_files)) es)) d else d)"

datatype SpillFault =
    NoFault
  | ScanFails
  | TempFails "string option"      \<comment> \<open>what the temporary file holds, if it was created\<close>
  | RenameFails bool               \<comment> \<open>whether it is cleaned up\<close>
  | DirSyncFails
  | CapFails nat                   \<comment> \<open>after so many removals\<close>

definition spill :: "nat \<Rightarrow> SpillFault \<Rightarrow> nat \<Rightarrow> string \<Rightarrow> spool_dir \<Rightarrow> spool_dir \<times> bool" where
  "spill max_files fault now json d =
     (if fault = ScanFails \<or> \<not> max_sequence d + 1 < 2 ^ 64 then (d, False)
      else
        let filename = batch_name (max_sequence d + 1);
            temp = (\<lambda>bytes. \<lparr>name = temp_of filename, modified = now, body = bytes\<rparr>)
        in case fault of
          TempFails None \<Rightarrow> (d, False)
        | TempFails (Some bytes) \<Rightarrow> (put_file (temp bytes) d, False)
        | RenameFails cleaned \<Rightarrow>
            ((if cleaned then remove_named [name (temp json)] d else put_file (temp json) d), False)
        | _ \<Rightarrow>
          (let d1 = put_file \<lparr>name = filename, modified = now, body = json\<rparr>
                      (remove_named [name (temp json)] d)
           in case fault of
                DirSyncFails \<Rightarrow> (d1, False)
              | CapFails removed \<Rightarrow> (enforce_cap max_files removed d1, False)
              | _ \<Rightarrow> (enforce_cap max_files (length (entries d1)) d1, True)))"

section \<open>Replay\<close>

text \<open>\<open>read_batch\<close>: the batch, and the directory, from which a corrupt file is removed.\<close>

definition read_batch ::
    "(string \<Rightarrow> bool) \<Rightarrow> (string \<Rightarrow> 'v list option) \<Rightarrow> SpoolFile \<Rightarrow> spool_dir \<Rightarrow>
     (string \<times> 'v list) option \<times> spool_dir" where
  "read_batch readable dec f d =
     (if \<not> readable (name f) then (None, d)
      else case dec (body f) of
        Some events \<Rightarrow> (Some (name f, events), d)
      | None \<Rightarrow> (None, remove_named [name f] d))"

definition oldest_batch ::
    "(string \<Rightarrow> bool) \<Rightarrow> (string \<Rightarrow> 'v list option) \<Rightarrow> spool_dir \<Rightarrow>
     (string \<times> 'v list) option \<times> spool_dir" where
  "oldest_batch readable dec d =
     (case entries d of [] \<Rightarrow> (None, d) | f # _ \<Rightarrow> read_batch readable dec f d)"

fun drain_files ::
    "(string \<Rightarrow> bool) \<Rightarrow> (string \<Rightarrow> 'v list option) \<Rightarrow> SpoolFile list \<Rightarrow> spool_dir \<Rightarrow>
     (string \<times> 'v list) list \<times> spool_dir" where
  "drain_files readable dec [] d = ([], d)"
| "drain_files readable dec (f # fs) d =
     (let (b, d1) = read_batch readable dec f d;
          (bs, d2) = drain_files readable dec fs d1
      in ((case b of None \<Rightarrow> bs | Some x \<Rightarrow> x # bs), d2))"

definition drain ::
    "(string \<Rightarrow> bool) \<Rightarrow> (string \<Rightarrow> 'v list option) \<Rightarrow> spool_dir \<Rightarrow>
     (string \<times> 'v list) list \<times> spool_dir" where
  "drain readable dec d = drain_files readable dec (entries d) d"

section \<open>The order of the entries\<close>

lemma sort_key_snoc_greatest:
  "\<forall>x \<in> set xs. k x \<le> k y \<Longrightarrow> sort_key k (xs @ [y]) = sort_key k xs @ [y]"
proof (induction xs)
  case (Cons x xs)
  have "insort_key k x (ys @ [y]) = insort_key k x ys @ [y]" if "k x \<le> k y" for ys
    using that by (induction ys) auto
  then show ?case using Cons by simp
qed simp

lemma fold_max_upper: "x \<in> set xs \<or> x \<le> m \<Longrightarrow> x \<le> fold max xs m" for x m :: nat
proof (induction xs arbitrary: m)
  case (Cons a xs)
  then have "x \<in> set xs \<or> x \<le> max a m" by (auto simp: le_max_iff_disj)
  then show ?case by (simp add: Cons.IH)
qed simp

lemma in_set_map_filter: "x \<in> set xs \<Longrightarrow> g x = Some y \<Longrightarrow> y \<in> set (List.map_filter g xs)"
  by (induction xs) (auto simp: List.map_filter_simps split: option.split)

lemma max_sequence_upper:
  assumes "f \<in> set (entries d)" and "batch_sequence (name f) = Some n"
  shows "n \<le> max_sequence d"
  unfolding max_sequence_def
  by (intro fold_max_upper disjI1 in_set_map_filter [OF assms(1)]) (rule assms(2))

lemma split_parts_digits:
  "CHR ''-'' \<notin> set s \<Longrightarrow> split_parts acc s = [rev acc @ s]"
proof (induction acc s rule: split_parts.induct)
  case (2 acc c cs)
  then have "take 6 (c # cs) \<noteq> ''-part-''"
    by (auto simp: take_Cons')
  then show ?case using 2 by simp
qed simp

lemma batch_name_key:
  assumes "sequence < 2 ^ 64"
  shows "batch_sort_key (batch_name sequence) = Some (sequence, [])"
proof -
  have "CHR ''-'' \<notin> set (show_padded 20 sequence)"
    using show_padded_digits [of 20 sequence] by auto
  moreover have "file_stem (batch_name sequence) = ''batch-'' @ show_padded 20 sequence"
    using file_name_parts(1) [of "''json''" "''batch-'' @ show_padded 20 sequence"]
    by (simp add: batch_name_def)
  ultimately show ?thesis
    using parse_show_padded [OF assms, of 20]
    by (simp add: batch_sort_key_def split_parts_digits)
qed

lemma batch_name_visible: "visible \<lparr>name = batch_name n, modified = t, body = b\<rparr>"
  using file_name_parts(2) [of "''json''" "''batch-'' @ show_padded 20 n"]
  by (simp add: visible_def batch_name_def is_hidden_def)

text \<open>A newly spilled batch sorts after everything in the spool.\<close>

lemma entry_key_new:
  assumes "max_sequence d + 1 < 2 ^ 64" and "f \<in> set d" and "visible f"
  shows "entry_key f \<le> entry_key \<lparr>name = batch_name (max_sequence d + 1), modified = t, body = b\<rparr>"
proof -
  have f: "f \<in> set (entries d)"
    using assms(2,3) by (simp add: entries_def)
  show ?thesis
  proof (cases "batch_sort_key (name f)")
    case None
    then show ?thesis
      using batch_name_key [OF assms(1)] by (simp add: entry_key_def less_eq_prod_def less_prod_def)
  next
    case (Some key)
    then have "fst key \<le> max_sequence d"
      using max_sequence_upper [OF f] by (simp add: batch_sequence_def)
    then show ?thesis
      using Some batch_name_key [OF assms(1)]
      by (cases key) (simp add: entry_key_def less_eq_prod_def less_prod_def)
  qed
qed

lemma new_name_fresh:
  assumes "max_sequence d + 1 < 2 ^ 64" and "f \<in> set d" and "visible f"
  shows "name f \<noteq> batch_name (max_sequence d + 1)"
proof
  assume "name f = batch_name (max_sequence d + 1)"
  then have "batch_sequence (name f) = Some (max_sequence d + 1)"
    using batch_name_key [OF assms(1)] by (simp add: batch_sequence_def)
  moreover have "f \<in> set (entries d)"
    using assms(2,3) by (simp add: entries_def)
  ultimately have "max_sequence d + 1 \<le> max_sequence d"
    using max_sequence_upper by blast
  then show False by simp
qed

lemma visible_filter_remove:
  "(\<And>f. f \<in> set d \<Longrightarrow> visible f \<Longrightarrow> name f \<notin> set ns) \<Longrightarrow>
   filter visible (remove_named ns d) = filter visible d"
  by (induction d) (auto simp: remove_named_def)

lemma hidden_not_visible: "\<not> visible \<lparr>name = temp_of n, modified = t, body = b\<rparr>"
  by (simp add: visible_def is_hidden_def temp_of_def)

lemma entries_hidden:
  "entries (put_file \<lparr>name = temp_of n, modified = t, body = b\<rparr> d) = entries d"
  "entries (remove_named [temp_of n] d) = entries d"
proof -
  have "filter visible (remove_named [temp_of n] d) = filter visible d"
    by (rule visible_filter_remove) (auto simp: visible_def is_hidden_def temp_of_def)
  then show "entries (put_file \<lparr>name = temp_of n, modified = t, body = b\<rparr> d) = entries d"
    and "entries (remove_named [temp_of n] d) = entries d"
    by (simp_all add: entries_def put_file_def hidden_not_visible)
qed

lemma entries_put_new:
  fixes t :: nat and b :: string
  assumes "max_sequence d + 1 < 2 ^ 64"
  defines "new \<equiv> \<lparr>name = batch_name (max_sequence d + 1), modified = t, body = b\<rparr>"
  shows "entries (put_file new (remove_named [temp_of n] d)) = entries d @ [new]"
proof -
  let ?d = "remove_named [temp_of n] d"
  have d: "filter visible ?d = filter visible d"
    by (rule visible_filter_remove) (auto simp: visible_def is_hidden_def temp_of_def)
  have "filter visible (remove_named [name new] ?d) = filter visible ?d"
    using new_name_fresh [OF assms(1)]
    by (intro visible_filter_remove) (auto simp: new_def remove_named_def)
  then have "filter visible (put_file new ?d) = filter visible d @ [new]"
    using batch_name_visible by (simp add: put_file_def new_def d)
  moreover have "\<forall>f \<in> set (filter visible d). entry_key f \<le> entry_key new"
    using entry_key_new [OF assms(1)] by (auto simp: new_def)
  ultimately show ?thesis
    by (simp add: entries_def sort_key_snoc_greatest)
qed

lemma entries_remove_named:
  "entries (remove_named ns d) = filter (\<lambda>f. name f \<notin> set ns) (entries d)"
proof -
  have "filter visible (remove_named ns d) = filter (\<lambda>f. name f \<notin> set ns) (filter visible d)"
    by (simp add: remove_named_def conj_commute)
  then show ?thesis by (simp add: entries_def filter_sort)
qed

lemma entries_enforce_cap:
  assumes "distinct (map name (entries d))"
  shows "entries (enforce_cap cap limit d) = drop (min limit (length (entries d) - cap)) (entries d)"
proof -
  let ?es = "entries d" and ?k = "min limit (length (entries d) - cap)"
  have "filter (\<lambda>f. name f \<notin> set (map name (take ?k ?es))) (take ?k ?es) = []"
    by (simp add: filter_empty_conv)
  moreover have "filter (\<lambda>f. name f \<notin> set (map name (take ?k ?es))) (drop ?k ?es) = drop ?k ?es"
  proof -
    have "distinct (map name (take ?k ?es) @ map name (drop ?k ?es))"
      using assms by (simp flip: map_append)
    then show ?thesis
      by (intro filter_True) (auto simp: distinct_append)
  qed
  ultimately have "filter (\<lambda>f. name f \<notin> set (map name (take ?k ?es))) ?es = drop ?k ?es"
    by (metis append_Nil append_take_drop_id filter_append)
  then show ?thesis
    by (simp add: enforce_cap_def entries_remove_named Let_def)
qed

section \<open>The spool as a bounded queue\<close>

text \<open>The spool's batches in the order they are replayed, and when it can take \<open>n\<close> more.\<close>

definition spooled :: "spool_dir \<Rightarrow> string list" where
  "spooled d = map body (entries d)"

definition spool_ok :: "nat \<Rightarrow> nat \<Rightarrow> spool_dir \<Rightarrow> bool" where
  "spool_ok cap n d =
     (distinct (map name (entries d)) \<and> length (entries d) \<le> cap \<and> max_sequence d + n < 2 ^ 64)"

definition spill_ok :: "nat \<Rightarrow> spool_dir \<Rightarrow> nat \<times> string \<Rightarrow> spool_dir" where
  "spill_ok cap d batch = fst (spill cap NoFault (fst batch) (snd batch) d)"

abbreviation new_file :: "spool_dir \<Rightarrow> nat \<Rightarrow> string \<Rightarrow> SpoolFile" where
  "new_file d t json \<equiv> \<lparr>name = batch_name (max_sequence d + 1), modified = t, body = json\<rparr>"

lemma distinct_with_new:
  assumes "max_sequence d + 1 < 2 ^ 64" and "distinct (map name (entries d))"
  shows "distinct (map name (entries d @ [new_file d t json]))"
proof -
  have "batch_name (max_sequence d + 1) \<notin> name ` set (entries d)"
  proof
    assume "batch_name (max_sequence d + 1) \<in> name ` set (entries d)"
    then obtain f where "f \<in> set (entries d)" "name f = batch_name (max_sequence d + 1)"
      by auto
    then show False
      using new_name_fresh [OF assms(1), of f] by (simp add: entries_def)
  qed
  then show ?thesis
    using assms(2) by simp
qed

lemma entries_spill:
  assumes "max_sequence d + 1 < 2 ^ 64" and "distinct (map name (entries d))"
  shows "entries (fst (spill cap NoFault t json d)) = keep_last cap (entries d @ [new_file d t json])"
  using entries_put_new [OF assms(1), of t json "batch_name (max_sequence d + 1)"]
    distinct_with_new [OF assms] assms(1)
  by (simp add: spill_def Let_def entries_enforce_cap keep_last_def)

lemma map_keep_last: "map f (keep_last cap xs) = keep_last cap (map f xs)"
  by (simp add: keep_last_def drop_map)

lemma distinct_keep_last: "distinct xs \<Longrightarrow> distinct (keep_last cap xs)"
  by (simp add: keep_last_def)

lemma set_keep_last: "set (keep_last cap xs) \<subseteq> set xs"
  by (simp add: keep_last_def set_drop_subset)

lemma max_sequence_le:
  assumes "\<And>f n. f \<in> set (entries d) \<Longrightarrow> batch_sequence (name f) = Some n \<Longrightarrow> n \<le> m"
  shows "max_sequence d \<le> m"
proof -
  have "fold max xs a \<le> m" if "\<forall>x \<in> set xs. x \<le> m" and "a \<le> m" for xs and a :: nat
    using that by (induction xs arbitrary: a) auto
  moreover have "\<forall>x \<in> set (List.map_filter (\<lambda>f. batch_sequence (name f)) (entries d)). x \<le> m"
    using assms by (auto simp: List.map_filter_def)
  ultimately show ?thesis
    by (simp add: max_sequence_def)
qed

lemma max_sequence_spill:
  assumes "max_sequence d + 1 < 2 ^ 64" and "distinct (map name (entries d))"
  shows "max_sequence (fst (spill cap NoFault t json d)) \<le> max_sequence d + 1"
proof (rule max_sequence_le)
  fix f n
  assume "f \<in> set (entries (fst (spill cap NoFault t json d)))" and n: "batch_sequence (name f) = Some n"
  then have "f \<in> set (entries d) \<or> f = new_file d t json"
    using set_keep_last by (fastforce simp: entries_spill [OF assms])
  then show "n \<le> max_sequence d + 1"
    using max_sequence_upper n batch_name_key [OF assms(1)]
    by (force simp: batch_sequence_def)
qed

lemma spill_keeps_ok:
  assumes "spool_ok cap (Suc n) d"
  shows "spool_ok cap n (spill_ok cap d batch)"
proof -
  have room: "max_sequence d + 1 < 2 ^ 64" and names: "distinct (map name (entries d))"
    using assms by (simp_all add: spool_ok_def)
  have "distinct (map name (keep_last cap (entries d @ [new_file d (fst batch) (snd batch)])))"
    using distinct_with_new [OF room names, of "fst batch" "snd batch"]
    by (simp only: map_keep_last distinct_keep_last)
  then show ?thesis
    using assms max_sequence_spill [OF room names, of cap "fst batch" "snd batch"]
    by (simp add: spool_ok_def spill_ok_def entries_spill [OF room names])
qed

interpretation event_queue: bounded_fifo "spill_ok cap" spooled snd cap "spool_ok cap" for cap
proof
  fix n d and batch :: "nat \<times> string"
  assume ok: "spool_ok cap (Suc n) d"
  then show "spooled (spill_ok cap d batch) = keep_last cap (spooled d @ [snd batch])"
    by (simp add: spool_ok_def spill_ok_def spooled_def entries_spill map_keep_last)
  show "spool_ok cap n (spill_ok cap d batch)"
    using ok by (rule spill_keeps_ok)
next
  fix n d
  assume "spool_ok cap n d"
  then show "length (spooled d) \<le> cap"
    by (simp add: spool_ok_def spooled_def)
qed

section \<open>Properties\<close>

text \<open>C25. The spool refines a bounded first-in first-out queue: after any batches are spilled,
  the replay order is that of what was spooled before followed by the new batches in the
  order they were spilled, and of these the newest \<open>max_files\<close>; whatever the directory order
  and the file times, and across legacy and split files.\<close>
theorem spool_is_bounded_fifo:
  assumes "spool_ok cap (length batches) d"
  shows "spooled (foldl (spill_ok cap) d batches) = keep_last cap (spooled d @ map snd batches)"
  using assms by (rule event_queue.contents_pushes)

theorem spool_is_bounded_fifo_witness:
  "spooled (foldl (spill_ok 2) [] [(5, ''a''), (3, ''b''), (4, ''c'')]) = [''b'', ''c'']"
  using spool_is_bounded_fifo [of 2 "[(5, ''a''), (3, ''b''), (4, ''c'')]" "[]"]
  by (simp add: spool_ok_def spooled_def entries_def max_sequence_def keep_last_def
      List.map_filter_simps)

text \<open>A spill that fails, at whatever call, reorders nothing and loses no batch within the
  cap: what is replayed is as before; or, when only the last steps failed, as before with the
  new batch last and at most the batches beyond the cap removed. A spill that reports success
  has appended the batch and kept the cap.\<close>
theorem spill_error_safe:
  assumes "distinct (map name (entries d))"
  shows "case spill cap fault t json d of (d', ok) \<Rightarrow>
    (if ok then spooled d' = keep_last cap (spooled d @ [json])
     else spooled d' = spooled d \<or>
       (\<exists>k. k \<le> length (spooled d @ [json]) - cap \<and> spooled d' = drop k (spooled d @ [json])))"
proof (cases "max_sequence d + 1 < 2 ^ 64")
  case False
  then show ?thesis by (simp add: spill_def)
next
  case True
  note put = entries_put_new [OF True, of t json "batch_name (max_sequence d + 1)"]
  show ?thesis
  proof (cases fault)
    case NoFault
    have "snd (spill cap NoFault t json d)"
      using True by (simp add: spill_def Let_def)
    then show ?thesis
      using entries_spill [OF True assms] NoFault
      by (simp add: spooled_def map_keep_last split_beta)
  next
    case DirSyncFails
    then show ?thesis
      using put True by (auto simp: spill_def spooled_def Let_def intro!: exI [of _ 0])
  next
    case (CapFails removed)
    have "spooled (fst (spill cap fault t json d)) =
        drop (min removed (length (spooled d @ [json]) - cap)) (spooled d @ [json])"
      using put True distinct_with_new [OF True assms, of t json] CapFails
      by (simp add: spill_def spooled_def entries_enforce_cap Let_def flip: drop_map)
    moreover have "\<not> snd (spill cap fault t json d)"
      using True CapFails by (simp add: spill_def Let_def)
    moreover have "min removed (length (spooled d @ [json]) - cap) \<le> length (spooled d @ [json]) - cap"
      by simp
    ultimately show ?thesis
      unfolding split_beta by (simp only: if_False) blast
  next
    case (TempFails bytes)
    then show ?thesis
      by (cases bytes) (simp_all add: spill_def spooled_def entries_hidden Let_def)
  qed (simp_all add: spill_def spooled_def entries_hidden Let_def)
qed

theorem spill_error_safe_witness:
  "case spill 50 ScanFails 5 ''[{}]'' [\<lparr>name = ''a.json'', modified = 1, body = ''[]''\<rparr>] of
     (d', ok) \<Rightarrow> if ok then spooled d' = [''[]'', ''[{}]''] else spooled d' = [''[]'']"
proof -
  let ?d = "[\<lparr>name = ''a.json'', modified = 1, body = ''[]''\<rparr>]"
  have "visible \<lparr>name = ''a.json'', modified = 1, body = ''[]''\<rparr>"
    by (simp add: visible_def extension_def is_hidden_def)
  then have "entries ?d = ?d"
    by (simp add: entries_def)
  then show ?thesis
    using spill_error_safe [where d = ?d and cap = 50 and fault = ScanFails and t = 5
        and json = "''[{}]''"]
    by (simp add: spill_def spooled_def)
qed

end
