(* ===== verification/SpoolSplit.thy ===== *)
theory SpoolSplit
  imports EventSpool
begin

text \<open>
  Splitting an oversized spool file, \<open>EventSpool::replace_file_with_chunks\<close> of
  \<open>crates/booth-bin/src/event_spool.rs\<close>: the chunks are written to temporary files, renamed to names that
  sort where the original did, and the original is removed. A fault says which file-system call
  fails; what is on disk then is also what a crash at that point leaves.
\<close>

section \<open>The operation\<close>

definition replacement_stem :: "string \<Rightarrow> string" where
  "replacement_stem original =
     (let stem = file_stem original in
      if batch_sequence original \<noteq> None \<or> take 6 stem = ''split-'' then stem else ''split-'' @ stem)"

definition part_name :: "string \<Rightarrow> nat \<Rightarrow> string" where
  "part_name stem index = stem @ ''-part-'' @ show_padded 6 index @ ''.json''"

datatype SplitFault =
    SplitDone
  | MetadataFails
  | ChunkFails nat "string option"      \<comment> \<open>at which chunk, and what its temporary file holds\<close>
  | SplitRenameFails nat bool           \<comment> \<open>at which chunk, and whether it is cleaned up\<close>
  | SetModifiedFails nat
  | RemovalFails
  | SplitSyncFails

definition temp_files :: "nat \<Rightarrow> (string \<times> string) list \<Rightarrow> SpoolFile list" where
  "temp_files now parts = map (\<lambda>(n, b). \<lparr>name = temp_of n, modified = now, body = b\<rparr>) parts"

text \<open>\<open>now\<close>: the clock when the chunks are written; unsequenced chunks take the original's time.\<close>

definition renamed :: "nat \<Rightarrow> nat option \<Rightarrow> string \<times> string \<Rightarrow> spool_dir \<Rightarrow> spool_dir" where
  "renamed now inherited part d =
     put_file \<lparr>name = fst part, modified = (case inherited of None \<Rightarrow> now | Some m \<Rightarrow> m), body = snd part\<rparr>
       (remove_named [temp_of (fst part)] d)"

definition replace_file_with_chunks ::
    "('v list \<Rightarrow> string) \<Rightarrow> SplitFault \<Rightarrow> nat \<Rightarrow> string \<Rightarrow> 'v list \<Rightarrow> nat \<Rightarrow> spool_dir \<Rightarrow> spool_dir \<times> bool"
  where
  "replace_file_with_chunks enc fault now original events chunk_size d =
     (case (chunk_size, find (\<lambda>f. name f = original) d) of
        (Suc _, Some f) \<Rightarrow>
          (let stem = replacement_stem original;
               parts = map (\<lambda>(i, c). (part_name stem i, enc c)) (enumerate 0 (chunks chunk_size events));
               inherited = (if batch_sequence original = None then Some (modified f) else None);
               temps = fold put_file (temp_files now parts) d
           in case fault of
                MetadataFails \<Rightarrow> (d, False)
              | ChunkFails k left \<Rightarrow>
                  (let d1 = fold put_file (temp_files now (take k parts)) d
                   in (case left of None \<Rightarrow> d1
                       | Some bytes \<Rightarrow> put_file \<lparr>name = temp_of (part_name stem k), modified = now, body = bytes\<rparr> d1,
                       False))
              | SplitRenameFails k cleaned \<Rightarrow>
                  (let d1 = fold (renamed now inherited) (take k parts) temps
                   in (if cleaned then remove_named [temp_of (part_name stem k)] d1 else d1, False))
              | SetModifiedFails k \<Rightarrow>
                  (if inherited = None then (temps, False)
                   else (renamed now None (parts ! k)
                           (fold (renamed now inherited) (take k parts) temps), False))
              | RemovalFails \<Rightarrow> (fold (renamed now inherited) parts temps, False)
              | _ \<Rightarrow> (remove_named [original] (fold (renamed now inherited) parts temps),
                      fault = SplitDone))
      | _ \<Rightarrow> (d, False))"

section \<open>Names of the parts\<close>

lemma parse_digits_last: "parse_digits acc s = Some n \<Longrightarrow> s \<noteq> [] \<Longrightarrow> digit_value (last s) \<noteq> None"
  by (induction s arbitrary: acc) (auto split: option.splits if_splits)

lemma parse_unsigned_last: "parse_unsigned bound s = Some n \<Longrightarrow> s \<noteq> [] \<and> digit_value (last s) \<noteq> None"
  using parse_digits_last [of 0 s] parse_digits_last [of 0 "tl s"]
  by (auto simp: parse_unsigned_def Let_def split: list.splits if_splits option.splits)

lemma split_parts_nonempty: "split_parts acc s \<noteq> []"
  by (induction acc s rule: split_parts.induct) auto

lemma sep_at_end:
  assumes "length t < 6" and "t \<noteq> []" and "digit_value (last t) \<noteq> None"
  shows "take 6 (t @ ''-part-'' @ ds) \<noteq> ''-part-''"
proof
  assume sep: "take 6 (t @ ''-part-'' @ ds) = ''-part-''"
  have "t = take (length t) (take 6 (t @ ''-part-'' @ ds))"
    using assms(1) by simp
  also have "\<dots> = take (length t) ''-part-''" by (simp only: sep)
  finally have t: "t = take (length t) ''-part-''" .
  have "last t \<in> set (take (length t) ''-part-'')"
    using last_in_set [OF assms(2)] t by simp
  then have "last t \<in> set ''-part-''"
    by (rule in_set_takeD)
  with assms(3) show False
    by (auto simp: digit_value_def)
qed

lemma split_parts_sep:
  "take 6 (c # cs) = ''-part-'' \<Longrightarrow> split_parts acc (c # cs) = rev acc # split_parts [] (drop 5 cs)"
  "take 6 (c # cs) \<noteq> ''-part-'' \<Longrightarrow> split_parts acc (c # cs) = split_parts (c # acc) cs"
  by (simp_all only: split_parts.simps if_True if_False refl)

lemma split_parts_at_sep:
  assumes "CHR ''-'' \<notin> set ds"
  shows "split_parts acc (''-part-'' @ ds) = [rev acc, ds]"
  using split_parts_digits [OF assms, of "[]"] by simp

lemma split_parts_append:
  assumes "CHR ''-'' \<notin> set ds"
  shows "s \<noteq> [] \<Longrightarrow> digit_value (last s) \<noteq> None \<Longrightarrow>
    split_parts acc (s @ ''-part-'' @ ds) = split_parts acc s @ [ds]"
proof (induction acc s rule: split_parts.induct)
  case (2 acc c cs)
  define rest where "rest = ''-part-'' @ ds"
  show ?case
  proof (cases "take 6 (c # cs) = ''-part-''")
    case True
    then have whole: "c # cs = ''-part-'' @ drop 5 cs"
      using append_take_drop_id [of 6 "c # cs"] by simp
    have more: "drop 5 cs \<noteq> []"
    proof
      assume "drop 5 cs = []"
      then have "last (c # cs) = CHR ''-''"
        using whole by simp
      then show False
        using "2.prems"(2) by simp
    qed
    then have "last (drop 5 cs) = last (c # cs)"
      by (simp add: last_drop) (use more in auto)
    then have "split_parts [] (drop 5 cs @ rest) = split_parts [] (drop 5 cs) @ [ds]"
      using "2.IH"(1) [OF True more] "2.prems"(2) by (simp only: rest_def not_False_eq_True True_implies_equals)
    moreover have "take 6 (c # (cs @ rest)) = ''-part-''" "drop 5 (cs @ rest) = drop 5 cs @ rest"
      using True more by (simp_all del: take_Suc_Cons add: take_Cons')
    ultimately have "split_parts acc (c # (cs @ rest)) = split_parts acc (c # cs) @ [ds]"
      by (simp only: split_parts_sep(1) True append_Cons)
    then show ?thesis by (simp only: rest_def append_Cons)
  next
    case False
    have "take 6 (c # (cs @ rest)) \<noteq> ''-part-''"
    proof (cases "length (c # cs) < 6")
      case True
      then show ?thesis
        using sep_at_end [OF True "2.prems"] unfolding rest_def append_Cons by blast
    next
      case long: False
      then have "take 6 ((c # cs) @ rest) = take 6 (c # cs)" by (simp only: take_append) simp
      then show ?thesis
        using False by (simp only: append_Cons not_False_eq_True)
    qed
    then have "split_parts acc (c # (cs @ rest)) = split_parts (c # acc) (cs @ rest)"
      by (rule split_parts_sep(2))
    also have "\<dots> = split_parts (c # acc) cs @ [ds]"
    proof (cases "cs = []")
      case True
      then show ?thesis
        by (simp only: rest_def append_Nil split_parts_at_sep [OF assms]) simp
    next
      case more: False
      then show ?thesis
        using "2.IH"(2) [OF False more] "2.prems"(2) by (simp add: rest_def)
    qed
    finally show ?thesis
      by (simp only: split_parts_sep(2) [OF False] rest_def append_Cons)
  qed
qed simp

section \<open>The parts sort where the original did\<close>

lemma split_parts_last:
  "s \<noteq> [] \<Longrightarrow> last (split_parts acc s) \<noteq> [] \<Longrightarrow> last (last (split_parts acc s)) = last s"
proof (induction acc s rule: split_parts.induct)
  case (2 acc c cs)
  show ?case
  proof (cases "take 6 (c # cs) = ''-part-''")
    case True
    have parts: "split_parts acc (c # cs) = rev acc # split_parts [] (drop 5 cs)"
      by (rule split_parts_sep(1) [OF True])
    then have "drop 5 cs \<noteq> []"
      using "2.prems"(2) by auto
    moreover from this have "last (drop 5 cs) = last (c # cs)"
      by (simp add: last_drop) (use \<open>drop 5 cs \<noteq> []\<close> in auto)
    ultimately show ?thesis
      using "2.IH"(1) [OF True] "2.prems"(2) by (simp only: parts) (simp add: split_parts_nonempty)
  next
    case False
    have parts: "split_parts acc (c # cs) = split_parts (c # acc) cs"
      by (rule split_parts_sep(2) [OF False])
    show ?thesis
      using "2.IH"(2) [OF False] "2.prems"(2) by (cases "cs = []") (simp_all only: parts, simp_all)
  qed
qed simp

lemma batch_sort_key_SomeD:
  assumes "batch_sort_key original = Some (n, ps)"
  obtains s first rest where "file_stem original = ''batch-'' @ s"
    and "split_parts [] s = first # rest" and "parse_unsigned (2 ^ 64) first = Some n"
    and "collect_options (map parse_part rest) = Some ps"
proof -
  have batch: "take 6 (file_stem original) = ''batch-''"
    using assms by (simp add: batch_sort_key_def Let_def split: if_splits)
  define s where "s = drop 6 (file_stem original)"
  have "file_stem original = ''batch-'' @ s"
    using append_take_drop_id [of 6 "file_stem original"] batch by (simp add: s_def)
  moreover obtain first rest where "split_parts [] s = first # rest"
      "parse_unsigned (2 ^ 64) first = Some n" "collect_options (map parse_part rest) = Some ps"
    using assms batch
    by (auto simp: batch_sort_key_def Let_def s_def split: if_splits list.splits option.splits)
  ultimately show ?thesis using that by blast
qed

lemma collect_options_all: "collect_options xs = Some ys \<Longrightarrow> x \<in> set xs \<Longrightarrow> x \<noteq> None"
  by (induction xs arbitrary: ys) (auto split: option.splits)

lemma collect_options_snoc:
  "collect_options xs = Some ys \<Longrightarrow> collect_options (xs @ [Some y]) = Some (ys @ [y])"
  by (induction xs arbitrary: ys) (auto split: option.splits)

lemma part_key:
  assumes key: "batch_sort_key original = Some (n, ps)" and i: "i + 1 < 2 ^ 32"
  shows "batch_sort_key (part_name (file_stem original) i) = Some (n, ps @ [i + 1])"
proof -
  obtain s first rest where s: "file_stem original = ''batch-'' @ s" "split_parts [] s = first # rest"
      "parse_unsigned (2 ^ 64) first = Some n" "collect_options (map parse_part rest) = Some ps"
    using key by (rule batch_sort_key_SomeD)
  let ?ds = "show_padded 6 i"
  have "s \<noteq> []"
    using s(2,3) by (auto simp: parse_unsigned_def)
  have "last (split_parts [] s) \<noteq> [] \<and> digit_value (last (last (split_parts [] s))) \<noteq> None"
  proof (cases "rest = []")
    case True
    then show ?thesis
      using parse_unsigned_last [OF s(3)] by (simp add: s(2))
  next
    case False
    then have "parse_part (last rest) \<noteq> None"
      using collect_options_all [OF s(4)] by auto
    then show ?thesis
      using False parse_unsigned_last by (fastforce simp: s(2) parse_part_def split: option.splits)
  qed
  then have "digit_value (last s) \<noteq> None"
    using split_parts_last [OF \<open>s \<noteq> []\<close>, of "[]"] by metis
  moreover have "CHR ''-'' \<notin> set ?ds"
    using show_padded_digits [of 6 i] by auto
  ultimately have split: "split_parts [] (s @ ''-part-'' @ ?ds) = first # rest @ [?ds]"
    using split_parts_append [of ?ds s "[]"] \<open>s \<noteq> []\<close> s(2) by simp
  have "file_stem (part_name (file_stem original) i) = ''batch-'' @ s @ ''-part-'' @ ?ds"
    using file_name_parts(1) [of "''json''" "''batch-'' @ s @ ''-part-'' @ ?ds"]
    by (simp add: part_name_def s(1))
  moreover have "parse_part ?ds = Some (i + 1)"
    using parse_show_padded [of i "2 ^ 32" 6] i by (simp add: parse_part_def)
  ultimately show ?thesis
    using s(3) collect_options_snoc [OF s(4)] split by (simp add: batch_sort_key_def)
qed

lemma sort_key_front:
  assumes "sorted (map k news)" and "\<forall>x \<in> set xs. \<forall>y \<in> set news. k y < k x"
  shows "sort_key k (xs @ news) = news @ sort_key k xs"
  using assms(2)
proof (induction xs)
  case Nil
  then show ?case using assms(1) by (simp add: sort_key_id_if_sorted)
next
  case (Cons x xs)
  have "insort_key k x (ns @ ys) = ns @ insort_key k x ys" if "\<forall>y \<in> set ns. k y < k x" for ns ys
    using that by (induction ns) auto
  then show ?case using Cons by simp
qed

text \<open>No other file is a part of the one that is split.\<close>

definition splits_alone :: "string \<Rightarrow> spool_dir \<Rightarrow> bool" where
  "splits_alone original d = (case batch_sort_key original of
     None \<Rightarrow> False
   | Some (n, ps) \<Rightarrow> list_all (\<lambda>f. case batch_sort_key (name f) of
        None \<Rightarrow> True | Some (m, qs) \<Rightarrow> m = n \<and> take (length ps) qs = ps \<longrightarrow> name f = original) d)"

lemma less_append_first: "(xs :: nat list) < ys \<Longrightarrow> take (length xs) ys \<noteq> xs \<Longrightarrow> xs @ zs < ys"
proof (induction xs arbitrary: ys)
  case (Cons x xs)
  then show ?case by (cases ys) auto
qed simp

lemma entry_key_part:
  assumes "batch_sort_key original = Some (n, ps)" and "i + 1 < 2 ^ 32"
  shows "entry_key \<lparr>name = part_name (file_stem original) i, modified = t, body = b\<rparr> =
    ((1, n, [], ps @ [i + 1]), part_name (file_stem original) i)"
  by (simp add: entry_key_def part_key [OF assms])

lemma later_than_parts:
  assumes key: "batch_sort_key original = Some (n, ps)" and i: "i + 1 < 2 ^ 32"
    and alone: "splits_alone original d" and g: "g \<in> set d" "name g \<noteq> original"
    and later: "entry_key f \<le> entry_key g" "name f = original"
  shows "entry_key \<lparr>name = part_name (file_stem original) i, modified = t, body = b\<rparr> < entry_key g"
proof (cases "batch_sort_key (name g)")
  case None
  then show ?thesis
    using later key by (simp add: entry_key_def less_eq_prod_def less_prod_def)
next
  case (Some k)
  obtain m qs where k: "k = (m, qs)" by (cases k)
  have "\<not> (m = n \<and> take (length ps) qs = ps)"
    using alone g key Some by (auto simp: splits_alone_def list_all_iff k)
  moreover have "n < m \<or> n = m \<and> ps \<le> qs"
    using later key Some by (auto simp: entry_key_def less_eq_prod_def less_prod_def k)
  ultimately have "n < m \<or> n = m \<and> ps @ [i + 1] < qs"
    using less_append_first [of ps qs "[i + 1]"] by (auto simp: le_less)
  then show ?thesis
    unfolding entry_key_part [OF key i] using Some
    by (auto simp: entry_key_def less_prod_def k)
qed

section \<open>What is on disk\<close>

abbreviation part_file :: "nat \<Rightarrow> nat option \<Rightarrow> string \<times> string \<Rightarrow> SpoolFile" where
  "part_file now inherited part \<equiv>
     \<lparr>name = fst part, modified = (case inherited of None \<Rightarrow> now | Some m \<Rightarrow> m), body = snd part\<rparr>"

lemma visible_temp_removed: "filter visible (remove_named [temp_of n] d) = filter visible d"
  by (rule visible_filter_remove) (auto simp: visible_def is_hidden_def temp_of_def)

lemma visible_put_temp:
  "filter visible (put_file \<lparr>name = temp_of n, modified = t, body = b\<rparr> d) = filter visible d"
  by (simp add: put_file_def visible_temp_removed hidden_not_visible)

lemma visible_temps: "filter visible (fold put_file (temp_files now parts) d) = filter visible d"
  by (induction parts arbitrary: d) (simp_all add: temp_files_def split_beta visible_put_temp)

lemma visible_remove_named:
  "filter visible (remove_named ns d) = filter (\<lambda>f. name f \<notin> set ns) (filter visible d)"
  by (simp add: remove_named_def conj_commute)

lemma visible_renamed:
  assumes "visible (part_file now inherited p)"
  shows "filter visible (renamed now inherited p d) =
    filter (\<lambda>f. name f \<noteq> fst p) (filter visible d) @ [part_file now inherited p]"
proof -
  have "filter visible (remove_named [fst p] (remove_named [temp_of (fst p)] d)) =
      filter (\<lambda>f. name f \<notin> set [fst p]) (filter visible d)"
    by (simp only: visible_remove_named [of "[fst p]"] visible_temp_removed)
  then show ?thesis
    using assms by (simp add: renamed_def put_file_def del: filter_filter)
qed

lemma visible_all_renamed:
  assumes "\<forall>p \<in> set parts. visible (part_file now inherited p)"
    and "distinct (map fst parts)" and "\<forall>f \<in> set (filter visible d). name f \<notin> fst ` set parts"
  shows "filter visible (fold (renamed now inherited) parts d) =
    filter visible d @ map (part_file now inherited) parts"
  using assms
proof (induction parts arbitrary: d)
  case (Cons p parts)
  have "filter (\<lambda>f. name f \<noteq> fst p) (filter visible d) = filter visible d"
    using Cons.prems(3) by (intro filter_True) auto
  then have first: "filter visible (renamed now inherited p d) = filter visible d @ [part_file now inherited p]"
    using visible_renamed Cons.prems(1) by simp
  then show ?case
    using Cons.IH [of "renamed now inherited p d"] Cons.prems by (auto simp: first)
qed simp

lemma temp_name_same: "temp_of a = temp_of b \<longleftrightarrow> a = b"
  by (simp add: temp_of_def)

section \<open>Splitting keeps the order\<close>

lemma append_less_last: "ps @ [a] < ps @ [b] \<longleftrightarrow> a < b" for a b :: nat
  by (induction ps) auto

lemma part_name_inj:
  assumes "batch_sort_key original = Some (n, ps)" and "i + 1 < 2 ^ 32" and "j + 1 < 2 ^ 32"
  shows "part_name (file_stem original) i = part_name (file_stem original) j \<longleftrightarrow> i = j"
proof
  assume "part_name (file_stem original) i = part_name (file_stem original) j"
  then have "Some (n, ps @ [i + 1]) = Some (n, ps @ [j + 1])"
    using part_key [OF assms(1,2)] part_key [OF assms(1,3)] by (simp only:)
  then show "i = j" by simp
qed simp

lemma part_visible:
  assumes "batch_sort_key original = Some (n, ps)"
  shows "visible \<lparr>name = part_name (file_stem original) i, modified = t, body = b\<rparr>"
proof -
  obtain s where "file_stem original = ''batch-'' @ s"
    using assms by (rule batch_sort_key_SomeD)
  then show ?thesis
    using file_name_parts(2) [of "''json''" "''batch-'' @ s @ ''-part-'' @ show_padded 6 i"]
    by (simp add: visible_def part_name_def is_hidden_def)
qed

lemma parts_fresh:
  assumes "batch_sort_key original = Some (n, ps)" and "i + 1 < 2 ^ 32" and "splits_alone original d"
    and "f \<in> set d"
  shows "name f \<noteq> part_name (file_stem original) i"
proof
  assume name: "name f = part_name (file_stem original) i"
  then have "batch_sort_key (name f) = Some (n, ps @ [i + 1])"
    using part_key [OF assms(1,2)] by simp
  moreover from this have "name f = original"
    using assms by (auto simp: splits_alone_def list_all_iff)
  ultimately show False using assms(1) by simp
qed

definition part_list :: "('v list \<Rightarrow> string) \<Rightarrow> string \<Rightarrow> 'v list list \<Rightarrow> (string \<times> string) list" where
  "part_list enc stem cs = map (\<lambda>i. (part_name stem i, enc (cs ! i))) [0..<length cs]"

lemma part_list_eq: "map (\<lambda>(i, c). (part_name stem i, enc c)) (enumerate 0 cs) = part_list enc stem cs"
  by (rule nth_equalityI) (simp_all add: part_list_def nth_enumerate_eq)

lemma replacement_stem_sequenced:
  "batch_sort_key original = Some x \<Longrightarrow> replacement_stem original = file_stem original"
  by (simp add: replacement_stem_def batch_sequence_def Let_def)

lemma find_named: "f \<in> set d \<Longrightarrow> find (\<lambda>g. name g = name f) d \<noteq> None"
  by (auto simp: find_None_iff)

lemma entries_after_split:
  fixes now :: nat and enc :: "'v list \<Rightarrow> string"
  assumes first: "entries d = f # es" and key: "batch_sort_key (name f) = Some (n, ps)"
    and alone: "splits_alone (name f) d" and distinct: "distinct (map name (entries d))"
    and few: "length cs < 2 ^ 32"
  defines "parts \<equiv> part_list enc (file_stem (name f)) cs"
  defines "d' \<equiv> fold (renamed now None) parts (fold put_file (temp_files now parts) d)"
  shows "entries (remove_named [name f] d') = map (part_file now None) parts @ es"
    and "f \<in> set (entries d')"
proof -
  let ?stem = "file_stem (name f)"
  let ?news = "map (part_file now None) parts"
  have parts: "\<exists>i. fst p = part_name ?stem i \<and> i + 1 < 2 ^ 32" if "p \<in> set parts" for p
    using that few by (auto simp: parts_def part_list_def)
  have "distinct (map fst parts)"
    using part_name_inj [OF key] few
    by (auto simp: parts_def part_list_def distinct_map inj_on_def o_def)
  moreover have "\<forall>p \<in> set parts. visible (part_file now None p)"
    using parts part_visible [OF key] by fastforce
  moreover have "\<forall>g \<in> set (filter visible d). name g \<notin> fst ` set parts"
    using parts parts_fresh [OF key _ alone] by fastforce
  ultimately have vis: "filter visible d' = filter visible d @ ?news"
    by (simp add: d'_def visible_temps visible_all_renamed)
  have "f \<in> set (filter visible d)"
    using first by (metis entries_def list.set_intros(1) set_sort)
  then show "f \<in> set (entries d')"
    using vis by (simp add: entries_def)
  have olds: "set (filter visible d) = set (entries d)"
    by (simp add: entries_def)
  have "\<forall>g \<in> set ?news. name g \<noteq> name f"
    using parts parts_fresh [OF key _ alone] \<open>f \<in> set (filter visible d)\<close> by fastforce
  then have "filter (\<lambda>g. name g \<notin> set [name f]) ?news = ?news"
    by (intro filter_True) simp
  then have rest: "filter visible (remove_named [name f] d') =
      filter (\<lambda>g. name g \<notin> set [name f]) (filter visible d) @ ?news"
    unfolding visible_remove_named vis filter_append by simp
  have "sorted_wrt (\<lambda>i j. entry_key (part_file now None (part_name ?stem i, enc (cs ! i)))
      \<le> entry_key (part_file now None (part_name ?stem j, enc (cs ! j)))) [0..<length cs]"
    using few by (auto simp: sorted_wrt_iff_nth_less entry_key_part [OF key] less_eq_prod_def less_prod_def
        append_less_last)
  then have sorted_news: "sorted (map entry_key ?news)"
    by (simp add: sorted_wrt_map parts_def part_list_def o_def)
  let ?old = "filter (\<lambda>g. name g \<notin> set [name f]) (filter visible d)"
  have least: "entry_key f \<le> entry_key g" if "g \<in> set (filter visible d)" for g
  proof -
    have "sorted (map entry_key (f # es))"
      using sorted_sort_key [of entry_key "filter visible d"] unfolding first [unfolded entries_def] .
    moreover have "g \<in> set (f # es)"
      using that unfolding olds first .
    ultimately show ?thesis by auto
  qed
  have before: "\<forall>g \<in> set ?old. \<forall>new \<in> set ?news. entry_key new < entry_key g"
  proof (intro ballI)
    fix g new
    assume "g \<in> set ?old" and "new \<in> set ?news"
    then obtain p where g: "g \<in> set (filter visible d)" "name g \<noteq> name f" and p: "p \<in> set parts"
        "new = part_file now None p"
      by auto
    obtain i where "fst p = part_name ?stem i" "i + 1 < 2 ^ 32"
      using parts [OF p(1)] by blast
    then show "entry_key new < entry_key g"
      using later_than_parts [OF key _ alone _ g(2) least [OF g(1)] refl, of i] g(1) p(2) by simp
  qed
  have "sort_key entry_key ?old = filter (\<lambda>g. name g \<notin> set [name f]) (entries d)"
    by (simp only: entries_def filter_sort)
  also have "\<dots> = es"
  proof -
    have "\<forall>g \<in> set es. name g \<noteq> name f"
      using distinct by (simp add: first) (metis imageI)
    then show ?thesis
      by (simp add: first)
  qed
  finally show "entries (remove_named [name f] d') = ?news @ es"
    unfolding entries_def rest using sort_key_front [OF sorted_news before] by simp
qed

lemma split_result:
  fixes enc :: "'v list \<Rightarrow> string" and events :: "'v list" and now :: nat
  assumes "f \<in> set d" and "batch_sort_key (name f) = Some x" and "0 < n"
    and fault: "fault = SplitDone \<or> fault = SplitSyncFails \<or> fault = RemovalFails"
  defines "parts \<equiv> part_list enc (file_stem (name f)) (chunks n events)"
  defines "d1 \<equiv> fold (renamed now None) parts (fold put_file (temp_files now parts) d)"
  shows "replace_file_with_chunks enc fault now (name f) events n d =
    (if fault = RemovalFails then d1 else remove_named [name f] d1, fault = SplitDone)"
proof -
  obtain g where "find (\<lambda>g. name g = name f) d = Some g"
    using find_named [OF assms(1)] by auto
  moreover obtain m where "n = Suc m"
    using assms(3) by (cases n) auto
  ultimately show ?thesis
    using fault assms(2) replacement_stem_sequenced [OF assms(2)]
    by (auto simp: replace_file_with_chunks_def part_list_eq parts_def d1_def batch_sequence_def Let_def)
qed


lemma concrete_key:
  "batch_sort_key ''batch-7.json'' = Some (7, [])" "batch_sort_key ''batch-8.json'' = Some (8, [])"
  by (simp_all add: batch_sort_key_def file_stem_def parse_unsigned_def digit_value_def)


lemma renamed_keeps:
  "f \<in> set (filter visible d) \<Longrightarrow> \<forall>p \<in> set parts. fst p \<noteq> name f \<Longrightarrow>
   f \<in> set (filter visible (fold (renamed now inherited) parts d))"
proof (induction parts arbitrary: d)
  case (Cons p parts)
  have "name f \<noteq> temp_of (fst p)"
    using Cons.prems(1) by (auto simp: visible_def is_hidden_def temp_of_def)
  then have "f \<in> set (filter visible (renamed now inherited p d))"
    using Cons.prems by (auto simp: renamed_def put_file_def remove_named_def)
  then show ?case
    using Cons by simp
qed simp

text \<open>A split that fails, at whatever call, or is cut short there, loses no event: either the original
  batch and all others are still spooled, to be split again later, or every chunk is in place, before
  all others, and only the removal's durability is in doubt.\<close>
theorem failed_split_loses_nothing:
  assumes "entries d = f # es" and "batch_sequence (name f) \<noteq> None" and "splits_alone (name f) d"
    and "distinct (map name (entries d))" and "0 < n" and "length (chunks n events) < 2 ^ 32"
  shows "case replace_file_with_chunks enc fault now (name f) events n d of (d', ok) \<Rightarrow>
    set (entries d) \<subseteq> set (entries d') \<or>
    spooled d' = map enc (chunks n events) @ tl (spooled d) \<and> fault \<in> {SplitDone, SplitSyncFails}"
proof -
  obtain m ps where key: "batch_sort_key (name f) = Some (m, ps)"
    using assms(2) by (auto simp: batch_sequence_def)
  have f: "f \<in> set (filter visible d)"
    using assms(1) by (metis entries_def list.set_intros(1) set_sort)
  then have fd: "f \<in> set d" by simp
  let ?stem = "file_stem (name f)"
  let ?parts = "part_list enc ?stem (chunks n events)"
  have fresh: "\<forall>p \<in> set ?parts. fst p \<noteq> name g" if "g \<in> set (filter visible d)" for g
  proof
    fix p
    assume "p \<in> set ?parts"
    then obtain i where "fst p = part_name ?stem i" "i < length (chunks n events)"
      by (auto simp: part_list_def)
    then show "fst p \<noteq> name g"
      using parts_fresh [OF key _ assms(3), of i g] that assms(6) by auto
  qed
  have temps: "set (filter visible d) \<subseteq> set (filter visible (fold put_file (temp_files now ps') d))" for ps'
    by (simp only: visible_temps subset_refl)
  have taken: "set (filter visible d) \<subseteq>
      set (filter visible (fold (renamed now inh) (take k ?parts) (fold put_file (temp_files now ?parts) d)))"
    for k inh
  proof
    fix g
    assume g: "g \<in> set (filter visible d)"
    then show "g \<in> set (filter visible
        (fold (renamed now inh) (take k ?parts) (fold put_file (temp_files now ?parts) d)))"
      using fresh [OF g] by (intro renamed_keeps subsetD [OF temps g]) (auto dest: in_set_takeD)
  qed
  obtain g where g: "find (\<lambda>g. name g = name f) d = Some g"
    using find_named [OF fd] by auto
  obtain n' where n: "n = Suc n'"
    using assms(5) by (cases n) auto
  have unfolded: "replace_file_with_chunks enc fault now (name f) events n d =
      (case fault of
         MetadataFails \<Rightarrow> (d, False)
       | ChunkFails k left \<Rightarrow>
           (let d1 = fold put_file (temp_files now (take k ?parts)) d
            in (case left of None \<Rightarrow> d1
                | Some bytes \<Rightarrow> put_file \<lparr>name = temp_of (part_name ?stem k), modified = now, body = bytes\<rparr> d1,
                False))
       | SplitRenameFails k cleaned \<Rightarrow>
           (let d1 = fold (renamed now None) (take k ?parts) (fold put_file (temp_files now ?parts) d)
            in (if cleaned then remove_named [temp_of (part_name ?stem k)] d1 else d1, False))
       | SetModifiedFails k \<Rightarrow> (fold put_file (temp_files now ?parts) d, False)
       | _ \<Rightarrow> replace_file_with_chunks enc fault now (name f) events n d)"
    by (cases fault; simp only: replace_file_with_chunks_def g n nat.case option.case prod.case Let_def
        SplitFault.case replacement_stem_sequenced [OF key] part_list_eq)
      (simp_all add: batch_sequence_def key)
  show ?thesis
  proof (cases "fault = SplitDone \<or> fault = SplitSyncFails")
    case True
    then have quiet: "fault = SplitDone \<or> fault = SplitSyncFails \<or> fault = RemovalFails" by blast
    have "map body (map (part_file now None) ?parts) = map enc (chunks n events)"
      by (rule nth_equalityI) (simp_all add: part_list_def)
    then show ?thesis
      using split_result [OF fd key assms(5) quiet, of enc now events]
        entries_after_split [OF assms(1) key assms(3,4,6), of now enc] True assms(1)
      by (auto simp: spooled_def split_beta)
  next
    case False
    show ?thesis
    proof (cases "fault = RemovalFails")
      case True
      then show ?thesis
        using split_result [OF fd key assms(5), of fault enc now events] taken [of None "length ?parts"]
        by (simp add: entries_def)
    next
      case other: False
      have "set (filter visible d) \<subseteq>
          set (filter visible (fst (replace_file_with_chunks enc fault now (name f) events n d)))"
        using temps taken False other
        by (subst unfolded) (cases fault;
            simp only: SplitFault.case fst_conv Let_def visible_put_temp visible_temp_removed
              split: option.split if_split; simp)
      then show ?thesis
        by (simp add: entries_def split_beta)
    qed
  qed
qed

theorem failed_split_loses_nothing_witness:
  "\<lparr>name = ''batch-7.json'', modified = 2, body = ''abc''\<rparr> \<in> set (entries (fst
     (replace_file_with_chunks concat (SplitRenameFails 1 True) 5 ''batch-7.json'' [''a'', ''b'', ''c''] 2
      [\<lparr>name = ''batch-8.json'', modified = 3, body = ''d''\<rparr>,
       \<lparr>name = ''batch-7.json'', modified = 2, body = ''abc''\<rparr>])))"
proof -
  let ?f = "\<lparr>name = ''batch-7.json'', modified = 2, body = ''abc''\<rparr>"
  let ?g = "\<lparr>name = ''batch-8.json'', modified = 3, body = ''d''\<rparr>"
  have e: "entries [?g, ?f] = [?f, ?g]"
    by (simp add: entries_def visible_def extension_def is_hidden_def entry_key_def concrete_key
        less_eq_prod_def less_prod_def)
  have c: "chunks 2 [''a'', ''b'', ''c''] = [[''a'', ''b''], [''c'']]"
    by (simp add: chunks.simps)
  show ?thesis
    using failed_split_loses_nothing [OF e, of 2 "[''a'', ''b'', ''c'']" concat "SplitRenameFails 1 True" 5]
    by (simp add: c e split_beta batch_sequence_def concrete_key splits_alone_def)
qed

end
