(* ===== verification/Forwarder.thy ===== *)
theory Forwarder
  imports Sessions SpoolSplit
begin

text \<open>
  The event forwarder of \<open>crates/booth-bin/src/observability.rs\<close>: flushing the buffer to the operator in
  bounded requests, spilling it to disk, replaying the spool one request per tick, and the task's
  loop with its shutdown. The operator is the list of answers it gives, one per request; a request
  without an answer is one the shutdown or its timeout cancelled. \<open>enc\<close> is serde_json on a batch;
  where file-system calls fail is an argument.
\<close>

definition OPERATOR_EVENT_BATCH_MAX :: nat where "OPERATOR_EVENT_BATCH_MAX = 500"

type_synonym answer = "(EventBatchAck, OperatorError) result"

definition effective_event_batch_max :: "nat \<Rightarrow> nat" where
  "effective_event_batch_max configured = min (max configured 1) OPERATOR_EVENT_BATCH_MAX"

section \<open>Spilling\<close>

text \<open>
  \<open>spills\<close>: how each call of \<open>spool.spill\<close> ends, with the time it is made; \<open>None\<close> for the spool
  is a forwarder without one.
\<close>

record SpillWorld =
  max_files :: nat
  spills :: "nat \<Rightarrow> SpillFault \<times> nat"

fun spill_chunks ::
    "('v list \<Rightarrow> string) \<Rightarrow> SpillWorld \<Rightarrow> nat \<Rightarrow> 'v list list \<Rightarrow> spool_dir \<Rightarrow> spool_dir \<times> bool" where
  "spill_chunks enc w i [] d = (d, True)"
| "spill_chunks enc w i (c # cs) d =
     (case spills w i of (fault, now) \<Rightarrow>
       (case spill (max_files w) fault now (enc c) d of (d1, ok) \<Rightarrow>
          if ok then spill_chunks enc w (Suc i) cs d1 else (d1, False)))"

definition spill_remaining ::
    "('v list \<Rightarrow> string) \<Rightarrow> SpillWorld \<Rightarrow> nat \<Rightarrow> 'v list \<Rightarrow> spool_dir option \<Rightarrow> 'v list \<times> spool_dir option" where
  "spill_remaining enc w max_events_per_file pending spool =
     (if pending = [] then (pending, spool)
      else case spool of
        None \<Rightarrow> (pending, None)
      | Some d \<Rightarrow>
          (case spill_chunks enc w 0 (chunks (effective_event_batch_max max_events_per_file) pending) d of
             (d1, ok) \<Rightarrow> (if ok then [] else pending, Some d1)))"

definition maybe_spill ::
    "('v list \<Rightarrow> string) \<Rightarrow> SpillWorld \<Rightarrow> nat \<Rightarrow> nat \<Rightarrow> 'v list \<Rightarrow> spool_dir option \<Rightarrow> 'v list \<times> spool_dir option"
  where
  "maybe_spill enc w buffer_max batch_max pending spool =
     (if length pending < buffer_max div 2 then (pending, spool)
      else spill_remaining enc w (effective_event_batch_max batch_max) pending spool)"

section \<open>Flushing\<close>

datatype FlushEnd = Flushed bool | Inactive | Cancelled

text \<open>The loop of \<open>flush_once\<close>: what stays buffered, the requests made and how it ends.\<close>

fun flush_loop ::
    "nat \<Rightarrow> answer list \<Rightarrow> 'v list \<Rightarrow> 'v list \<times> 'v list list \<times> FlushEnd" where
  "flush_loop m [] pending =
     (if pending = [] then ([], [], Flushed True) else (pending, [take m pending], Cancelled))"
| "flush_loop m (a # as) pending =
     (if pending = [] then ([], [], Flushed True)
      else case a of
        Inr _ \<Rightarrow>
          (case flush_loop m as (drop m pending) of (rest, reqs, e) \<Rightarrow> (rest, take m pending # reqs, e))
      | Inl (OperatorError.Unsupported _) \<Rightarrow> ([], [take m pending], Flushed True)
      | Inl (InstallationInactive _) \<Rightarrow> (pending, [take m pending], Inactive)
      | Inl _ \<Rightarrow> (pending, [take m pending], Flushed False))"

definition flush_once ::
    "('v list \<Rightarrow> string) \<Rightarrow> SpillWorld \<Rightarrow> nat \<Rightarrow> answer list \<Rightarrow> 'v list \<Rightarrow> spool_dir option \<Rightarrow>
     ('v list \<times> spool_dir option) \<times> 'v list list \<times> bool option" where
  "flush_once enc w max_events answers pending spool =
     (let m = effective_event_batch_max max_events in
      case flush_loop m answers pending of (rest, reqs, e) \<Rightarrow>
        (case e of
           Flushed ok \<Rightarrow> ((rest, spool), reqs, Some ok)
         | Inactive \<Rightarrow> (spill_remaining enc w m rest spool, reqs, Some False)
         | Cancelled \<Rightarrow> ((rest, spool), reqs, None)))"

definition after_flush ::
    "('v list \<Rightarrow> string) \<Rightarrow> SpillWorld \<Rightarrow> nat \<Rightarrow> nat \<Rightarrow> bool \<Rightarrow> bool \<Rightarrow> 'v list \<times> spool_dir option \<Rightarrow>
     bool \<times> 'v list \<times> spool_dir option" where
  "after_flush enc w buffer_max batch_max ok was_failing bs =
     (if ok \<and> was_failing then (False, bs)
      else if \<not> ok then (True, maybe_spill enc w buffer_max batch_max (fst bs) (snd bs))
      else (was_failing, bs))"

section \<open>Replaying the spool\<close>

text \<open>
  One request per tick. The events of the body \<open>read_batch\<close> makes are the array it read. The answer is missing when the shutdown cancels the request.
\<close>

record 'v ReplayWorld =
  readable :: "string \<Rightarrow> bool"
  dec :: "string \<Rightarrow> 'v list option"
  enc_part :: "'v list \<Rightarrow> string"
  split_fault :: SplitFault
  replay_now :: nat
  remove_ok :: bool

definition replay_one_batch ::
    "'v ReplayWorld \<Rightarrow> nat \<Rightarrow> answer option \<Rightarrow> spool_dir \<Rightarrow> spool_dir \<times> 'v list list" where
  "replay_one_batch w max_events a d =
     (case oldest_batch (readable w) (dec w) d of
        (None, d1) \<Rightarrow> (d1, [])
      | (Some (file, events), d1) \<Rightarrow>
          (if max_events < length events
           then (fst (replace_file_with_chunks (enc_part w) (split_fault w) (replay_now w) file events
                   (max max_events 1) d1), [])
           else ((if (case a of Some (Inr _) \<Rightarrow> True | Some (Inl (OperatorError.Unsupported _)) \<Rightarrow> True | _ \<Rightarrow> False)
                     \<and> remove_ok w
                  then remove_named [file] d1 else d1), [events])))"

section \<open>The task\<close>

record Forwarder =
  ingest :: Ingest
  was_failing :: bool
  spool :: "spool_dir option"
  stopping :: bool                      \<comment> \<open>the loop has been left\<close>

record ForwardConfig =
  batch_max :: nat
  buffer_max :: nat

text \<open>
  One branch of \<open>select!\<close> each; a lagged bus only warns. The lists are the operator's answers to the
  requests the branch makes.
\<close>

datatype FwdInput =
    FlushTick "Envelope ReplayWorld" "answer option" SpillWorld "answer list"
  | Received string string TelemetryRecord SpillWorld "answer list"
  | Lagged
  | BusClosed
  | ShutdownSignal

definition with_batch :: "Forwarder \<Rightarrow> Envelope list \<times> spool_dir option \<Rightarrow> Forwarder" where
  "with_batch f bs = f\<lparr>ingest := (ingest f)\<lparr>batch := fst bs\<rparr>, spool := snd bs\<rparr>"

definition flush_branch ::
    "(Envelope list \<Rightarrow> string) \<Rightarrow> ForwardConfig \<Rightarrow> SpillWorld \<Rightarrow> answer list \<Rightarrow> Forwarder \<Rightarrow>
     Forwarder \<times> Envelope list list" where
  "flush_branch enc cfg w answers f =
     (case flush_once enc w (effective_event_batch_max (batch_max cfg)) answers
             (batch (ingest f)) (spool f) of
        (bs, reqs, None) \<Rightarrow> ((with_batch f bs)\<lparr>stopping := True\<rparr>, reqs)
      | (bs, reqs, Some ok) \<Rightarrow>
          (case after_flush enc w (buffer_max cfg) (batch_max cfg) ok (was_failing f) bs of (failing, bs') \<Rightarrow>
             ((with_batch f bs')\<lparr>was_failing := failing\<rparr>, reqs)))"

definition forwarder_step ::
    "RuntimeIdentity \<Rightarrow> (Envelope list \<Rightarrow> string) \<Rightarrow> ForwardConfig \<Rightarrow> Forwarder \<Rightarrow> FwdInput \<Rightarrow>
     Forwarder \<times> Envelope list list" where
  "forwarder_step who enc cfg f input =
     (if stopping f then (f, [])
      else case input of
        FlushTick rw ra w answers \<Rightarrow>
          (let m = effective_event_batch_max (batch_max cfg);
               (sp, replayed) = (case spool f of
                  None \<Rightarrow> (None, [])
                | Some d \<Rightarrow> (case replay_one_batch rw m ra d of (d1, reqs) \<Rightarrow> (Some d1, reqs)));
               f1 = f\<lparr>spool := sp\<rparr>
           in if replayed \<noteq> [] \<and> ra = None then (f1\<lparr>stopping := True\<rparr>, replayed)
              else if batch (ingest f1) = [] then (f1, replayed)
              else (case flush_branch enc cfg w answers f1 of (f2, reqs) \<Rightarrow> (f2, replayed @ reqs)))
      | Received fresh now r w answers \<Rightarrow>
          (let f1 = f\<lparr>ingest := fst (ingest_record who (buffer_max cfg) fresh now r (ingest f))\<rparr> in
           if effective_event_batch_max (batch_max cfg) \<le> length (batch (ingest f1))
           then (case flush_branch enc cfg w answers f1 of (f2, reqs) \<Rightarrow>
             (if stopping f2 then f2 else f2\<lparr>ingest := (ingest f2)\<lparr>dropped := 0\<rparr>\<rparr>, reqs))
           else (f1\<lparr>ingest := (ingest f1)\<lparr>dropped := 0\<rparr>\<rparr>, []))
      | Lagged \<Rightarrow> (f, [])
      | BusClosed \<Rightarrow> (f\<lparr>stopping := True\<rparr>, [])
      | ShutdownSignal \<Rightarrow> (f\<lparr>stopping := True\<rparr>, []))"

text \<open>After the loop: the records still queued on the bus, one bounded flush, and the spill.\<close>

definition forwarder_shutdown ::
    "RuntimeIdentity \<Rightarrow> (Envelope list \<Rightarrow> string) \<Rightarrow> ForwardConfig \<Rightarrow>
     (string \<times> string \<times> TelemetryRecord) list \<Rightarrow> SpillWorld \<Rightarrow> answer list \<Rightarrow> SpillWorld \<Rightarrow> Forwarder \<Rightarrow>
     Forwarder \<times> Envelope list list" where
  "forwarder_shutdown who enc cfg queued w answers w' f =
     (let f1 = f\<lparr>ingest := ingest_all who (buffer_max cfg) queued (ingest f)\<rparr>;
          m = effective_event_batch_max (batch_max cfg)
      in if batch (ingest f1) = [] then (f1, [])
         else case flush_once enc w m answers (batch (ingest f1)) (spool f1) of
           (bs, reqs, e) \<Rightarrow>
             (if e = Some True then (with_batch f1 bs, reqs)
              else (with_batch f1 (spill_remaining enc w' m (fst bs) (snd bs)), reqs)))"

definition forwarder_new :: "u64 \<Rightarrow> spool_dir option \<Rightarrow> Forwarder" where
  "forwarder_new start sp =
     \<lparr>ingest = \<lparr>tracker = tracker_new, session_handle = None, next_seq = start, batch = [], dropped = 0\<rparr>,
      was_failing = False, spool = sp, stopping = False\<rparr>"

section \<open>Requests\<close>

lemma effective_bounds: "0 < effective_event_batch_max n \<and> effective_event_batch_max n \<le> 500"
  by (simp add: effective_event_batch_max_def OPERATOR_EVENT_BATCH_MAX_def)

lemma effective_idem [simp]:
  "effective_event_batch_max (effective_event_batch_max n) = effective_event_batch_max n"
  by (simp add: effective_event_batch_max_def OPERATOR_EVENT_BATCH_MAX_def)

definition request_ok :: "nat \<Rightarrow> 'v list \<Rightarrow> bool" where
  "request_ok m r \<longleftrightarrow> length r \<le> m"

lemma flush_loop_requests: "list_all (request_ok m) (fst (snd (flush_loop m answers pending)))"
  by (induction m answers pending rule: flush_loop.induct)
    (auto simp: request_ok_def split_beta split: sum.split OperatorError.split)

lemma flush_once_requests:
  "list_all (request_ok (effective_event_batch_max m)) (fst (snd (flush_once enc w m answers pending sp)))"
  using flush_loop_requests [of "effective_event_batch_max m" answers pending]
  by (auto simp: flush_once_def Let_def split_beta split: FlushEnd.split)

lemma flush_branch_requests:
  "list_all (request_ok (effective_event_batch_max (batch_max cfg))) (snd (flush_branch enc cfg w answers f))"
  using flush_once_requests [of "effective_event_batch_max (batch_max cfg)" enc w answers
      "batch (ingest f)" "spool f"]
  by (auto simp: flush_branch_def split: prod.split option.split)

lemma replay_requests: "list_all (request_ok m) (snd (replay_one_batch rw m a d))"
  by (auto simp: replay_one_batch_def request_ok_def split: prod.split option.split)

lemma forwarder_step_requests:
  "list_all (request_ok (effective_event_batch_max (batch_max cfg))) (snd (forwarder_step who enc cfg f i))"
proof (cases i)
  case (FlushTick rw ra w answers)
  then show ?thesis
    using replay_requests [of "effective_event_batch_max (batch_max cfg)" rw]
      flush_branch_requests [of cfg enc w answers]
    by (cases "spool f") (simp_all add: forwarder_step_def Let_def split_beta)
next
  case (Received fresh now r w answers)
  then show ?thesis
    using flush_branch_requests [of cfg enc w answers]
    by (simp add: forwarder_step_def Let_def split_beta)
qed (simp_all add: forwarder_step_def)

text \<open>No request to the operator is oversized: over every run of the forwarder, with any configured
  pending size, any failures and whatever old files the spool holds, each request, live, replayed or the
  last one at shutdown, has at most the configured number of events and never more than the 500
  the operator accepts.\<close>
theorem requests_bounded:
  "case run_machine (forwarder_step who enc cfg) f inputs of (f', reqs) \<Rightarrow>
     list_all (\<lambda>r. length r \<le> 500 \<and> length r \<le> max (batch_max cfg) 1)
       (reqs @ snd (forwarder_shutdown who enc cfg queued w answers w' f'))"
proof -
  let ?m = "effective_event_batch_max (batch_max cfg)"
  have run: "list_all (request_ok ?m) (snd (run_machine (forwarder_step who enc cfg) f inputs))"
    by (induction inputs arbitrary: f) (simp_all add: forwarder_step_requests)
  have last: "list_all (request_ok ?m) (snd (forwarder_shutdown who enc cfg queued w answers w' f'))" for f'
    using flush_once_requests [of ?m enc w answers]
    by (simp add: forwarder_shutdown_def Let_def split_beta)
  have "request_ok ?m r \<Longrightarrow> length r \<le> 500 \<and> length r \<le> max (batch_max cfg) 1" for r :: "Envelope list"
    by (simp add: request_ok_def effective_event_batch_max_def OPERATOR_EVENT_BATCH_MAX_def)
  then show ?thesis
    using run last by (auto simp: split_beta list_all_iff)
qed

section \<open>Nothing is lost\<close>


text \<open>The events of the requests the operator acknowledged.\<close>

definition acknowledged :: "answer list \<Rightarrow> 'v list list \<Rightarrow> 'v list" where
  "acknowledged answers requests = concat (map snd (filter (\<lambda>(a, _). is_ok a) (zip answers requests)))"

lemma acknowledged_simps [simp]:
  "acknowledged [] rs = []" "acknowledged as [] = []"
  "acknowledged (a # as) (r # rs) = (if is_ok a then r else []) @ acknowledged as rs"
  by (simp_all add: acknowledged_def)






lemma spool_ok_fewer: "spool_ok cap n d \<Longrightarrow> k \<le> n \<Longrightarrow> spool_ok cap k d"
  by (simp add: spool_ok_def)





lemma empty_spool: "entries [] = []" "spooled [] = []" "max_sequence [] = 0"
  by (simp_all add: entries_def spooled_def max_sequence_def List.map_filter_simps)


lemma spill_ok_fault: "snd (spill cap fault now json d) \<Longrightarrow> fault = NoFault"
  by (cases fault) (auto simp: spill_def Let_def split: if_splits option.splits)

lemma spill_chunks_ok:
  "snd (spill_chunks enc w i cs d) \<Longrightarrow> spool_ok (max_files w) (length cs) d \<Longrightarrow>
   \<exists>bs. map snd bs = map enc cs \<and> fst (spill_chunks enc w i cs d) = foldl (spill_ok (max_files w)) d bs"
proof (induction cs arbitrary: i d)
  case (Cons c cs)
  obtain fault now where w: "spills w i = (fault, now)" by (cases "spills w i")
  have done_one: "snd (spill (max_files w) fault now (enc c) d)"
    using Cons.prems(1) by (auto simp: w split: prod.splits if_splits)
  from spill_ok_fault [OF this] have one:
      "spill (max_files w) fault now (enc c) d = (spill_ok (max_files w) d (now, enc c), True)"
    using done_one by (intro prod_eqI) (simp_all add: spill_ok_def)
  have "spool_ok (max_files w) (length cs) (spill_ok (max_files w) d (now, enc c))"
    using Cons.prems(2) by (intro spill_keeps_ok) simp
  moreover have "snd (spill_chunks enc w (Suc i) cs (spill_ok (max_files w) d (now, enc c)))"
    using Cons.prems(1) by (simp add: w one)
  ultimately obtain bs where "map snd bs = map enc cs"
      "fst (spill_chunks enc w (Suc i) cs (spill_ok (max_files w) d (now, enc c))) =
        foldl (spill_ok (max_files w)) (spill_ok (max_files w) d (now, enc c)) bs"
    using Cons.IH by blast
  then show ?case
    by (intro exI [of _ "(now, enc c) # bs"]) (simp add: w one)
qed simp

text \<open>Whatever goes wrong on disk, spilling gives up an event only for a durable copy: the buffer is
  emptied only when every chunk has been spooled, in order and behind what was there, and otherwise it
  is kept whole.\<close>
theorem spill_empties_only_when_durable:
  assumes "spool_ok (max_files w) (length pending) d"
  shows "case spill_remaining enc w m pending (Some d) of (left, sp) \<Rightarrow>
    left = pending \<or>
    left = [] \<and> (\<exists>d'. sp = Some d' \<and> spooled d' = keep_last (max_files w)
      (spooled d @ map enc (chunks (effective_event_batch_max m) pending)))"
proof -
  let ?cs = "chunks (effective_event_batch_max m) pending"
  have room: "spool_ok (max_files w) (length ?cs) d"
    by (rule spool_ok_fewer [OF assms length_chunks])
  show ?thesis
  proof (cases "snd (spill_chunks enc w 0 ?cs d)")
    case True
    then obtain bs where bs: "map snd bs = map enc ?cs"
        "fst (spill_chunks enc w 0 ?cs d) = foldl (spill_ok (max_files w)) d bs"
      using spill_chunks_ok [OF _ room] by blast
    have "length bs = length ?cs"
      using bs(1) by (metis length_map)
    then have "spooled (fst (spill_chunks enc w 0 ?cs d)) = keep_last (max_files w) (spooled d @ map enc ?cs)"
      using room event_queue.contents_pushes [of "max_files w" bs d] bs by simp
    then show ?thesis
      using True by (auto simp: spill_remaining_def split_beta)
  next
    case False
    then show ?thesis
      by (auto simp: spill_remaining_def split_beta)
  qed
qed

theorem spill_empties_only_when_durable_witness:
  "case spill_remaining concat \<lparr>max_files = 50, spills = \<lambda>i. (if i = 1 then TempFails None else NoFault, 0)\<rparr> 1
      [''a'', ''b''] (Some []) of (left, sp) \<Rightarrow>
    left = [''a'', ''b''] \<or> left = [] \<and> sp \<noteq> None"
  using spill_empties_only_when_durable [of "\<lparr>max_files = 50, spills = \<lambda>i. (if i = 1 then TempFails None else NoFault, 0)\<rparr>"
      "[''a'', ''b'']" "[]" concat 1]
  by (auto simp: spool_ok_def empty_spool split_beta)

section \<open>Replay\<close>

definition settled :: "answer option \<Rightarrow> bool" where
  "settled a = (case a of Some (Inr _) \<Rightarrow> True | Some (Inl (OperatorError.Unsupported _)) \<Rightarrow> True | _ \<Rightarrow> False)"

text \<open>The ticks of an idle forwarder: each replays at most one batch; the settled requests.\<close>

fun replay_run ::
    "'v ReplayWorld \<Rightarrow> nat \<Rightarrow> answer option list \<Rightarrow> spool_dir \<Rightarrow> spool_dir \<times> 'v list list" where
  "replay_run w m [] d = (d, [])"
| "replay_run w m (a # as) d =
     (let (d1, reqs) = replay_one_batch w m a d; (d2, rest) = replay_run w m as d1
      in (d2, (if settled a then reqs else []) @ rest))"

definition replayable :: "'v ReplayWorld \<Rightarrow> nat \<Rightarrow> spool_dir \<Rightarrow> bool" where
  "replayable w m d \<longleftrightarrow> remove_ok w \<and> distinct (map name (entries d)) \<and>
     list_all (\<lambda>f. readable w (name f) \<and>
       (case dec w (body f) of None \<Rightarrow> False | Some events \<Rightarrow> length events \<le> m)) (entries d)"

lemma replay_step:
  assumes "replayable w m d" and "entries d = f # es"
  shows "replay_one_batch w m a d =
    (if settled a then remove_named [name f] d else d, [the (dec w (body f))])"
  using assms by (cases "dec w (body f)")
    (auto simp: replay_one_batch_def oldest_batch_def read_batch_def replayable_def settled_def)

lemma entries_remove_first:
  assumes "entries d = f # es" and "distinct (map name (entries d))"
  shows "entries (remove_named [name f] d) = es"
proof -
  have "\<forall>g \<in> set es. name g \<noteq> name f"
    using assms by simp (metis imageI)
  then show ?thesis
    by (simp add: entries_remove_named assms(1))
qed

text \<open>C29. Replay is in order and makes progress: over any number of ticks, with any failures in between, the
  spooled batches that are settled with the operator are the oldest ones, each sent whole and in order,
  exactly as many as the operator settled, and these and only these are removed from the spool; so the
  spool is empty as soon as the operator has settled as many requests as it held batches.\<close>
theorem replay_in_order:
  "replayable w m d \<Longrightarrow>
   (case replay_run w m answers d of (d', reqs) \<Rightarrow>
      entries d' = drop (length (filter settled answers)) (entries d) \<and>
      reqs = map (\<lambda>f. the (dec w (body f))) (take (length (filter settled answers)) (entries d)))"
proof (induction answers arbitrary: d)
  case (Cons a answers)
  note prems = Cons.prems and IH = Cons.IH
  show ?case
  proof (cases "entries d")
    case Nil
    then have "replay_one_batch w m a d = (d, [])"
      by (simp add: replay_one_batch_def oldest_batch_def)
    then show ?thesis
      using IH [OF prems] Nil by (simp add: split_beta)
  next
    case (Cons f es)
    let ?d = "if settled a then remove_named [name f] d else d"
    have es: "entries ?d = (if settled a then es else f # es)"
      using entries_remove_first [OF Cons] prems Cons by (simp add: replayable_def)
    then have "replayable w m ?d"
      using prems Cons by (auto simp: replayable_def)
    then show ?thesis
      using IH [of ?d] replay_step [OF prems Cons, of a] Cons es by (simp add: split_beta)
  qed
qed simp

text \<open>A file that cannot be read stops the replay for good: while the oldest spooled file is unreadable,
  no tick sends anything, whatever is behind it and however many ticks pass.\<close>
theorem unreadable_file_blocks_replay:
  assumes "entries d = f # es" and "\<not> readable w (name f)"
  shows "replay_run w m answers d = (d, [])"
  using assms by (induction answers)
    (simp_all add: replay_one_batch_def oldest_batch_def read_batch_def)

definition plain_replay :: "char ReplayWorld" where
  "plain_replay = \<lparr>readable = \<lambda>n. n \<noteq> ''locked.json'', dec = \<lambda>s. if length s \<le> 2 then Some s else None,
     enc_part = id, split_fault = SplitDone, replay_now = 0, remove_ok = True\<rparr>"

lemma two_files:
  "entries [\<lparr>name = ''b.json'', modified = 2, body = ''y''\<rparr>, \<lparr>name = ''a.json'', modified = 3, body = ''x''\<rparr>] =
     [\<lparr>name = ''b.json'', modified = 2, body = ''y''\<rparr>, \<lparr>name = ''a.json'', modified = 3, body = ''x''\<rparr>]"
  "entries [\<lparr>name = ''locked.json'', modified = 2, body = ''y''\<rparr>, \<lparr>name = ''a.json'', modified = 3, body = ''x''\<rparr>] =
     [\<lparr>name = ''locked.json'', modified = 2, body = ''y''\<rparr>, \<lparr>name = ''a.json'', modified = 3, body = ''x''\<rparr>]"
  by (simp_all add: entries_def visible_def extension_def is_hidden_def entry_key_def batch_sort_key_def
      file_stem_def Let_def less_eq_prod_def less_prod_def)

theorem replay_in_order_witness:
  "snd (replay_run plain_replay 500
     [Some (Inl (Transport ''down'')), None, Some (Inr \<lparr>accepted = 1, duplicates = 0\<rparr>),
      Some (Inr \<lparr>accepted = 1, duplicates = 0\<rparr>)]
     [\<lparr>name = ''b.json'', modified = 2, body = ''y''\<rparr>, \<lparr>name = ''a.json'', modified = 3, body = ''x''\<rparr>]) = [''y'', ''x'']"
  using replay_in_order [of plain_replay 500
      "[\<lparr>name = ''b.json'', modified = 2, body = ''y''\<rparr>, \<lparr>name = ''a.json'', modified = 3, body = ''x''\<rparr>]"
      "[Some (Inl (Transport ''down'')), None, Some (Inr \<lparr>accepted = 1, duplicates = 0\<rparr>),
      Some (Inr \<lparr>accepted = 1, duplicates = 0\<rparr>)]"]
  by (simp add: replayable_def plain_replay_def two_files settled_def split_beta del: replay_run.simps)

theorem unreadable_file_blocks_replay_witness:
  "replay_run plain_replay 500 (replicate 9 (Some (Inr \<lparr>accepted = 1, duplicates = 0\<rparr>)))
     [\<lparr>name = ''locked.json'', modified = 2, body = ''y''\<rparr>, \<lparr>name = ''a.json'', modified = 3, body = ''x''\<rparr>] =
   ([\<lparr>name = ''locked.json'', modified = 2, body = ''y''\<rparr>, \<lparr>name = ''a.json'', modified = 3, body = ''x''\<rparr>], [])"
  by (rule unreadable_file_blocks_replay [OF two_files(2)]) (simp add: plain_replay_def)

end
