(* ===== verification/Calendar.thy ===== *)
theory Calendar
  imports Strings
begin

text \<open>
  The time stamp of a status update: \<open>rfc3339_now\<close>, \<open>format_unix_seconds\<close> and \<open>civil_from_days\<close> of
  \<open>crates/booth-pi/src/operator.rs\<close>, and a reference calendar that counts one day at a time. The
  \<open>i64\<close> intermediates of the source are never negative and far from overflow (a \<open>u64\<close> of seconds
  has fewer than \<open>2 ^ 48\<close> days), so they are naturals; the final conversions keep their bounds.
\<close>

section \<open>The code\<close>

definition year_of_era :: "nat \<Rightarrow> nat" where
  "year_of_era doe = (doe - doe div 1460 + doe div 36524 - doe div 146096) div 365"

definition civil_from_days :: "nat \<Rightarrow> nat \<times> nat \<times> nat" where
  "civil_from_days days_since_epoch =
     (let z = days_since_epoch + 719468;
          era = z div 146097;
          doe = z - era * 146097;
          yoe = year_of_era doe;
          y = yoe + era * 400;
          doy = doe - (365 * yoe + yoe div 4 - yoe div 100);
          mp = (5 * doy + 2) div 153;
          d = doy - (153 * mp + 2) div 5 + 1;
          m = (if mp < 10 then mp + 3 else mp - 9);
          year = y + (if m \<le> 2 then 1 else 0)
      in (if year < 2 ^ 31 then year else 2 ^ 31 - 1, m, d))"

definition format_unix_seconds :: "u64 \<Rightarrow> string" where
  "format_unix_seconds seconds =
     (let days = unat seconds div 86400;
          seconds_of_day = unat seconds mod 86400;
          hour = seconds_of_day div 3600;
          minute = (seconds_of_day mod 3600) div 60;
          second = seconds_of_day mod 60;
          (year, month, day) = civil_from_days days
      in show_padded 4 year @ ''-'' @ show_padded 2 month @ ''-'' @ show_padded 2 day @ ''T'' @
         show_padded 2 hour @ '':'' @ show_padded 2 minute @ '':'' @ show_padded 2 second @ ''Z'')"

section \<open>The reference calendar\<close>

definition leap :: "nat \<Rightarrow> bool" where
  "leap y \<longleftrightarrow> 4 dvd y \<and> (\<not> 100 dvd y \<or> 400 dvd y)"

definition month_length :: "nat \<Rightarrow> nat \<Rightarrow> nat" where
  "month_length y m =
     (if m = 2 then (if leap y then 29 else 28) else if m \<in> {4, 6, 9, 11} then 30 else 31)"

fun next_day :: "nat \<times> nat \<times> nat \<Rightarrow> nat \<times> nat \<times> nat" where
  "next_day (y, m, d) =
     (if d < month_length y m then (y, m, d + 1)
      else if m < 12 then (y, m + 1, 1)
      else (y + 1, 1, 1))"

section \<open>Years of an era\<close>

text \<open>
  A day is the era, the year of the era (from March on) and the day of that year; a year has the
  leap day of the civil year that begins in it.
\<close>

definition year_start :: "nat \<Rightarrow> nat" where
  "year_start y = 365 * y + y div 4 - y div 100"

definition year_length :: "nat \<Rightarrow> nat" where
  "year_length y = (if leap (y + 1) then 366 else 365)"

lemma year_parts:
  assumes "y < 400"
  obtains h q r where "y = 100 * h + 4 * q + r" "h < 4" "q < 25" "r < 4"
    "year_start y = 36524 * h + 1461 * q + 365 * r" "leap (y + 1) \<longleftrightarrow> r = 3 \<and> (q < 24 \<or> h = 3)"
proof -
  define h q r where "h = y div 100" and "q = y mod 100 div 4" and "r = y mod 4"
  have bounds: "h < 4" "q < 25" "r < 4"
    using assms by (simp_all add: h_def q_def r_def div_less_iff_less_mult)
  have "y mod 100 = 4 * q + r"
    unfolding q_def r_def using mult_div_mod_eq [of 4 "y mod 100"] by (simp add: mod_mod_cancel)
  then have y: "y = 100 * h + 4 * q + r"
    using mult_div_mod_eq [of 100 y] by (simp add: h_def)
  have quot: "y div 4 = 25 * h + q" "y div 100 = h"
    using y bounds by (auto intro: div_nat_eqI)
  have "year_start y = 36524 * h + 1461 * q + 365 * r"
    unfolding year_start_def quot by (simp add: y)
  moreover have "leap (y + 1) \<longleftrightarrow> r = 3 \<and> (q < 24 \<or> h = 3)"
  proof -
    have "4 dvd y + 1 \<longleftrightarrow> r = 3"
      using bounds(3) unfolding y dvd_eq_mod_eq_0 by presburger
    moreover have "100 dvd y + 1 \<longleftrightarrow> q = 24" if "r = 3"
    proof -
      have "100 dvd y + 1 \<longleftrightarrow> 100 dvd 4 * (q + 1)"
        using dvd_add_right_iff [of 100 "100 * h" "4 * (q + 1)"] by (simp add: y that add_ac)
      also have "\<dots> \<longleftrightarrow> 25 dvd q + 1"
        using nat_mult_dvd_cancel1 [of 4 25 "q + 1"] by simp
      finally show ?thesis using bounds(2) by (auto dest: dvd_imp_le)
    qed
    moreover have "400 dvd y + 1 \<longleftrightarrow> h = 3" if "r = 3" "q = 24"
    proof -
      consider "h = 0" | "h = 1" | "h = 2" | "h = 3" using bounds(1) by linarith
      then show ?thesis by cases (simp_all add: y that)
    qed
    ultimately show ?thesis
      unfolding leap_def using bounds(2) by (cases "r = 3"; cases "q = 24") auto
  qed
  ultimately show ?thesis
    using that y bounds by blast
qed

lemma year_of_era_start:
  assumes "y < 400" and "doy < year_length y"
  shows "year_of_era (year_start y + doy) = y"
proof -
  obtain h q r where y: "y = 100 * h + 4 * q + r" "h < 4" "q < 25" "r < 4"
      "year_start y = 36524 * h + 1461 * q + 365 * r" "leap (y + 1) \<longleftrightarrow> r = 3 \<and> (q < 24 \<or> h = 3)"
    using assms(1) by (rule year_parts)
  define doe where "doe = year_start y + doy"
  have doe: "doe = 36524 * h + 1461 * q + 365 * r + doy"
    by (simp add: doe_def y(5))
  have doy: "doy \<le> 365" "doy = 365 \<Longrightarrow> r = 3 \<and> (q < 24 \<or> h = 3)"
    using assms(2) y(6) by (auto simp: year_length_def split: if_splits)
  define last where "last = (if doe = 146096 then 1 else 0 :: nat)"
  have le: "doe \<le> 146096"
    using doe y doy by linarith
  have c: "doe div 146096 = last"
    using le by (auto simp: last_def)
  have leapless: "doy = 365 \<Longrightarrow> q = 24 \<Longrightarrow> h = 3 \<and> doe = 146096"
    using doy(2) doe by auto
  have within: "1461 * q + 365 * r + doy < 36524" if "last = 0"
  proof (rule ccontr)
    assume "\<not> 1461 * q + 365 * r + doy < 36524"
    then have "q = 24" "r = 3" "doy = 365"
      using y doy(1) by linarith+
    then show False
      using that leapless by (simp add: last_def)
  qed
  have b: "doe div 36524 = h + last"
  proof (cases "last = 0")
    case True
    then show ?thesis
      using doe within by (intro div_nat_eqI) simp_all
  next
    case False
    then have "doe = 146096"
      by (simp add: last_def split: if_splits)
    moreover from this have "h = 3"
      using doe y doy(1) by linarith
    ultimately show ?thesis
      by (simp add: last_def)
  qed
  define over where "over = (if 1460 \<le> 24 * h + q + 365 * r + doy then 1 else 0 :: nat)"
  have r3: "over = 1 \<Longrightarrow> 1 \<le> doy"
    using y by (auto simp: over_def split: if_splits)
  have "24 * h + q + 365 * r + doy < 2920"
    using y doy(1) by linarith
  then have a: "doe div 1460 = 25 * h + q + over"
    using doe by (intro div_nat_eqI) (auto simp: over_def)
  have "over \<le> doy"
    using r3 by (cases "over = 1") (auto simp: over_def split: if_splits)
  then obtain e where e: "doy = over + e"
    using le_Suc_ex by blast
  have "doe - doe div 1460 + doe div 36524 - doe div 146096 = 365 * y + (doy - over)"
    unfolding a b c using doe y(1) e by simp
  moreover have "doy - over < 365"
    using doy r3 by (cases "doy = 365") (auto simp: over_def split: if_splits)
  ultimately show ?thesis
    unfolding year_of_era_def doe_def [symmetric] by simp
qed

section \<open>Months of a year\<close>

text \<open>
  The months from March on are numbered 0 to 11; month \<open>k\<close> begins on the day \<open>month_start k\<close> of the
  March-based year. A day's month, day of the month and whether its civil year is the next one:
\<close>

definition month_start :: "nat \<Rightarrow> nat" where
  "month_start k = (153 * k + 2) div 5"

definition month_of :: "nat \<Rightarrow> nat" where
  "month_of doy = (5 * doy + 2) div 153"

definition civil_month :: "nat \<Rightarrow> nat" where
  "civil_month k = (if k < 10 then k + 3 else k - 9)"

lemma month_start_le: "month_start k \<le> doy \<longleftrightarrow> 153 * k \<le> 5 * doy + 2"
proof -
  have "month_start k \<le> doy \<longleftrightarrow> 153 * k + 2 < Suc doy * 5"
    unfolding month_start_def less_Suc_eq_le [symmetric] by (simp only: div_less_iff_less_mult zero_less_numeral)
  then show ?thesis by auto
qed

lemma month_of_eq: "month_start k \<le> doy \<Longrightarrow> doy < month_start (Suc k) \<Longrightarrow> month_of doy = k"
  unfolding month_of_def not_le [symmetric] month_start_le by (intro div_nat_eqI) simp_all

lemma month_of_range: "month_start (month_of doy) \<le> doy" "doy < month_start (Suc (month_of doy))"
  unfolding not_le [symmetric] month_start_le
  using div_times_less_eq_dividend [of "5 * doy + 2" 153] dividend_less_times_div [of 153 "5 * doy + 2"]
  by (simp_all add: month_of_def)

lemma month_starts:
  "month_start 0 = 0" "month_start 1 = 31" "month_start 2 = 61" "month_start 3 = 92"
  "month_start 4 = 122" "month_start 5 = 153" "month_start 6 = 184" "month_start 7 = 214"
  "month_start 8 = 245" "month_start 9 = 275" "month_start 10 = 306" "month_start 11 = 337"
  "month_start 12 = 367"
  by (simp_all add: month_start_def)

lemma month_start_Suc:
  assumes "k < 11"
  shows "month_start (Suc k) = month_start k + month_length y (civil_month k)"
proof -
  consider "k = 0" | "k = 1" | "k = 2" | "k = 3" | "k = 4" | "k = 5" | "k = 6" | "k = 7" | "k = 8"
    | "k = 9" | "k = 10"
    using assms by (auto simp: numeral_eq_Suc less_Suc_eq)
  then show ?thesis
    by cases (simp_all add: month_start_def month_length_def civil_month_def)
qed

lemma month_of_le: "doy < 366 \<Longrightarrow> month_of doy \<le> 11"
  unfolding month_of_def less_Suc_eq_le [symmetric]
  by (simp only: div_less_iff_less_mult zero_less_numeral) simp

text \<open>The date of a day of the March-based year \<open>y\<close>, and the day after it.\<close>

definition date_at :: "nat \<Rightarrow> nat \<Rightarrow> nat \<times> nat \<times> nat" where
  "date_at y doy =
     (y + (if month_of doy < 10 then 0 else 1), civil_month (month_of doy),
      doy - month_start (month_of doy) + 1)"

lemma date_at_0: "date_at y 0 = (y, 3, 1)"
  by (simp add: date_at_def month_of_def civil_month_def month_start_def)

lemma civil_month_le_12: "k \<le> 11 \<Longrightarrow> civil_month k = 12 \<longleftrightarrow> k = 9" "k \<le> 11 \<Longrightarrow> civil_month k \<le> 12"
  by (auto simp: civil_month_def)

lemma next_day_within:
  assumes "Suc doy < year_length y"
  shows "next_day (date_at y doy) = date_at y (Suc doy)"
proof -
  define k where "k = month_of doy"
  have range: "month_start k \<le> doy" "doy < month_start (Suc k)"
    unfolding k_def by (rule month_of_range)+
  have len: "Suc doy < 366" "Suc doy < (if leap (y + 1) then 366 else 365)"
    using assms by (auto simp: year_length_def split: if_splits)
  then have k: "k \<le> 11"
    unfolding k_def by (intro month_of_le) simp
  show ?thesis
  proof (cases "Suc doy < month_start (Suc k)")
    case True
    then have "month_of (Suc doy) = k"
      using range(1) by (intro month_of_eq) simp_all
    moreover have "doy - month_start k + 1 < month_length (y + (if k < 10 then 0 else 1)) (civil_month k)"
    proof (cases "k < 11")
      case True
      with \<open>Suc doy < month_start (Suc k)\<close> range(1) show ?thesis
        using month_start_Suc [OF True, of "y + (if k < 10 then 0 else 1)"] by linarith
    next
      case False
      with k have "k = 11" by simp
      with range(1) len(2) show ?thesis
        by (auto simp: month_starts month_length_def civil_month_def)
    qed
    ultimately show ?thesis
      using range(1) by (simp add: date_at_def k_def [symmetric] Suc_diff_le)
  next
    case False
    then have first: "Suc doy = month_start (Suc k)"
      using range(2) by simp
    have "k \<noteq> 11"
      using first len(1) by (auto simp: month_start_def)
    with k have k11: "k < 11" by simp
    have "month_start (Suc k) < month_start (Suc (Suc k))"
      by (simp add: month_start_def)
    then have "month_of (Suc doy) = Suc k"
      unfolding first by (intro month_of_eq) simp_all
    moreover have "doy - month_start k + 1 = month_length z (civil_month k)" for z
      using first month_start_Suc [OF k11, of z] range(1) by simp
    ultimately show ?thesis
      using k11 by (auto simp: date_at_def k_def [symmetric] first [symmetric] civil_month_def)
  qed
qed

lemma next_day_last:
  assumes "Suc doy = year_length y"
  shows "next_day (date_at y doy) = date_at (Suc y) 0"
proof -
  have "doy = (if leap (y + 1) then 365 else 364)"
    using assms by (simp add: year_length_def split: if_splits)
  then have "month_of doy = 11" and "doy - 337 + 1 = (if leap (y + 1) then 29 else 28)"
    by (simp_all add: month_of_def)
  then show ?thesis
    by (simp add: date_at_0) (simp add: date_at_def month_starts civil_month_def month_length_def)
qed

section \<open>Days since the epoch\<close>

lemma year_start_Suc:
  assumes "y < 399"
  shows "year_start (Suc y) = year_start y + year_length y"
proof -
  have "\<not> 400 dvd Suc y"
    using assms by (auto dest: dvd_imp_le)
  then have "year_length y = 365 + (if 4 dvd Suc y then 1 else 0) - (if 100 dvd Suc y then 1 else 0)"
    by (auto simp: year_length_def leap_def)
  moreover have "Suc y div 4 = y div 4 + (if 4 dvd Suc y then 1 else 0)"
    "Suc y div 100 = y div 100 + (if 100 dvd Suc y then 1 else 0)"
    by (simp_all add: div_Suc dvd_eq_mod_eq_0)
  moreover have "100 dvd Suc y \<Longrightarrow> 4 dvd Suc y"
    by (rule dvd_trans [of 4 100]) simp_all
  moreover have "y div 100 \<le> y div 4"
    by (rule div_le_mono2) simp_all
  ultimately show ?thesis
    unfolding year_start_def by (auto simp: ac_simps)
qed

lemma era_end: "year_start 399 + year_length 399 = 146097" "year_start 0 = 0"
  by (simp_all add: year_start_def year_length_def leap_def)

text \<open>A day number taken apart: its era, year of the era and day of the year.\<close>

definition splits :: "nat \<Rightarrow> nat \<Rightarrow> nat \<Rightarrow> nat \<Rightarrow> bool" where
  "splits z e y doy \<longleftrightarrow> z = 146097 * e + year_start y + doy \<and> y < 400 \<and> doy < year_length y"

lemma leap_era: "leap (400 * e + y) = leap y"
proof -
  have "4 dvd 400 * e" "100 dvd 400 * e"
    by (rule dvd_mult2, simp)+
  then show ?thesis by (simp add: leap_def dvd_add_right_iff)
qed

lemma year_length_era: "year_length (400 * e + y) = year_length y"
  unfolding year_length_def using leap_era [of e "y + 1"] by simp

lemma splits_Suc:
  assumes "splits z e y doy"
  obtains e' y' doy' where "splits (Suc z) e' y' doy'"
    "date_at (400 * e' + y') doy' = next_day (date_at (400 * e + y) doy)"
proof (cases "Suc doy < year_length y")
  case True
  then show ?thesis
    using assms that [of e y "Suc doy"] next_day_within [of doy "400 * e + y"]
    by (simp add: splits_def year_length_era)
next
  case False
  then have last: "Suc doy = year_length y"
    using assms by (simp add: splits_def)
  then have date: "next_day (date_at (400 * e + y) doy) = date_at (Suc (400 * e + y)) 0"
    by (simp add: next_day_last year_length_era)
  have pos: "0 < year_length n" for n
    by (simp add: year_length_def)
  show ?thesis
  proof (cases "y < 399")
    case True
    then show ?thesis
      using assms that [of e "Suc y" 0] date last year_start_Suc [OF True] pos by (simp add: splits_def)
  next
    case False
    then have "y = 399" using assms by (simp add: splits_def)
    then show ?thesis
      using assms that [of "Suc e" 0 0] date last era_end pos by (simp add: splits_def)
  qed
qed

lemma civil_from_days_at:
  assumes "splits (n + 719468) e y doy"
  shows "civil_from_days n =
    (case date_at (400 * e + y) doy of (Y, m, d) \<Rightarrow> (min Y (2 ^ 31 - 1), m, d))"
proof -
  have y: "y < 400" "doy < year_length y" and z: "n + 719468 = 146097 * e + (year_start y + doy)"
    using assms by (simp_all add: splits_def)
  have "year_start y + doy < 146097"
  proof (cases "y < 399")
    case True
    obtain h q r where "h < 4" "q < 25" "r < 4" "year_start y = 36524 * h + 1461 * q + 365 * r"
        "y = 100 * h + 4 * q + r"
      using year_parts [OF y(1)] by metis
    moreover have "doy \<le> 365"
      using y(2) by (simp add: year_length_def split: if_splits)
    ultimately show ?thesis using True by linarith
  next
    case False
    then have "y = 399" using y(1) by simp
    then show ?thesis using y(2) era_end(1) by simp
  qed
  then have era: "(n + 719468) div 146097 = e" "n + 719468 - e * 146097 = year_start y + doy"
    unfolding z by (simp_all add: div_mult_self4)
  have start: "365 * y + y div 4 - y div 100 = year_start y"
    by (simp add: year_start_def)
  have "month_of doy \<le> 11"
    using y(2) by (intro month_of_le) (simp add: year_length_def split: if_splits)
  then show ?thesis
    unfolding civil_from_days_def Let_def era year_of_era_start [OF y] start
    by (simp add: date_at_def month_of_def civil_month_def month_start_def min_def ac_simps not_less)
      (simp add: le_diff_conv)
qed

section \<open>The code is the calendar\<close>

lemma every_day: "\<exists>e y doy. splits (n + 719468) e y doy \<and>
    date_at (400 * e + y) doy = (next_day ^^ n) (1970, 1, 1)"
proof (induction n)
  case 0
  have "splits (0 + 719468) 4 369 306"
    by (simp add: splits_def year_start_def year_length_def)
  moreover have "date_at 1969 306 = (1970, 1, 1)"
    by (simp add: date_at_def month_of_def civil_month_def month_start_def)
  ultimately show ?case
    by (intro exI [of _ 4] exI [of _ 369] exI [of _ 306]) simp
next
  case (Suc n)
  then obtain e y doy where "splits (n + 719468) e y doy"
      "date_at (400 * e + y) doy = (next_day ^^ n) (1970, 1, 1)"
    by blast
  moreover from this(1) obtain e' y' doy' where "splits (Suc (n + 719468)) e' y' doy'"
      "date_at (400 * e' + y') doy' = next_day (date_at (400 * e + y) doy)"
    by (rule splits_Suc)
  ultimately show ?case
    by (intro exI [of _ e'] exI [of _ y'] exI [of _ doy']) (simp del: next_day.simps)
qed

text \<open>C28. The date the booth stamps its status with is the one a calendar reaches by counting: the
  closed formula agrees, for every day, with stepping one day at a time from 1 January 1970 under
  the rules for the lengths of months and for leap years (a year that does not fit 31 bits, which no
  clock reading reaches before it, is cut off there).\<close>
theorem civil_from_days_counts_days:
  "civil_from_days n =
    (case (next_day ^^ n) (1970, 1, 1) of (y, m, d) \<Rightarrow> (min y (2 ^ 31 - 1), m, d))"
proof -
  obtain e y doy where "splits (n + 719468) e y doy"
      "date_at (400 * e + y) doy = (next_day ^^ n) (1970, 1, 1)"
    using every_day by blast
  then show ?thesis
    by (simp only: civil_from_days_at)
qed

end
