(* ===== verification/OperatorClient.thy ===== *)
theory OperatorClient
  imports AudioFetch OperatorCalls Redact Calendar
begin

text \<open>
  The operator client of \<open>crates/booth-pi/src/operator.rs\<close>: the requests each operation makes, what it
  makes of the answers, the upload of a recording to a presigned URL with its own retries, the policy
  for such URLs and the status update. Outside the sources, and arguments here: reqwest (a function
  from a request to its reply), serde_json (a parser into \<open>Json\<close>, and the decoders of the typed
  answers), the URL parser and the address parsers of the standard library. Strings are lists of
  characters, so \<open>chars().take(512)\<close> is \<open>take 512\<close>.
\<close>

section \<open>Requests and replies\<close>

datatype Json =
    Null
  | Bool bool
  | PosInt u64
  | OtherNumber
  | JsonString string
  | Array "Json list"
  | Object "(string \<times> Json) list"

definition json_get :: "string \<Rightarrow> Json \<Rightarrow> Json option" where
  "json_get k v = (case v of Object fs \<Rightarrow> map_of fs k | _ \<Rightarrow> None)"

definition as_str :: "Json \<Rightarrow> string option" where
  "as_str v = (case v of JsonString s \<Rightarrow> Some s | _ \<Rightarrow> None)"

definition as_u64 :: "Json \<Rightarrow> u64 option" where
  "as_u64 v = (case v of PosInt n \<Rightarrow> Some n | _ \<Rightarrow> None)"

record StatusUpdate =
  update_state :: string
  updated_at :: string
  current_question_id :: "string option"
  current_message_id :: "string option"
  last_error :: "string option"
  update_mode :: "string option"

record UploadSlotRequest =
  slot_sha256 :: string
  slot_duration_ms :: u64
  slot_question_id :: "QuestionId option"

datatype Body =
    NoBody
  | StatusBody StatusUpdate
  | SlotBody UploadSlotRequest
  | EventsBody string
  | SystemBody string SystemSnapshot string     \<comment> \<open>booth id, snapshot, version\<close>

datatype Method = GET | PUT | POST

record HttpRequest =
  http_method :: Method
  http_url :: string
  draw_id_header :: "string option"
  http_body :: Body

text \<open>A reply: no response at all, or a status and the body or the error of reading it.\<close>

datatype HttpReply = SendFails string | Reply u16 "(string, string) result"

definition is_success :: "u16 \<Rightarrow> bool" where
  "is_success code \<longleftrightarrow> 200 \<le> code \<and> code < 300"

section \<open>Errors of the operator\<close>

definition operator_transport :: "string \<Rightarrow> OperatorError" where
  "operator_transport err = OperatorError.Transport (redact_url err)"

definition max_bytes_from_body :: "(string \<Rightarrow> Json option) \<Rightarrow> string \<Rightarrow> u64 option" where
  "max_bytes_from_body from_str body =
     Option.bind (from_str body) (\<lambda>value. Option.bind (json_get ''maxBytes'' value) as_u64)"

definition map_operator_error_body :: "(string \<Rightarrow> Json option) \<Rightarrow> u16 \<Rightarrow> string \<Rightarrow> OperatorError" where
  "map_operator_error_body from_str code body =
     (let error_code = Option.bind (from_str body) (\<lambda>value. Option.bind (json_get ''error'' value) as_str);
          max_bytes = max_bytes_from_body from_str body;
          body = take 512 body
      in if code = 400 then InvalidArgument body
         else if code = 401 then
           Unauthorized ''operator token was rejected; rotate the configured API token''
         else if code = 409 \<and> error_code = Some ''installation_inactive'' then InstallationInactive body
         else if code = 409 \<and> error_code = Some ''message_already_exists'' then DuplicateRecording body
         else if code = 409 then Conflict body
         else if code = 413 then PayloadTooLarge max_bytes body
         else if code = 422 then Unprocessable body
         else Server code body)"

definition map_operator_response ::
    "(string \<Rightarrow> Json option) \<Rightarrow> u16 \<Rightarrow> (string, string) result \<Rightarrow> OperatorError" where
  "map_operator_response from_str code response = (case response of
     Inr body \<Rightarrow> map_operator_error_body from_str code body
   | Inl err \<Rightarrow> operator_transport err)"

section \<open>URLs\<close>

definition normalize_base_url :: "string \<Rightarrow> string" where
  "normalize_base_url base_url = rev (dropWhile (\<lambda>c. c = CHR ''/'') (rev base_url))"

definition api_url :: "string \<Rightarrow> string \<Rightarrow> string" where
  "api_url base_url p =
     (if p \<noteq> [] \<and> hd p = CHR ''/'' then base_url @ p else base_url @ ''/'' @ p)"

section \<open>The client\<close>

text \<open>What the client and its libraries are: the configuration it keeps, the network, the parsers.\<close>

record Client =
  base_url :: string
  client_mode :: "RuntimeMode option"
  client_max_upload_bytes :: u64
  client_upload_hosts :: "string list"

definition client_new :: "string \<Rightarrow> u64 \<Rightarrow> string list \<Rightarrow> Client" where
  "client_new url cap hosts =
     \<lparr>base_url = normalize_base_url url, client_mode = None, client_max_upload_bytes = cap,
      client_upload_hosts = hosts\<rparr>"

definition with_runtime_mode :: "Client \<Rightarrow> RuntimeMode \<Rightarrow> Client" where
  "with_runtime_mode c mode = c\<lparr>client_mode := Some mode\<rparr>"

definition api_url_for_path :: "Client \<Rightarrow> string \<Rightarrow> string" where
  "api_url_for_path c p = api_url (base_url c) p"

text \<open>\<open>send_with_question_draw_id\<close>: the body of a success, or the error of anything else.\<close>

definition send ::
    "(string \<Rightarrow> Json option) \<Rightarrow> (HttpRequest \<Rightarrow> HttpReply) \<Rightarrow> Client \<Rightarrow> Method \<Rightarrow> string \<Rightarrow> Body \<Rightarrow>
     string option \<Rightarrow> ((string, string) result, OperatorError) result" where
  "send from_str net c m p body draw_id =
     (case net \<lparr>http_method = m, http_url = api_url_for_path c p, draw_id_header = draw_id,
               http_body = body\<rparr> of
        SendFails err \<Rightarrow> Inl (operator_transport err)
      | Reply code response \<Rightarrow>
          (if is_success code then Inr response
           else Inl (map_operator_response from_str code response)))"

definition decode ::
    "((string, string) result \<Rightarrow> ('v, string) result) \<Rightarrow> ((string, string) result, OperatorError) result \<Rightarrow>
     ('v, OperatorError) result" where
  "decode json result = (case result of
     Inl err \<Rightarrow> Inl err
   | Inr response \<Rightarrow> (case json response of
       Inl err \<Rightarrow> Inl (Protocol (''failed to decode operator JSON: '' @ err))
     | Inr v \<Rightarrow> Inr v))"

text \<open>The operations. A success whose body is not read is a success.\<close>

definition send_empty ::
    "(string \<Rightarrow> Json option) \<Rightarrow> (HttpRequest \<Rightarrow> HttpReply) \<Rightarrow> Client \<Rightarrow> Method \<Rightarrow> string \<Rightarrow> Body \<Rightarrow>
     (unit, OperatorError) result" where
  "send_empty from_str net c m p body = (case send from_str net c m p body None of
     Inl err \<Rightarrow> Inl err | Inr _ \<Rightarrow> Inr ())"

record ApiAudioRef =
  api_url_of :: string
  api_sha256 :: "string option"

record ApiQuestion =
  api_question_id :: string
  api_prompt :: string
  api_question_audio :: ApiAudioRef

record ApiMessage =
  api_message_id :: string
  api_message_question :: "string option"
  api_message_audio :: ApiAudioRef

definition question_from_api :: "ApiQuestion \<Rightarrow> OperatorQuestion" where
  "question_from_api v =
     \<lparr>question_id = api_question_id v, question_audio_url = api_url_of (api_question_audio v),
      question_audio_sha256 = api_sha256 (api_question_audio v), description = Some (api_prompt v)\<rparr>"

definition message_from_api :: "ApiMessage \<Rightarrow> OperatorMessage" where
  "message_from_api v =
     \<lparr>message_id = api_message_id v, message_audio_url = api_url_of (api_message_audio v),
      message_audio_sha256 = api_sha256 (api_message_audio v),
      message_question_id = api_message_question v\<rparr>"

definition map_ok :: "('a \<Rightarrow> 'b) \<Rightarrow> ('a, 'e) result \<Rightarrow> ('b, 'e) result" where
  "map_ok f r = (case r of Inl e \<Rightarrow> Inl e | Inr v \<Rightarrow> Inr (f v))"

definition get_random_question where
  "get_random_question from_str json net c draw_id =
     map_ok question_from_api (decode json (send from_str net c GET ''/v1/questions/random'' NoBody draw_id))"

definition get_random_message where
  "get_random_message from_str json net c =
     map_ok message_from_api (decode json (send from_str net c GET ''/v1/messages/random'' NoBody None))"

definition get_random_instruction where
  "get_random_instruction from_str json net c =
     map_ok message_from_api
       (decode json (send from_str net c GET ''/v1/instructions/random'' NoBody None))"

definition required_duration_ms :: "u64 option \<Rightarrow> (u64, OperatorError) result" where
  "required_duration_ms duration = (case duration of
     Some v \<Rightarrow>
       (if 1 \<le> v \<and> v \<le> MAX_UPLOAD_DURATION_MS then Inr v
        else if v = 0 then Inl (InvalidArgument ''duration_ms must be greater than 0'')
        else Inl (InvalidArgument (''duration_ms '' @ show_word v @ '' exceeds maximum '' @
          show_word MAX_UPLOAD_DURATION_MS)))
   | None \<Rightarrow> Inl (InvalidArgument ''duration_ms is required by POST /v1/messages''))"

definition request_upload_slot where
  "request_upload_slot from_str json net c qid sha duration =
     (case required_duration_ms duration of
        Inl err \<Rightarrow> Inl err
      | Inr ms \<Rightarrow>
          decode json (send from_str net c POST ''/v1/messages''
            (SlotBody \<lparr>slot_sha256 = sha, slot_duration_ms = ms, slot_question_id = qid\<rparr>) None))"

definition upload_complete where
  "upload_complete from_str net c slot =
     send_empty from_str net c POST (''/v1/messages/'' @ slot @ ''/complete'') NoBody"

definition booth_status_state :: "BoothStatus \<Rightarrow> string" where
  "booth_status_state s = (case s of
     BoothStatus.Idle \<Rightarrow> ''idle''
   | BoothStatus.DialTone \<Rightarrow> ''dialTone''
   | BoothStatus.PlayingQuestion \<Rightarrow> ''playingQuestion''
   | BoothStatus.Recording \<Rightarrow> ''recording''
   | BoothStatus.Uploading \<Rightarrow> ''uploading''
   | BoothStatus.PlayingMessage \<Rightarrow> ''playingMessage''
   | BoothStatus.PlayingInstructions \<Rightarrow> ''playingInstructions''
   | BoothStatus.CallUnavailable \<Rightarrow> ''callUnavailable'')"

definition runtime_mode_str :: "RuntimeMode \<Rightarrow> string" where
  "runtime_mode_str m = (case m of Real \<Rightarrow> ''real'' | Mock \<Rightarrow> ''mock'' | Simulator \<Rightarrow> ''simulator'')"

text \<open>\<open>now\<close>: the seconds since the epoch, \<open>None\<close> for a clock before it.\<close>

definition rfc3339_now :: "u64 option \<Rightarrow> string" where
  "rfc3339_now now = format_unix_seconds (case now of Some s \<Rightarrow> s | None \<Rightarrow> 0)"

definition status_update_new :: "BoothStatus \<Rightarrow> RuntimeMode option \<Rightarrow> u64 option \<Rightarrow> StatusUpdate" where
  "status_update_new s mode now =
     \<lparr>update_state = booth_status_state s, updated_at = rfc3339_now now, current_question_id = None,
      current_message_id = None, last_error = None, update_mode = map_option runtime_mode_str mode\<rparr>"

definition put_status_ref where
  "put_status_ref from_str net c s now =
     send_empty from_str net c PUT ''/v1/status'' (StatusBody (status_update_new s (client_mode c) now))"

text \<open>\<open>json\<close> yields the optional \<open>installationState\<close>.\<close>

definition installation_state where
  "installation_state from_str json net c =
     decode json (send from_str net c GET ''/v1/status'' NoBody None)"

definition push_events_json where
  "push_events_json from_str json net c body =
     (case send from_str net c POST ''/v1/events'' (EventsBody body) None of
        Inl err \<Rightarrow> Inl err
      | Inr response \<Rightarrow> (case json response of
          Inl err \<Rightarrow> Inl (Protocol (''failed to decode /v1/events response: '' @ err))
        | Inr v \<Rightarrow> Inr v))"

definition put_system_snapshot where
  "put_system_snapshot from_str net c booth version snapshot =
     send_empty from_str net c PUT ''/v1/system'' (SystemBody booth snapshot version)"

section \<open>Uploading to a presigned URL\<close>

datatype UploadError =
    InvalidUrl string
  | Io string
  | Transport string
  | Http u16 string
  | DuplicateRecording string

definition operator_error_of_upload :: "(string \<Rightarrow> Json option) \<Rightarrow> UploadError \<Rightarrow> OperatorError" where
  "operator_error_of_upload from_str e = (case e of
     InvalidUrl msg \<Rightarrow> OperatorError.Transport msg
   | Io err \<Rightarrow> OperatorError.Transport err
   | Transport err \<Rightarrow> OperatorError.Transport err
   | DuplicateRecording message \<Rightarrow> OperatorError.DuplicateRecording message
   | Http code body \<Rightarrow> map_operator_error_body from_str code body)"

definition UPLOAD_RETRIES :: nat where "UPLOAD_RETRIES = 3"
definition UPLOAD_BACKOFF_BASE :: nat where "UPLOAD_BACKOFF_BASE = 25"   \<comment> \<open>milliseconds\<close>

definition is_retryable_upload_status :: "u16 \<Rightarrow> bool" where
  "is_retryable_upload_status code \<longleftrightarrow>
     code = 408 \<or> code = 409 \<or> code = 425 \<or> code = 429 \<or> 500 \<le> code \<and> code \<le> 599"

definition upload_backoff :: "nat \<Rightarrow> nat" where
  "upload_backoff attempt = UPLOAD_BACKOFF_BASE * (if attempt < 32 then 2 ^ attempt else 2 ^ 32 - 1)"

definition truncated_body :: "(string, string) result \<Rightarrow> string" where
  "truncated_body response = (case response of
     Inr body \<Rightarrow> take 512 body
   | Inl err \<Rightarrow> ''<failed to read response body: '' @ redact_url err @ ''>'')"

text \<open>The file as \<open>metadata\<close> and \<open>open\<close> find it, and the blob service's reply to each attempt.\<close>

record BlobWorld =
  file_len :: "(u64, string) result"
  open_fails :: "nat \<Rightarrow> string option"
  blob_replies :: "nat \<Rightarrow> HttpReply"

datatype BlobAction = PutBlob string u64 string | BlobSleep nat    \<comment> \<open>URL, n_bytes, digest\<close>

fun put_from ::
    "nat \<Rightarrow> nat \<Rightarrow> BlobWorld \<Rightarrow> string \<Rightarrow> u64 \<Rightarrow> string \<Rightarrow> (unit, UploadError) result \<times> BlobAction list"
  where
  "put_from 0 attempt w url n_bytes sha = (Inl (Transport ''upload retry loop exited''), [])"
| "put_from (Suc left) attempt w url n_bytes sha =
     (case open_fails w attempt of
        Some err \<Rightarrow> (Inl (Io err), [])
      | None \<Rightarrow>
          (let put = PutBlob url n_bytes sha;
               again = (let (result, rest) = put_from left (attempt + 1) w url n_bytes sha
                        in (result, put # BlobSleep (upload_backoff attempt) # rest))
           in case blob_replies w attempt of
                SendFails err \<Rightarrow>
                  (if attempt = UPLOAD_RETRIES then (Inl (Transport (redact_url err)), [put]) else again)
              | Reply code response \<Rightarrow>
                  (if is_success code then (Inr (), [put])
                   else if code = 409 \<and> attempt = UPLOAD_RETRIES
                   then (Inl (DuplicateRecording (truncated_body response)), [put])
                   else if \<not> is_retryable_upload_status code \<or> attempt = UPLOAD_RETRIES
                   then (Inl (Http code (truncated_body response)), [put])
                   else again)))"

definition put_recording ::
    "Client \<Rightarrow> BlobWorld \<Rightarrow> string \<Rightarrow> string \<Rightarrow> (unit, UploadError) result \<times> BlobAction list" where
  "put_recording c w url sha = (case file_len w of
     Inl err \<Rightarrow> (Inl (Io err), [])
   | Inr n_bytes \<Rightarrow>
       (if client_max_upload_bytes c < n_bytes then
          (Inl (Io (''recording is '' @ show_word n_bytes @ '' bytes, exceeds upload cap of '' @
            show_word (client_max_upload_bytes c) @ '' bytes'')), [])
        else put_from (UPLOAD_RETRIES + 1) 0 w url n_bytes sha))"

section \<open>The policy for upload URLs\<close>

definition is_ipv4_shared :: "Ipv4Addr \<Rightarrow> bool" where
  "is_ipv4_shared ip = (case ip of Ipv4 a b c d \<Rightarrow> a = 100 \<and> b AND 0xC0 = 64)"

definition is_ipv4_documentation :: "Ipv4Addr \<Rightarrow> bool" where
  "is_ipv4_documentation ip = (case ip of Ipv4 a b c d \<Rightarrow>
     a = 192 \<and> b = 0 \<and> c = 2 \<or> a = 198 \<and> b = 51 \<and> c = 100 \<or> a = 203 \<and> b = 0 \<and> c = 113)"

definition is_ipv6_unique_local :: "Ipv6Addr \<Rightarrow> bool" where
  "is_ipv6_unique_local ip = (case ip of Ipv6 s0 s1 s2 s3 s4 s5 s6 s7 \<Rightarrow> s0 AND 0xFE00 = 0xFC00)"

definition is_ipv6_link_local :: "Ipv6Addr \<Rightarrow> bool" where
  "is_ipv6_link_local ip = (case ip of Ipv6 s0 s1 s2 s3 s4 s5 s6 s7 \<Rightarrow> s0 AND 0xFFC0 = 0xFE80)"

definition trim_brackets :: "string \<Rightarrow> string" where
  "trim_brackets s =
     (let s1 = dropWhile (\<lambda>c. c = CHR ''['') s in rev (dropWhile (\<lambda>c. c = CHR '']'') (rev s1)))"

definition is_private_or_reserved_host ::
    "(string \<Rightarrow> Ipv4Addr option) \<Rightarrow> (string \<Rightarrow> Ipv6Addr option) \<Rightarrow> string \<Rightarrow> bool" where
  "is_private_or_reserved_host parse4 parse6 h =
     (if to_ascii_lowercase h = ''localhost'' then True
      else case parse4 h of
        Some ipv4 \<Rightarrow>
          v4_is_loopback ipv4 \<or> v4_is_private ipv4 \<or> v4_is_link_local ipv4 \<or> v4_is_unspecified ipv4 \<or>
          v4_is_broadcast ipv4 \<or> is_ipv4_shared ipv4 \<or> is_ipv4_documentation ipv4
      | None \<Rightarrow>
          (case parse6 (trim_brackets h) of
             Some ipv6 \<Rightarrow>
               v6_is_loopback ipv6 \<or> v6_is_unspecified ipv6 \<or> is_ipv6_unique_local ipv6 \<or>
               is_ipv6_link_local ipv6
           | None \<Rightarrow> False))"

definition validate_upload_url ::
    "(string \<Rightarrow> string + Url) \<Rightarrow> (string \<Rightarrow> Ipv4Addr option) \<Rightarrow> (string \<Rightarrow> Ipv6Addr option) \<Rightarrow>
     string \<Rightarrow> string list \<Rightarrow> (unit, UploadError) result" where
  "validate_upload_url parse parse4 parse6 raw_url hosts = (case parse raw_url of
     Inl e \<Rightarrow> Inl (InvalidUrl (''malformed URL: '' @ e))
   | Inr parsed \<Rightarrow>
       (if scheme parsed \<noteq> ''https'' then
          Inl (InvalidUrl (''upload URL must use HTTPS, got scheme '' @ [CHR 0x27] @ scheme parsed @ [CHR 0x27]))
        else (case host_str parsed of
          None \<Rightarrow> Inl (InvalidUrl ''upload URL has no host'')
        | Some h \<Rightarrow>
            (if h = [] then Inl (InvalidUrl ''upload URL has no host'')
             else if is_private_or_reserved_host parse4 parse6 h then
               Inl (InvalidUrl (''upload URL host '' @ [CHR 0x27] @ h @ [CHR 0x27] @
                 '' resolves to a private/reserved address''))
             else if hosts \<noteq> [] \<and> \<not> list_ex (\<lambda>a. to_ascii_lowercase a = to_ascii_lowercase h) hosts then
               Inl (InvalidUrl (''upload URL host '' @ [CHR 0x27] @ h @ [CHR 0x27] @
                 '' is not in the allowed hosts list''))
             else Inr ()))))"

definition client_upload_recording where
  "client_upload_recording parse parse4 parse6 c w slot sha =
     (case validate_upload_url parse parse4 parse6 (upload_url slot) (client_upload_hosts c) of
        Inl e \<Rightarrow> (Inl e, [])
      | Inr _ \<Rightarrow> put_recording c w (upload_url slot) sha)"

definition put_upload where
  "put_upload from_str parse parse4 parse6 c w slot sha =
     (let (result, acts) = client_upload_recording parse parse4 parse6 c w slot sha
      in (case result of Inl e \<Rightarrow> Inl (operator_error_of_upload from_str e) | Inr v \<Rightarrow> Inr v, acts))"

section \<open>Errors\<close>

text \<open>The telemetry reports the status of a rejected request, except that a 400 shows as a 422.\<close>

lemma mapped_status:
  "operator_status (Inl (map_operator_error_body from_str code body)) = (if code = 400 then 422 else code)"
  by (simp add: map_operator_error_body_def operator_status_def Let_def)

lemma mapped_retryable:
  "is_retryable_operator_error (map_operator_error_body from_str code body) \<longleftrightarrow> 500 \<le> code"
  by (auto simp: map_operator_error_body_def is_retryable_operator_error_def Let_def)

text \<open>What the operator rejects is classified by its status: the retry loop asks again exactly when
  the request got no (whole) answer or a server error, the telemetry shows the status the operator
  sent, a 400 excepted, which it shows as a 422, and admission is closed exactly by a 409 whose JSON
  says \<open>installation_inactive\<close>.\<close>
theorem rejection_classified:
  "is_retryable_operator_error (map_operator_response from_str code response) =
     (isl response \<or> 500 \<le> code) \<and>
   operator_status (Inl (map_operator_response from_str code response) :: (unit, OperatorError) result) =
     (if isl response then 503 else if code = 400 then 422 else code) \<and>
   (\<exists>m. map_operator_response from_str code response = InstallationInactive m) =
     (\<not> isl response \<and> code = 409 \<and>
      Option.bind (from_str (projr response)) (\<lambda>v. Option.bind (json_get ''error'' v) as_str) =
        Some ''installation_inactive'')"
proof (cases response)
  case (Inl err)
  then show ?thesis
    by (simp add: map_operator_response_def operator_transport_def is_retryable_operator_error_def
        operator_status_def)
next
  case (Inr body)
  then show ?thesis
    by (simp add: map_operator_response_def mapped_retryable mapped_status)
      (auto simp: map_operator_error_body_def Let_def)
qed

section \<open>The upload's own retries\<close>

definition puts_made :: "BlobAction list \<Rightarrow> BlobAction list" where
  "puts_made acts = filter (\<lambda>a. case a of PutBlob _ _ _ \<Rightarrow> True | BlobSleep _ \<Rightarrow> False) acts"

definition slept_ms :: "BlobAction list \<Rightarrow> nat" where
  "slept_ms acts = sum_list (map (\<lambda>a. case a of PutBlob _ _ _ \<Rightarrow> 0 | BlobSleep n \<Rightarrow> n) acts)"

definition accepted_reply :: "HttpReply \<Rightarrow> bool" where
  "accepted_reply r = (case r of SendFails _ \<Rightarrow> False | Reply code _ \<Rightarrow> is_success code)"

text \<open>A reply after which the next attempt is made, if one is left.\<close>

definition again_reply :: "HttpReply \<Rightarrow> bool" where
  "again_reply r = (case r of SendFails _ \<Rightarrow> True
     | Reply code _ \<Rightarrow> \<not> is_success code \<and> is_retryable_upload_status code)"

lemma accepted_not_again: "accepted_reply r \<Longrightarrow> \<not> again_reply r"
  by (simp add: accepted_reply_def again_reply_def split: HttpReply.splits)

lemma blob_views [simp]:
  "puts_made [] = []" "puts_made (PutBlob u b d # acts) = PutBlob u b d # puts_made acts"
  "puts_made (BlobSleep t # acts) = puts_made acts"
  "slept_ms [] = 0" "slept_ms (PutBlob u b d # acts) = slept_ms acts"
  "slept_ms (BlobSleep t # acts) = t + slept_ms acts"
  by (simp_all add: puts_made_def slept_ms_def)

text \<open>One attempt: the next one follows exactly a reply worth another, the fourth excepted.\<close>

lemma put_from_again:
  assumes "put_from (Suc left) n w url n_bytes sha = (result, acts)" "open_fails w n = None"
    and "again_reply (blob_replies w n)" "n \<noteq> UPLOAD_RETRIES"
  obtains rest where "put_from left (n + 1) w url n_bytes sha = (result, rest)"
    "acts = PutBlob url n_bytes sha # BlobSleep (upload_backoff n) # rest"
  using assms by (auto simp: again_reply_def Let_def split: HttpReply.splits prod.splits)

lemma put_from_final:
  assumes "put_from (Suc left) n w url n_bytes sha = (result, acts)" "open_fails w n = None"
    and "\<not> (again_reply (blob_replies w n) \<and> n \<noteq> UPLOAD_RETRIES)"
  shows "acts = [PutBlob url n_bytes sha]" "(result = Inr ()) = accepted_reply (blob_replies w n)"
  using assms
  by (auto simp: again_reply_def accepted_reply_def Let_def split: HttpReply.splits if_splits)

lemma put_from_outcome:
  assumes "put_from left n w url n_bytes sha = (result, acts)"
  shows "\<exists>k. k \<le> left \<and> puts_made acts = replicate k (PutBlob url n_bytes sha) \<and>
    list_all (\<lambda>j. again_reply (blob_replies w j)) [n..<n + k - 1] \<and>
    (result = Inr ()) = (0 < k \<and> accepted_reply (blob_replies w (n + k - 1)))"
  using assms
proof (induction left arbitrary: n result acts)
  case 0
  then show ?case by auto
next
  case (Suc left)
  show ?case
  proof (cases "open_fails w n")
    case (Some err)
    then show ?thesis using Suc.prems by (intro exI [of _ 0]) auto
  next
    case None
    show ?thesis
    proof (cases "again_reply (blob_replies w n) \<and> n \<noteq> UPLOAD_RETRIES")
      case True
      obtain rest where rest: "put_from left (n + 1) w url n_bytes sha = (result, rest)"
          and acts: "acts = PutBlob url n_bytes sha # BlobSleep (upload_backoff n) # rest"
        using put_from_again [OF Suc.prems None] True by blast
      obtain k where k: "k \<le> left" "puts_made rest = replicate k (PutBlob url n_bytes sha)"
          "list_all (\<lambda>j. again_reply (blob_replies w j)) [n + 1..<n + 1 + k - 1]"
          "(result = Inr ()) = (0 < k \<and> accepted_reply (blob_replies w (n + 1 + k - 1)))"
        using Suc.IH [OF rest] by blast
      have "\<not> accepted_reply (blob_replies w n)"
        using True accepted_not_again by blast
      then show ?thesis
        using k acts True by (intro exI [of _ "Suc k"]) (auto simp: upt_rec [of n] Suc_le_eq)
    next
      case False
      then have "acts = [PutBlob url n_bytes sha]" "(result = Inr ()) = accepted_reply (blob_replies w n)"
        using put_from_final [OF Suc.prems None] by blast+
      then show ?thesis by (intro exI [of _ 1]) simp
    qed
  qed
qed

lemma put_from_slept:
  assumes "put_from left n w url n_bytes sha = (result, acts)" and "n + left = 4" and "0 < left"
  shows "slept_ms acts + 25 * 2 ^ n \<le> 200"
  using assms
proof (induction left arbitrary: n acts)
  case (Suc left)
  then have n: "n \<le> 3" by simp
  then have le: "(25 :: nat) * 2 ^ n \<le> 200"
    using power_increasing [of n 3 "2 :: nat"] by simp
  show ?case
  proof (cases "open_fails w n")
    case (Some err)
    then show ?thesis using Suc.prems le by auto
  next
    case None
    show ?thesis
    proof (cases "again_reply (blob_replies w n) \<and> n \<noteq> UPLOAD_RETRIES")
      case True
      then obtain rest where rest: "put_from left (n + 1) w url n_bytes sha = (result, rest)"
          and acts: "acts = PutBlob url n_bytes sha # BlobSleep (upload_backoff n) # rest"
        using put_from_again [OF Suc.prems(1) None] by blast
      have "slept_ms rest + 25 * 2 ^ (n + 1) \<le> 200"
        using Suc.IH [OF rest] Suc.prems(2) n True by (simp add: UPLOAD_RETRIES_def)
      then show ?thesis
        using n by (simp add: acts upload_backoff_def UPLOAD_BACKOFF_BASE_def)
    next
      case False
      then show ?thesis
        using put_from_final(1) [OF Suc.prems(1) None] le by simp
    qed
  qed
qed simp

text \<open>A recording is sent to the blob service at most four times, only if it fits the configured cap,
  always whole and with its digest, and the pauses in between add up to at most 175 milliseconds; the
  upload succeeds exactly when the last reply accepts it, and every earlier one was a transport
  failure or one of the statuses worth another attempt.\<close>
theorem blob_puts_bounded:
  "case put_recording c w url sha of (result, acts) \<Rightarrow>
     \<exists>k len. k \<le> 4 \<and> puts_made acts = replicate k (PutBlob url len sha) \<and> slept_ms acts \<le> 175 \<and>
       (k = 0 \<or> file_len w = Inr len \<and> len \<le> client_max_upload_bytes c) \<and>
       list_all (\<lambda>j. again_reply (blob_replies w j)) [0..<k - 1] \<and>
       (result = Inr ()) = (0 < k \<and> accepted_reply (blob_replies w (k - 1)))"
proof (cases "file_len w")
  case (Inl err)
  then show ?thesis by (auto simp: put_recording_def)
next
  case (Inr len)
  show ?thesis
  proof (cases "client_max_upload_bytes c < len")
    case True
    then show ?thesis using Inr by (auto simp: put_recording_def)
  next
    case False
    obtain result acts where run: "put_from 4 0 w url len sha = (result, acts)"
      by fastforce
    then have "put_recording c w url sha = (result, acts)"
      using Inr False by (simp add: put_recording_def UPLOAD_RETRIES_def del: put_from.simps)
    moreover have "slept_ms acts \<le> 175"
      using put_from_slept [OF run] by simp
    ultimately show ?thesis
      using put_from_outcome [OF run] Inr False by (auto simp: not_less)
  qed
qed

section \<open>The two URL policies\<close>

text \<open>
  What the code relies on of the URL parser and the standard library's address parsers: the host string
  is the text of the host, an address is written the way the address parsers read it (an IPv6
  address in brackets), and a domain name is no address.
\<close>

definition url_host_laws :: "(string \<Rightarrow> Ipv4Addr option) \<Rightarrow> (string \<Rightarrow> Ipv6Addr option) \<Rightarrow> Url \<Rightarrow> bool" where
  "url_host_laws parse4 parse6 u = (case (host u, host_str u) of
     (Some (Domain d), Some h) \<Rightarrow> h = d \<and> parse4 h = None \<and> parse6 (trim_brackets h) = None
   | (Some (HostV4 a), Some h) \<Rightarrow> h \<noteq> [] \<and> parse4 h = Some a \<and> to_ascii_lowercase h \<noteq> ''localhost''
   | (Some (HostV6 a), Some h) \<Rightarrow>
       h \<noteq> [] \<and> parse4 h = None \<and> parse6 (trim_brackets h) = Some a \<and> to_ascii_lowercase h \<noteq> ''localhost''
   | (None, None) \<Rightarrow> True
   | _ \<Rightarrow> False)"

definition strict_policy :: "string list \<Rightarrow> AudioFetchPolicy" where
  "strict_policy hosts = \<lparr>allow_http = False, allowed_hosts = hosts, allow_private_hosts = False\<rparr>"

definition maps_private :: "Url \<Rightarrow> bool" where
  "maps_private u = (case host u of
     Some (HostV6 a) \<Rightarrow> (case to_ipv4_mapped a of Some v4 \<Rightarrow> is_private_ipv4 v4 | None \<Rightarrow> False)
   | _ \<Rightarrow> False)"

definition unnamed :: "Url \<Rightarrow> bool" where
  "unnamed u \<longleftrightarrow> host_str u = Some [] \<or> map_option to_ascii_lowercase (host_str u) = Some ''localhost''"

lemma metadata_is_link_local: "is_metadata_service ip \<Longrightarrow> v4_is_link_local ip"
  by (simp add: is_metadata_service_def v4_is_link_local_def)

lemma shared_tests [simp]:
  "is_ipv4_shared = is_shared_address_space" "is_ipv4_documentation = is_documentation_ipv4"
  "is_ipv6_unique_local = is_unique_local_ipv6" "is_ipv6_link_local = is_link_local_ipv6"
  by (simp_all add: fun_eq_iff is_ipv4_shared_def is_shared_address_space_def is_ipv4_documentation_def
      is_documentation_ipv4_def is_ipv6_unique_local_def is_unique_local_ipv6_def
      is_ipv6_link_local_def is_link_local_ipv6_def)

lemma private_host_iff:
  assumes "url_host_laws parse4 parse6 u" and "host_str u = Some h" and "to_ascii_lowercase h \<noteq> ''localhost''"
  shows "is_private_or_reserved_host parse4 parse6 h \<longleftrightarrow>
    (case host u of
       Some (HostV4 a) \<Rightarrow> is_private_ipv4 a
     | Some (HostV6 a) \<Rightarrow> v6_is_loopback a \<or> v6_is_unspecified a \<or> is_unique_local_ipv6 a \<or> is_link_local_ipv6 a
     | _ \<Rightarrow> False)"
  using assms metadata_is_link_local
  by (auto simp: url_host_laws_def is_private_or_reserved_host_def is_private_ipv4_def
      split: option.splits Host.splits)

lemma allowed_list: "list_ex (\<lambda>a. to_ascii_lowercase a = to_ascii_lowercase h) hs \<longleftrightarrow>
    to_ascii_lowercase h \<in> set (map to_ascii_lowercase hs)"
  by (auto simp: list_ex_iff image_iff) metis

lemma validate_upload_url_iff:
  assumes "parse raw = Inr u" and "url_host_laws parse4 parse6 u"
  shows "validate_upload_url parse parse4 parse6 raw hosts = Inr () \<longleftrightarrow>
    \<not> unnamed u \<and> (policy_allows (strict_policy hosts) u \<or>
      policy_allows (strict_policy hosts) (u\<lparr>host := None\<rparr>) \<and> maps_private u \<and>
      (case host u of Some (HostV6 a) \<Rightarrow> \<not> v6_is_loopback a \<and> \<not> v6_is_unspecified a \<and>
         \<not> is_unique_local_ipv6 a \<and> \<not> is_link_local_ipv6 a | _ \<Rightarrow> True))"
proof (cases "host_str u")
  case None
  then show ?thesis
    using assms(1) by (simp add: validate_upload_url_def policy_allows_def)
next
  case (Some h)
  show ?thesis
  proof (cases "to_ascii_lowercase h = ''localhost''")
    case True
    then show ?thesis
      using assms(1) Some by (simp add: validate_upload_url_def unnamed_def is_private_or_reserved_host_def)
  next
    case False
    show ?thesis
      using assms Some False private_host_iff [OF assms(2) Some False]
      by (auto simp: validate_upload_url_def unnamed_def policy_allows_def strict_policy_def maps_private_def
          allowed_list literal_ip_def resolved_ok_iff is_private_or_reserved_def is_private_ipv6_def
          url_host_laws_def split: option.splits Host.splits if_splits)
  qed
qed

text \<open>The two URL policies agree but for one case: an upload URL is accepted exactly when the policy for
  prompts (without plain HTTP or private hosts, with the same allow-list) accepts it and its host is
  neither empty nor \<open>localhost\<close>, unless the host is an IPv6 address that maps a private IPv4
  address; such a URL the policy for prompts always refuses.\<close>
theorem upload_policy_is_fetch_policy:
  assumes "parse raw = Inr u" and "url_host_laws parse4 parse6 u"
  shows "if maps_private u
    then validate parse (strict_policy hosts) raw \<noteq> Inr u
    else (validate_upload_url parse parse4 parse6 raw hosts = Inr ()) =
      (validate parse (strict_policy hosts) raw = Inr u \<and> \<not> unnamed u)"
  using validate_upload_url_iff [where parse = parse and raw = raw and u = u and ?parse4.0 = parse4 and
      ?parse6.0 = parse6 and hosts = hosts, OF assms]
  by (auto simp: validate_Inr_iff assms(1) policy_allows_def maps_private_def literal_ip_def
      resolved_ok_iff is_private_or_reserved_def is_private_ipv6_def strict_policy_def
      split: option.splits Host.splits)

definition plain_url :: Url where
  "plain_url = \<lparr>scheme = ''https'', host_str = Some ''blob.x'', host = Some (Domain ''blob.x'')\<rparr>"

theorem upload_policy_is_fetch_policy_witness:
  "validate_upload_url (\<lambda>_. Inr plain_url) (\<lambda>_. None) (\<lambda>_. None) ''https://blob.x'' [] = Inr ()"
  using upload_policy_is_fetch_policy [where parse = "\<lambda>_. Inr plain_url" and raw = "''https://blob.x''"
      and u = plain_url and ?parse4.0 = "\<lambda>_. None" and ?parse6.0 = "\<lambda>_. None" and hosts = "[]"]
  by (simp add: plain_url_def url_host_laws_def maps_private_def unnamed_def validate_Inr_iff
      policy_allows_def strict_policy_def literal_ip_def to_ascii_lowercase_def ascii_lower_def)

text \<open>The hole is real: the loopback address written as the IPv4-mapped IPv6 address
  \<open>[::ffff:7f00:1]\<close> is accepted as the target of an upload, where the policy for prompts refuses it.\<close>
theorem mapped_loopback_accepted:
  "let u = \<lparr>scheme = ''https'', host_str = Some ''[::ffff:7f00:1]'',
             host = Some (HostV6 (Ipv6 0 0 0 0 0 0xFFFF 0x7F00 1))\<rparr>;
       parse6 = (\<lambda>h. if h = ''::ffff:7f00:1'' then Some (Ipv6 0 0 0 0 0 0xFFFF 0x7F00 1) else None)
   in url_host_laws (\<lambda>_. None) parse6 u \<and>
      validate_upload_url (\<lambda>_. Inr u) (\<lambda>_. None) parse6 raw [] = Inr () \<and>
      validate (\<lambda>_. Inr u) (strict_policy []) raw =
        Inl (UrlPolicyError.PrivateAddress (V6 (Ipv6 0 0 0 0 0 0xFFFF 0x7F00 1)))"
  by (simp add: url_host_laws_def validate_upload_url_def validate_def strict_policy_def literal_ip_def
      is_private_or_reserved_host_def is_private_or_reserved_def is_private_ipv6_def is_private_ipv4_def
      to_ipv4_mapped_def v4_is_loopback_def trim_brackets_def to_ascii_lowercase_def ascii_lower_def
      v6_is_loopback_def v6_is_unspecified_def is_unique_local_ipv6_def is_link_local_ipv6_def)

section \<open>Both retry loops\<close>

text \<open>C27. The two retry loops multiply: one upload asks the blob service at most twelve times. And they retry
  what no retry can mend: a URL the policy refuses, or a recording over the cap, is no request at
  all, but its error counts as a transport failure, so that the operation is still tried three times
  over 300 milliseconds.\<close>
theorem upload_retries_multiply:
  assumes "\<And>k. answer (calls k) = fst (put_upload from_str parse parse4 parse6 c (w k) slot sha)"
  shows "(\<Sum>k\<leftarrow>[1..<Suc (attempts calls)]. length (puts_made (snd
      (put_upload from_str parse parse4 parse6 c (w (of_nat k)) slot sha)))) \<le> 12 \<and>
    (if validate_upload_url parse parse4 parse6 (upload_url slot) (client_upload_hosts c) \<noteq> Inr ()
     then asked (snd (retry_operator route req calls)) = replicate 3 req \<and>
       slept (snd (retry_operator route req calls)) = 300 \<and>
       (\<forall>k. snd (put_upload from_str parse parse4 parse6 c (w k) slot sha) = [])
     else True)"
proof -
  have four: "length (puts_made (snd (put_upload from_str parse parse4 parse6 c v slot sha))) \<le> 4" for v
    using blob_puts_bounded [where c = c and w = v and url = "upload_url slot" and sha = sha]
    by (auto simp: put_upload_def client_upload_recording_def split_beta split: sum.splits)
  have "(\<Sum>k\<leftarrow>ks. length (puts_made (snd (put_upload from_str parse parse4 parse6 c (w (of_nat k)) slot sha))))
      \<le> 4 * length ks" for ks :: "nat list"
    by (induction ks) (use four in \<open>auto intro: add_mono\<close>)
  from this [of "[1..<Suc (attempts calls)]"] attempts_le [of calls]
  have twelve: "(\<Sum>k\<leftarrow>[1..<Suc (attempts calls)]. length (puts_made (snd
      (put_upload from_str parse parse4 parse6 c (w (of_nat k)) slot sha)))) \<le> 12"
    by (simp del: upt_Suc)
  show ?thesis
  proof (cases "validate_upload_url parse parse4 parse6 (upload_url slot) (client_upload_hosts c)")
    case (Inl e)
    then obtain msg where "e = InvalidUrl msg"
      by (auto simp: validate_upload_url_def split: sum.splits option.splits if_splits)
    with Inl have refused: "put_upload from_str parse parse4 parse6 c v slot sha =
        (Inl (OperatorError.Transport msg), [])" for v
      by (simp add: put_upload_def client_upload_recording_def operator_error_of_upload_def)
    then have "retryable (answer (calls k))" for k
      by (simp add: assms retryable_def is_retryable_operator_error_def)
    then show ?thesis
      using twelve refused by (simp add: retry_operator_unrolled Let_def numeral_3_eq_3)
  qed (use twelve in simp)
qed

theorem upload_retries_multiply_witness:
  "asked (snd (retry_operator ''PUT'' RandomMessage
     (\<lambda>k. \<lparr>seq = 0, answer = Inl (OperatorError.Transport ''malformed URL: x''), took_ms = 0\<rparr> :: unit exchange))) =
   replicate 3 RandomMessage"
  using upload_retries_multiply [where from_str = "\<lambda>_. None" and parse = "\<lambda>_. Inl ''x''"
      and ?parse4.0 = "\<lambda>_. None" and ?parse6.0 = "\<lambda>_. None" and c = "client_new [] 0 []"
      and slot = "\<lparr>slot_id = [], upload_url = [], blob_name = []\<rparr>" and sha = "[]"
      and route = "''PUT''" and req = RandomMessage
      and w = "\<lambda>_. \<lparr>file_len = Inr 0, open_fails = \<lambda>_. None, blob_replies = \<lambda>_. SendFails []\<rparr>"
      and calls = "\<lambda>k. \<lparr>seq = 0, answer = Inl (OperatorError.Transport ''malformed URL: x''), took_ms = 0\<rparr>"]
  by (simp add: put_upload_def client_upload_recording_def validate_upload_url_def operator_error_of_upload_def)

end
