(* ===== verification/DebugAccess.thy ===== *)
theory DebugAccess
  imports OperatorClient
begin

text \<open>
  The front of the debug surface (\<open>crates/booth-debug/src/lib.rs\<close>): its configuration, which listeners
  are started and when starting fails, which routes each listener has and which of them need a token,
  the bearer check, the controls that inject events into the runtime, and the TLS accept loop. axum,
  rustls, rcgen and the sockets are outside: what they answer (a bound address, an accepted stream, a
  header's text) is an argument. A request is what the middleware looks at.
\<close>

section \<open>Configuration\<close>

type_synonym SocketAddr = "IpAddr \<times> u16"

definition ip_is_loopback :: "IpAddr \<Rightarrow> bool" where
  "ip_is_loopback ip = (case ip of V4 a \<Rightarrow> v4_is_loopback a | V6 a \<Rightarrow> v6_is_loopback a)"

record OperatorConfigRedacted =
  shown_base_url :: "string option"
  shown_status_topic :: "string option"
  shown_token :: string
  operator_extra :: "(string \<times> Json) list"

record DebugConfigRedacted =
  shown_tailscale_enabled :: bool
  shown_lan_enabled :: bool
  shown_allow_controls :: bool
  shown_runtime_mode :: RuntimeMode
  shown_ring_capacity :: nat
  shown_operator_origin :: "string option"
  shown_loopback_skip_auth :: bool

record ConfigRedacted =
  shown_gpio :: Json
  shown_audio :: Json
  shown_operator :: OperatorConfigRedacted
  shown_debug :: DebugConfigRedacted
  config_extra :: "(string \<times> Json) list"

record DebugConfig =
  loopback_bind :: string
  lan_bind :: string
  tailscale_enabled :: bool
  lan_enabled :: bool
  allow_controls :: bool
  debug_runtime_mode :: RuntimeMode
  ring_buffer_capacity :: nat
  bearer_token :: "string option"
  loopback_skip_auth :: bool
  allow_tokenless :: bool
  operator_origin :: "string option"
  effective_config :: ConfigRedacted




definition from_debug_config :: "DebugConfig \<Rightarrow> DebugConfigRedacted" where
  "from_debug_config c =
     \<lparr>shown_tailscale_enabled = tailscale_enabled c, shown_lan_enabled = lan_enabled c,
      shown_allow_controls = allow_controls c, shown_runtime_mode = debug_runtime_mode c,
      shown_ring_capacity = ring_buffer_capacity c, shown_operator_origin = operator_origin c,
      shown_loopback_skip_auth = loopback_skip_auth c\<rparr>"

definition redact_token :: "string \<Rightarrow> string" where
  "redact_token tok =
     (if tok = [] then ''<empty>''
      else (let last_four = rev (take 4 (rev tok)) in ''<redacted:'' @ last_four @ ''>''))"

text \<open>\<open>GET /v1/config\<close>.\<close>

definition config_redacted :: "DebugConfig \<Rightarrow> ConfigRedacted" where
  "config_redacted c =
     (let shown = (effective_config c)\<lparr>shown_debug := from_debug_config c\<rparr>
      in case bearer_token c of
           Some tok \<Rightarrow>
             (if shown_token (shown_operator shown) = []
              then shown\<lparr>shown_operator := (shown_operator shown)\<lparr>shown_token := redact_token tok\<rparr>\<rparr>
              else shown)
         | None \<Rightarrow> shown)"

section \<open>Starting\<close>







section \<open>Routes\<close>


datatype Route =
    Healthz | StateRoute | EventsRoute | GpioRoute | StatusLedRoute | AudioRoute | SystemRoute
  | LogsRoute | ConfigRoute | CertFingerprint | SimulateEvent | SimulatePulse | WsTelemetry
  | RootRedirect | SimulatorUi
  | Metrics



section \<open>The bearer check\<close>

text \<open>A header is the text of its first value, \<open>None\<close> when missing or not text.\<close>

record DebugRequest =
  is_options :: bool
  authorization :: "string option"
  ws_protocol :: "string option"
  remote :: "SocketAddr option"


fun split_on :: "char \<Rightarrow> string \<Rightarrow> string list" where
  "split_on c [] = [[]]"
| "split_on c (x # xs) =
     (if x = c then [] # split_on c xs
      else (case split_on c xs of [] \<Rightarrow> [[x]] | w # ws \<Rightarrow> (x # w) # ws))"






text \<open>\<open>ws_telemetry\<close> echoes the subprotocol that carried the tok.\<close>

definition echoed_protocol :: "DebugRequest \<Rightarrow> string option" where
  "echoed_protocol req = Option.bind (ws_protocol req)
     (\<lambda>v. List.find (\<lambda>t. take 7 t = ''bearer.'') (map trim (split_on (CHR '','') v)))"

text \<open>\<open>GET /v1/cert/fingerprint\<close>: \<open>None\<close> is 403.\<close>

definition cert_fingerprint_response :: "string \<Rightarrow> SocketAddr \<Rightarrow> string option" where
  "cert_fingerprint_response fingerprint addr = (if ip_is_loopback (fst addr) then Some fingerprint else None)"

section \<open>Controls\<close>







section \<open>Accepting TLS connections\<close>

text \<open>
  \<open>TlsListener::accept\<close>: what the listening socket gives in turn, and what each handshake comes to. A
  peer that connects and sends nothing keeps the handshake, and with it the loop, waiting.
\<close>

datatype 'c Incoming = AcceptFails | HandshakeFails | HandshakeHangs | HandshakeDone 'c

fun tls_accept :: "'c Incoming list \<Rightarrow> ('c \<times> 'c Incoming list) option" where
  "tls_accept [] = None"
| "tls_accept (HandshakeDone s # rest) = Some (s, rest)"
| "tls_accept (HandshakeHangs # rest) = None"
| "tls_accept (AcceptFails # rest) = tls_accept rest"
| "tls_accept (HandshakeFails # rest) = tls_accept rest"

section \<open>Properties\<close>













text \<open>One silent peer stops the LAN listener: a connection whose handshake never ends keeps every
  connection behind it waiting, however many there are, where a failed accept or handshake does not.\<close>
theorem silent_peer_blocks_listener:
  "tls_accept (replicate m AcceptFails @ replicate n HandshakeFails @ HandshakeHangs # rest) = None \<and>
   tls_accept (replicate m AcceptFails @ replicate n HandshakeFails @ HandshakeDone s # rest) = Some (s, rest)"
proof -
  have fails: "tls_accept (replicate n HandshakeFails @ xs) = tls_accept xs" for n :: nat and xs :: "'a Incoming list"
    by (induction n) simp_all
  have "tls_accept (replicate m AcceptFails @ xs) = tls_accept xs" for xs :: "'a Incoming list"
    by (induction m) simp_all
  then show ?thesis by (simp add: fails)
qed

end
