(* ===== verification/DebugViews.thy ===== *)
theory DebugViews
  imports Core Telemetry OperatorClient
begin

text \<open>
  What the debug surface shows (\<open>crates/booth-debug/src/lib.rs\<close>): the snapshots it makes of the telemetry
  ring (state, GPIO, status LED, audio, system), the cache of the LED indication and its tracker, the
  telemetry WebSocket with its replay, and the ring of captured log lines. Time stamps are rendered
  by the \<open>time\<close> crate (\<open>fmt\<close>), and the decibels of a level are floating point (\<open>dbfs\<close>): both are arguments.
\<close>

section \<open>The state\<close>

record StatusSnapshot =
  snap_state :: string
  snap_updated_at :: string
  snap_question :: "string option"
  snap_message :: "string option"
  snap_error :: "string option"

definition operator_state_name :: "string \<Rightarrow> string" where
  "operator_state_name n =
     (if n \<in> {''idle'', ''Idle''} then ''idle''
      else if n \<in> {''dial_tone'', ''DialTone''} then ''dialTone''
      else if n \<in> {''dialing'', ''Dialing''} then ''dialing''
      else if n \<in> {''ringing_question'', ''RingingQuestion'', ''playing_question'', ''PlayingQuestion''}
      then ''playingQuestion''
      else if n \<in> {''beep'', ''Beep''} then ''beep''
      else if n \<in> {''recording'', ''Recording''} then ''recording''
      else if n \<in> {''finishing_timeout_recording'', ''uploading'', ''uploading_timeout'',
        ''recording_end_beep'', ''Uploading''} then ''uploading''
      else if n \<in> {''playing_message'', ''PlayingMessage''} then ''playingMessage''
      else if n \<in> {''playing_instructions'', ''PlayingInstructions''} then ''playingInstructions''
      else if n \<in> {''call_unavailable'', ''CallUnavailable''} then ''callUnavailable''
      else if n \<in> {''error'', ''Error''} then ''error''
      else n)"

definition status_from_telemetry :: "(nat \<Rightarrow> string) \<Rightarrow> TelemetryBus \<Rightarrow> StatusSnapshot option" where
  "status_from_telemetry fmt b =
     (case List.map_filter (\<lambda>r. case payload r of
        StateTransition _ to_tag _ _ \<Rightarrow>
          Some \<lparr>snap_state = operator_state_name to_tag, snap_updated_at = fmt (ts r),
            snap_question = None, snap_message = None, snap_error = None\<rparr>
      | TelemetryEvent.Error _ message \<Rightarrow>
          Some \<lparr>snap_state = ''error'', snap_updated_at = fmt (ts r),
            snap_question = None, snap_message = None, snap_error = Some message\<rparr>
      | _ \<Rightarrow> None) (rev (snapshot_since b None)) of
        [] \<Rightarrow> None | s # _ \<Rightarrow> Some s)"

definition status_from_hal :: "(nat \<Rightarrow> string) \<Rightarrow> BoothStatus \<Rightarrow> nat \<Rightarrow> StatusSnapshot" where
  "status_from_hal fmt s now =
     \<lparr>snap_state = (case s of
        BoothStatus.Idle \<Rightarrow> ''idle''
      | BoothStatus.DialTone \<Rightarrow> ''dialTone''
      | BoothStatus.PlayingQuestion \<Rightarrow> ''playingQuestion''
      | BoothStatus.Recording \<Rightarrow> ''recording''
      | BoothStatus.Uploading \<Rightarrow> ''uploading''
      | BoothStatus.PlayingMessage \<Rightarrow> ''playingMessage''
      | BoothStatus.PlayingInstructions \<Rightarrow> ''playingInstructions''
      | BoothStatus.CallUnavailable \<Rightarrow> ''callUnavailable''),
      snap_updated_at = fmt now, snap_question = None, snap_message = None, snap_error = None\<rparr>"

definition status_from_core :: "(nat \<Rightarrow> string) \<Rightarrow> State \<Rightarrow> nat \<Rightarrow> StatusSnapshot" where
  "status_from_core fmt s now = status_from_hal fmt (status s) now"

text \<open>\<open>reply\<close>: what the runtime answers to \<open>Snapshot\<close> within the timeout, if it takes the request.\<close>

definition current_status :: "(nat \<Rightarrow> string) \<Rightarrow> State option \<Rightarrow> TelemetryBus \<Rightarrow> nat \<Rightarrow> StatusSnapshot" where
  "current_status fmt reply b now = (case reply of
     Some s \<Rightarrow> status_from_core fmt s now
   | None \<Rightarrow> (case status_from_telemetry fmt b of
       Some s \<Rightarrow> s
     | None \<Rightarrow> status_from_hal fmt BoothStatus.Idle now))"

section \<open>GPIO\<close>

record GpioPinSnapshot =
  pin_role :: PinRole
  pin_level :: bool
  pin_debounced :: bool
  pin_edge_ns :: u64
  pin_event_id :: u64

definition gpio_insert ::
    "(nat \<Rightarrow> string) \<Rightarrow> (PinRole \<rightharpoonup> GpioPinSnapshot) \<times> string option \<Rightarrow> TelemetryRecord \<Rightarrow>
     (PinRole \<rightharpoonup> GpioPinSnapshot) \<times> string option" where
  "gpio_insert fmt acc r = (case payload r of
     GpioEdgeEvent e \<Rightarrow>
       ((fst acc)(role e \<mapsto> \<lparr>pin_role = role e, pin_level = level e, pin_debounced = level e,
          pin_edge_ns = at_monotonic_ns e, pin_event_id = rec_id r\<rparr>), Some (fmt (ts r)))
   | _ \<Rightarrow> acc)"

definition snapshot_gpio :: "(nat \<Rightarrow> string) \<Rightarrow> TelemetryBus \<Rightarrow> GpioPinSnapshot list \<times> string option" where
  "snapshot_gpio fmt b =
     (let (pins, updated) = foldl (gpio_insert fmt) (Map.empty, None) (snapshot_since b None)
      in (List.map_filter pins [PinRole.Hook, PinRole.RotaryRead, PinRole.RotaryPulse, PinRole.PowerButton], updated))"

section \<open>The status LED\<close>

record StatusLedSnapshot =
  led_colour :: LedColour
  led_pattern :: LedPattern
  led_label :: string
  led_at_ns :: u64
  led_updated :: "string option"
  last_event_id :: u64

definition status_led_from_record :: "(nat \<Rightarrow> string) \<Rightarrow> TelemetryRecord \<Rightarrow> StatusLedSnapshot option" where
  "status_led_from_record fmt r = (case payload r of
     StatusLed colour pattern at \<Rightarrow>
       Some \<lparr>led_colour = colour, led_pattern = pattern, led_label = led_pattern_str pattern,
         led_at_ns = at, led_updated = Some (fmt (ts r)), last_event_id = rec_id r\<rparr>
   | _ \<Rightarrow> None)"

definition snapshot_status_led :: "(nat \<Rightarrow> string) \<Rightarrow> TelemetryBus \<Rightarrow> StatusLedSnapshot option" where
  "snapshot_status_led fmt b = Option.bind (latest_status_led b) (status_led_from_record fmt)"

definition store_status_led ::
    "StatusLedSnapshot option \<Rightarrow> StatusLedSnapshot \<Rightarrow> StatusLedSnapshot option" where
  "store_status_led cache snap =
     (if (case cache of None \<Rightarrow> True | Some held \<Rightarrow> last_event_id held \<le> last_event_id snap)
      then Some snap else cache)"

text \<open>What the subscription yields; a lagging receiver sees the bus as it is then.\<close>

datatype Recv = Got TelemetryRecord | Lagged TelemetryBus

definition track_step :: "(nat \<Rightarrow> string) \<Rightarrow> StatusLedSnapshot option \<Rightarrow> Recv \<Rightarrow> StatusLedSnapshot option" where
  "track_step fmt cache input =
     (case (case input of Got r \<Rightarrow> status_led_from_record fmt r | Lagged b \<Rightarrow> snapshot_status_led fmt b) of
        Some snap \<Rightarrow> store_status_led cache snap
      | None \<Rightarrow> cache)"

definition status_led_response :: "StatusLedSnapshot option \<Rightarrow> StatusLedSnapshot" where
  "status_led_response cache = (case cache of
     Some s \<Rightarrow> s
   | None \<Rightarrow> \<lparr>led_colour = Off, led_pattern = led_pattern_default,
       led_label = led_pattern_str led_pattern_default, led_at_ns = 0, led_updated = None, last_event_id = 0\<rparr>)"

section \<open>Audio and system\<close>

record 'd AudioMeterSnapshot =
  input_level_dbfs :: 'd
  output_level_dbfs :: 'd
  input_peak_dbfs :: 'd
  output_peak_dbfs :: 'd
  current_device :: "string option"
  sample_rate_hz :: "u32 option"
  audio_updated_at :: "string option"

definition update_audio_level ::
    "(f32_bits \<Rightarrow> 'd) \<Rightarrow> 'd AudioMeterSnapshot \<Rightarrow> AudioLevel \<Rightarrow> 'd AudioMeterSnapshot" where
  "update_audio_level dbfs s l = (case channel l of
     Input \<Rightarrow> s\<lparr>input_level_dbfs := dbfs (rms l), input_peak_dbfs := dbfs (peak l)\<rparr>
   | Output \<Rightarrow> s\<lparr>output_level_dbfs := dbfs (rms l), output_peak_dbfs := dbfs (peak l)\<rparr>)"

definition audio_update ::
    "(nat \<Rightarrow> string) \<Rightarrow> (f32_bits \<Rightarrow> 'd) \<Rightarrow> 'd AudioMeterSnapshot \<Rightarrow> TelemetryRecord \<Rightarrow> 'd AudioMeterSnapshot" where
  "audio_update fmt dbfs s r = (case payload r of
     AudioLevelEvent l \<Rightarrow> (update_audio_level dbfs s l)\<lparr>audio_updated_at := Some (fmt (ts r))\<rparr>
   | AudioDeviceChange n _ \<Rightarrow> s\<lparr>current_device := Some n, audio_updated_at := Some (fmt (ts r))\<rparr>
   | _ \<Rightarrow> s)"

definition snapshot_audio ::
    "(nat \<Rightarrow> string) \<Rightarrow> (f32_bits \<Rightarrow> 'd) \<Rightarrow> 'd \<Rightarrow> TelemetryBus \<Rightarrow> 'd AudioMeterSnapshot" where
  "snapshot_audio fmt dbfs floor_dbfs b =
     foldl (audio_update fmt dbfs)
       \<lparr>input_level_dbfs = floor_dbfs, output_level_dbfs = floor_dbfs, input_peak_dbfs = floor_dbfs,
        output_peak_dbfs = floor_dbfs, current_device = None, sample_rate_hz = None, audio_updated_at = None\<rparr>
       (snapshot_since b None)"

definition sample_rate_from_config :: "Json \<Rightarrow> u32 option" where
  "sample_rate_from_config value =
     Option.bind (case json_get ''sampleRateHz'' value of
         Some v \<Rightarrow> Some v | None \<Rightarrow> json_get ''sample_rate_hz'' value)
       (\<lambda>v. Option.bind (as_u64 v) (\<lambda>n. if unat n < 2 ^ 32 then Some (ucast n) else None))"

text \<open>\<open>GET /v1/system\<close>; \<open>None\<close> is 204.\<close>

definition system_snapshot :: "TelemetryBus \<Rightarrow> SystemSnapshot option" where
  "system_snapshot b =
     (case List.map_filter (\<lambda>r. case payload r of SystemSample s _ \<Rightarrow> Some s | _ \<Rightarrow> None)
        (rev (snapshot_since b None)) of [] \<Rightarrow> None | s # _ \<Rightarrow> Some s)"

section \<open>The telemetry socket\<close>

datatype SocketMessage = TextMessage string | BinaryMessage "u8 list" | OtherMessage

text \<open>The first message, if it came in time; \<open>from_str\<close> and \<open>from_slice\<close> decode \<open>{replay_from}\<close>.\<close>

definition read_replay_request ::
    "(string \<Rightarrow> u64 option) \<Rightarrow> (u8 list \<Rightarrow> u64 option) \<Rightarrow> SocketMessage option \<Rightarrow> u64 option" where
  "read_replay_request from_str from_slice msg = (case msg of
     Some (TextMessage text) \<Rightarrow> from_str text
   | Some (BinaryMessage bytes) \<Rightarrow> from_slice bytes
   | _ \<Rightarrow> None)"

datatype SocketInput = Live TelemetryRecord | FellBehind "TelemetryRecord option" | BusClosed

fun live_records :: "SocketInput list \<Rightarrow> TelemetryRecord list" where
  "live_records [] = []"
| "live_records (Live r # inputs) = r # live_records inputs"
| "live_records (FellBehind led # inputs) =
     (case led of Some r \<Rightarrow> [r] | None \<Rightarrow> []) @ live_records inputs"
| "live_records (BusClosed # inputs) = []"

text \<open>
  \<open>telemetry_socket\<close>: \<open>b\<close> is the bus when the retained LED record and the ring are read, \<open>sends\<close> how many
  sends succeed before one fails, after which the handler returns.
\<close>

definition telemetry_socket ::
    "TelemetryBus \<Rightarrow> u64 option \<Rightarrow> SocketInput list \<Rightarrow> nat \<Rightarrow> TelemetryRecord list" where
  "telemetry_socket b replay_from inputs sends =
     take sends ((case latest_status_led b of Some r \<Rightarrow> [r] | None \<Rightarrow> []) @
       snapshot_since b replay_from @ live_records inputs)"

section \<open>Captured log lines\<close>

record LogEntry =
  log_ts :: string
  log_level :: string
  log_target :: string
  log_message :: string

record LogStore =
  log_capacity :: nat
  log_entries :: "LogEntry list"

definition log_store_new :: "nat \<Rightarrow> LogStore" where
  "log_store_new cap = \<lparr>log_capacity = cap, log_entries = []\<rparr>"

text \<open>The loops \<open>while entries.len() > capacity\<close> and \<open>while entries.len() >= capacity\<close>.\<close>

fun pop_while_over :: "nat \<Rightarrow> 'a list \<Rightarrow> 'a list" where
  "pop_while_over cap [] = []"
| "pop_while_over cap (e # es) = (if cap < length (e # es) then pop_while_over cap es else e # es)"

fun pop_while_full :: "nat \<Rightarrow> 'a list \<Rightarrow> 'a list" where
  "pop_while_full cap [] = []"
| "pop_while_full cap (e # es) = (if cap \<le> length (e # es) then pop_while_full cap es else e # es)"

definition set_capacity :: "LogStore \<Rightarrow> nat \<Rightarrow> LogStore" where
  "set_capacity store cap =
     \<lparr>log_capacity = cap, log_entries = pop_while_over cap (log_entries store)\<rparr>"

definition log_push :: "LogStore \<Rightarrow> LogEntry \<Rightarrow> LogStore" where
  "log_push store entry =
     (if log_capacity store = 0 then store
      else store\<lparr>log_entries := pop_while_full (log_capacity store) (log_entries store) @ [entry]\<rparr>)"

definition level_priority :: "string \<Rightarrow> u8 option" where
  "level_priority l =
     (let l = to_ascii_lowercase l in
      if l = ''error'' then Some 1 else if l = ''warn'' then Some 2 else if l = ''info'' then Some 3
      else if l = ''debug'' then Some 4 else if l = ''trace'' then Some 5 else None)"

definition log_snapshot :: "LogStore \<Rightarrow> string option \<Rightarrow> nat \<Rightarrow> LogEntry list" where
  "log_snapshot store min_level limit =
     (let limit = max limit 1;
          min_priority = Option.bind min_level level_priority;
          output = take limit (rev (filter (\<lambda>e. case min_priority of
            None \<Rightarrow> True
          | Some least \<Rightarrow> (case level_priority (log_level e) of Some l \<Rightarrow> l \<le> least | None \<Rightarrow> False))
          (log_entries store)))
      in rev output)"

text \<open>\<open>LogVisitor\<close>: \<open>text\<close> is the value, rendered with its own or its \<open>Debug\<close> format.\<close>

record LogVisitor =
  visited_message :: "string option"
  visited_fields :: "string list"

definition record_field :: "LogVisitor \<Rightarrow> string \<times> string \<Rightarrow> LogVisitor" where
  "record_field v field = (case field of (n, text) \<Rightarrow>
     (if n = ''message'' then v\<lparr>visited_message := Some text\<rparr>
      else v\<lparr>visited_fields := visited_fields v @ [n @ ''='' @ text]\<rparr>))"

fun join :: "string \<Rightarrow> string list \<Rightarrow> string" where
  "join sep [] = []"
| "join sep [x] = x"
| "join sep (x # y # xs) = x @ sep @ join sep (y # xs)"

definition visitor_finish :: "LogVisitor \<Rightarrow> string" where
  "visitor_finish v =
     join '' '' ((case visited_message v of Some m \<Rightarrow> [m] | None \<Rightarrow> []) @ visited_fields v)"

datatype Level = ErrorLevel | Warn | Info | DebugLevel | Trace

definition level_to_str :: "Level \<Rightarrow> string" where
  "level_to_str l = (case l of ErrorLevel \<Rightarrow> ''error'' | Warn \<Rightarrow> ''warn'' | Info \<Rightarrow> ''info''
     | DebugLevel \<Rightarrow> ''debug'' | Trace \<Rightarrow> ''trace'')"

definition on_event ::
    "(nat \<Rightarrow> string) \<Rightarrow> LogStore \<Rightarrow> nat \<Rightarrow> Level \<Rightarrow> string \<Rightarrow> (string \<times> string) list \<Rightarrow> LogStore" where
  "on_event fmt store now l target event_fields =
     log_push store \<lparr>log_ts = fmt now, log_level = level_to_str l, log_target = target,
       log_message = visitor_finish
         (foldl record_field \<lparr>visited_message = None, visited_fields = []\<rparr> event_fields)\<rparr>"

section \<open>Properties\<close>

text \<open>Without an answer from the runtime the state shown is the last transition's, under the name the
  operator has for it, but for five states: dialing and the beep have names of their own, an error is
  shown as such where the runtime would say idle, and the tags of a recording being finished and of a
  paused booth, which the operator does not know, are passed through.\<close>
theorem fallback_state_name:
  "operator_state_name (tag s) =
    (case s of
       Dialing _ \<Rightarrow> ''dialing'' | State.Beep _ \<Rightarrow> ''beep'' | State.Error _ \<Rightarrow> ''error''
     | FinishingRecording _ _ \<Rightarrow> ''finishing_recording'' | CallsPaused _ \<Rightarrow> ''calls_paused''
     | _ \<Rightarrow> snap_state (status_from_core fmt s now))"
  by (cases s) (simp_all add: operator_state_name_def tag_def status_from_core_def status_from_hal_def status_def)

text \<open>What a run of the tracker is offered.\<close>

definition offered :: "(nat \<Rightarrow> string) \<Rightarrow> Recv list \<Rightarrow> StatusLedSnapshot list" where
  "offered fmt inputs = List.map_filter
     (\<lambda>i. case i of Got r \<Rightarrow> status_led_from_record fmt r | Lagged b \<Rightarrow> snapshot_status_led fmt b) inputs"

lemma track_run: "foldl (track_step fmt) cache inputs = foldl store_status_led cache (offered fmt inputs)"
  by (induction inputs arbitrary: cache)
    (simp_all add: offered_def List.map_filter_simps track_step_def split: option.split)

lemma store_foldl:
  "(\<forall>snap \<in> set snaps. \<exists>c. foldl store_status_led cache snaps = Some c \<and> last_event_id snap \<le> last_event_id c) \<and>
   (\<forall>held. cache = Some held \<longrightarrow>
      (\<exists>c. foldl store_status_led cache snaps = Some c \<and> last_event_id held \<le> last_event_id c)) \<and>
   (foldl store_status_led cache snaps = cache \<or> foldl store_status_led cache snaps \<in> Some ` set snaps)"
proof (induction snaps arbitrary: cache)
  case (Cons snap snaps)
  define c1 where "c1 = (case cache of None \<Rightarrow> snap
    | Some held \<Rightarrow> if last_event_id held \<le> last_event_id snap then snap else held)"
  have c1: "store_status_led cache snap = Some c1" "last_event_id snap \<le> last_event_id c1"
      "cache = Some c1 \<or> c1 = snap"
    by (auto simp: c1_def store_status_led_def split: option.split)
  have kept: "last_event_id held \<le> last_event_id c1" if "cache = Some held" for held
    using that c1(1) by (auto simp: store_status_led_def split: if_splits)
  obtain c where c: "foldl store_status_led (Some c1) snaps = Some c" "last_event_id c1 \<le> last_event_id c"
      "\<forall>s \<in> set snaps. last_event_id s \<le> last_event_id c" "c = c1 \<or> c \<in> set snaps"
    using Cons.IH [of "Some c1"] by auto
  have "last_event_id snap \<le> last_event_id c" "\<And>held. cache = Some held \<Longrightarrow> last_event_id held \<le> last_event_id c"
    using c(2) c1(2) kept by (auto intro: order.trans)
  then show ?case
    using c c1 by auto
qed simp

text \<open>The indication served is never an old one: whatever the subscription yields, in whatever order
  after a lag, the cache ends with an indication at least as new as the one before, every one received
  and every one the bus retained when the receiver had lagged, and it is one of these.\<close>
theorem led_cache_is_newest:
  "case foldl (track_step fmt) cache inputs of
     None \<Rightarrow> cache = None \<and> offered fmt inputs = []
   | Some c \<Rightarrow> list_all (\<lambda>snap. last_event_id snap \<le> last_event_id c) (offered fmt inputs) \<and>
       (case cache of None \<Rightarrow> True | Some held \<Rightarrow> last_event_id held \<le> last_event_id c) \<and>
       (cache = Some c \<or> c \<in> set (offered fmt inputs))"
proof -
  have facts: "\<forall>snap \<in> set (offered fmt inputs). \<exists>c. foldl (track_step fmt) cache inputs = Some c \<and> last_event_id snap \<le> last_event_id c"
    "\<forall>held. cache = Some held \<longrightarrow> (\<exists>c. foldl (track_step fmt) cache inputs = Some c \<and> last_event_id held \<le> last_event_id c)"
    "foldl (track_step fmt) cache inputs = cache \<or> foldl (track_step fmt) cache inputs \<in> Some ` set (offered fmt inputs)"
    unfolding track_run using store_foldl [of "offered fmt inputs" cache] by blast+
  show ?thesis
  proof (cases "foldl (track_step fmt) cache inputs")
    case None
    then show ?thesis using facts by (cases "offered fmt inputs") auto
  next
    case (Some c)
    then show ?thesis using facts by (auto simp: list_all_iff split: option.split)
  qed
qed

lemma stamped_append: "stamped n (xs @ ys) = stamped n xs @ stamped (n + length xs) ys"
proof (induction xs arbitrary: n)
  case (Cons x xs)
  then show ?case by (cases x) (simp add: stamped_Cons)
qed (simp add: stamped_def)

lemma live_publish_all: "live (publish_all (bus_new cap) es) = stamped 0 es"
  using publish_all_eq [of "bus_new cap" 0 es] by (simp add: bus_new_def)

lemma live_records_Live: "live_records (map Live rs) = rs"
  by (induction rs) simp_all

text \<open>A telemetry client misses nothing: if it subscribes, is sent what is retained and then what is
  published, it has received after the leading status-LED record every record newer than the one it
  says it has seen, also those published while it was connecting, as long as that one is at most one
  ring behind.\<close>
theorem socket_misses_nothing:
  fixes cap before during later
  defines "b \<equiv> publish_all (bus_new cap) (before @ during)" and "b' \<equiv> publish_all (bus_new cap) (before @ during @ later)"
  assumes "length (before @ during) < 2 ^ 64" and "seen \<le> length (before @ during)" and "length (before @ during) \<le> cap + seen"
    and "1 + cap + length (during @ later) \<le> sends"
  shows "telemetry_socket b (Some (of_nat seen)) (map Live (drop (length before) (live b'))) sends =
      (case latest_status_led b of Some r \<Rightarrow> [r] | None \<Rightarrow> []) @ drop seen (live b) @ drop (length before) (live b') \<and>
    set (drop seen (live b')) \<subseteq>
      set (telemetry_socket b (Some (of_nat seen)) (map Live (drop (length before) (live b'))) sends)"
proof -
  have snap: "snapshot_since b (Some (of_nat seen)) = drop seen (live b)"
    unfolding b_def by (rule replay_catches_up [OF assms(3-5)])
  have lives: "live b = stamped 0 before @ stamped (length before) during"
      "live b' = live b @ stamped (length (before @ during)) later"
    by (simp_all add: b_def b'_def live_publish_all stamped_append)
  have len: "length (stamped n es) = length es" for n es
    by (simp add: stamped_def)
  have lengths: "length (live b) = length before + length during"
      "length (live b') = length before + length during + length later"
    by (simp_all add: lives len)
  let ?led = "case latest_status_led b of Some r \<Rightarrow> [r] | None \<Rightarrow> []"
  have "length (?led @ drop seen (live b) @ drop (length before) (live b')) \<le> sends"
    using assms(5,6) by (auto simp: lengths split: option.split)
  then have sent: "telemetry_socket b (Some (of_nat seen)) (map Live (drop (length before) (live b'))) sends =
      ?led @ drop seen (live b) @ drop (length before) (live b')"
    by (simp add: telemetry_socket_def snap live_records_Live)
  moreover have "set (drop seen (live b')) \<subseteq> set (drop seen (live b)) \<union> set (drop (length before) (live b'))"
    using assms(4) by (auto simp: lives len)
  ultimately show ?thesis by auto
qed

definition led_event :: TelemetryEvent where "led_event = StatusLed Red (Steady 9) 0"

theorem socket_misses_nothing_witness:
  "telemetry_socket (publish_all (bus_new 2) ([(0, led_event)] @ [(1, led_event)])) (Some (of_nat 1))
     (map Live (drop (length [(0 :: nat, led_event)])
       (live (publish_all (bus_new 2) ([(0, led_event)] @ [(1, led_event)] @ [(2, led_event)]))))) 9 =
   (case latest_status_led (publish_all (bus_new 2) ([(0, led_event)] @ [(1, led_event)])) of
      Some r \<Rightarrow> [r] | None \<Rightarrow> []) @
   drop 1 (live (publish_all (bus_new 2) ([(0, led_event)] @ [(1, led_event)]))) @
   drop (length [(0 :: nat, led_event)])
     (live (publish_all (bus_new 2) ([(0, led_event)] @ [(1, led_event)] @ [(2, led_event)])))"
  by (rule socket_misses_nothing [THEN conjunct1]) simp_all

section \<open>The log ring\<close>

lemma pop_while_full_eq: "0 < cap \<Longrightarrow> pop_while_full cap es = drop (length es - (cap - 1)) es"
proof (induction es)
  case (Cons e es)
  show ?case
  proof (cases "cap \<le> length (e # es)")
    case True
    then have "length (e # es) - (cap - 1) = Suc (length es - (cap - 1))"
      using Cons.prems by simp
    with True Cons show ?thesis by simp
  qed simp
qed simp

lemma pop_while_over_eq: "pop_while_over cap es = keep_last cap es"
  by (induction es) (auto simp: keep_last_def Suc_diff_le)

interpretation log_ring: bounded_fifo log_push log_entries id cap
    "\<lambda>_ store. log_capacity store = cap \<and> length (log_entries store) \<le> cap" for cap
  by unfold_locales (auto simp: log_push_def pop_while_full_eq keep_last_def)

definition shown :: "string option \<Rightarrow> LogEntry \<Rightarrow> bool" where
  "shown min_level e = (case Option.bind min_level level_priority of
     None \<Rightarrow> True
   | Some least \<Rightarrow> (case level_priority (log_level e) of Some l \<Rightarrow> l \<le> least | None \<Rightarrow> False))"

lemma log_snapshot_eq:
  "log_snapshot store min_level limit = keep_last (max limit 1) (filter (shown min_level) (log_entries store))"
  by (simp add: log_snapshot_def shown_def [abs_def] keep_last_def take_rev Let_def)

text \<open>The log view is the newest lines of the newest lines: after any lines are captured and the ring is
  resized, a query gets, in order, the last of the lines at the asked level or above, at most as many
  as it wants and at least one, among the last the ring has room for.\<close>
theorem log_view_is_newest:
  "log_snapshot (set_capacity (foldl log_push (log_store_new cap) lines) cap') min_level limit =
    keep_last (max limit 1) (filter (shown min_level) (keep_last (min cap cap') lines))"
proof -
  have "log_entries (foldl log_push (log_store_new cap) lines) = keep_last cap lines"
    using log_ring.contents_pushes [of "log_store_new cap" cap lines] by (simp add: log_store_new_def)
  moreover have "keep_last cap' (keep_last cap lines) = keep_last (min cap cap') lines"
    by (cases "cap \<le> cap'") (auto simp: keep_last_def min_def intro!: arg_cong [where f = "\<lambda>n. drop n lines"])
  ultimately show ?thesis
    by (simp add: log_snapshot_eq set_capacity_def pop_while_over_eq)
qed

end
