(* ===== verification/Outputs.thy ===== *)
theory Outputs
  imports Config Complex_Main "HOL-Library.Signed_Division"
begin

text \<open>
  The output adapters of \<open>crates/booth-pi/src\<close>: the RGB status LED (\<open>status_led.rs\<close>) with its animation
  tasks, the ALSA mixer settings applied at startup (\<open>mixer.rs\<close>) and power control (\<open>power.rs\<close>). The
  pins, ALSA and \<open>systemctl\<close> are outside: whether they take a value is an argument. The lit fraction of
  a pattern at a time is computed in floating point by the code; it is a rational here, without the
  rounding, and the task model below takes it as an argument. The duty cycle is kept as that fraction.
\<close>

section \<open>The lit fraction of a pattern\<close>

text \<open>
  \<open>lit_fraction\<close>: the share of full light at an elapsed time in nanoseconds, scaled by the ceiling; \<open>None\<close>
  once a fade is over. \<open>frem\<close> is the remainder of two positive floating-point numbers.
\<close>

definition frem :: "rat \<Rightarrow> rat \<Rightarrow> rat" where
  "frem x y = x - of_int \<lfloor>x / y\<rfloor> * y"

definition clamp_unit :: "rat \<Rightarrow> rat" where
  "clamp_unit x = (if x < 0 then 0 else if 1 < x then 1 else x)"

definition lit_fraction :: "LedPattern \<Rightarrow> nat \<Rightarrow> rat \<Rightarrow> rat option" where
  "lit_fraction pattern nanos ceil_lit =
     (let ms = of_nat nanos / 1000000;
          scaled = (\<lambda>share. Some (clamp_unit (share * ceil_lit)))
      in case pattern of
        Steady b \<Rightarrow> scaled (of_nat (unat b) / 255)
      | Pulse period_ms \<Rightarrow>
          (let period = max (of_nat (unat period_ms)) 1; phase = frem ms period / period
           in scaled (1 - \<bar>2 * phase - 1\<bar>))
      | Blink period_ms \<Rightarrow>
          (let period = max (of_nat (unat period_ms)) 1
           in scaled (if frem ms period < period / 2 then 1 else 0))
      | Fade fade_ms \<Rightarrow>
          (let duration = max (of_nat (unat fade_ms)) 1
           in if duration \<le> ms then None else scaled (1 - ms / duration)))"

lemma frem_bounds: "0 < y \<Longrightarrow> 0 \<le> frem x y \<and> frem x y < y"
proof -
  assume y: "0 < y"
  have "of_int \<lfloor>x / y\<rfloor> * y \<le> x"
    using floor_correct [of "x / y"] by (simp only: pos_le_divide_eq [OF y])
  moreover have "x < (of_int \<lfloor>x / y\<rfloor> + 1) * y"
    using floor_correct [of "x / y"] by (simp add: pos_divide_less_eq [OF y, symmetric])
  ultimately show ?thesis
    by (simp add: frem_def algebra_simps)
qed

lemma clamp_scaled:
  assumes "0 \<le> share" and "share \<le> 1" and "0 \<le> c" and "c \<le> 1"
  shows "clamp_unit (share * c) = share * c" "0 \<le> share * c" "share * c \<le> c"
proof -
  show *: "0 \<le> share * c" "share * c \<le> c"
    using assms mult_mono [of share 1 c c] by simp_all
  then show "clamp_unit (share * c) = share * c"
    using assms(4) by (auto simp: clamp_unit_def)
qed

lemma clamp_scaled_bounds:
  assumes "0 \<le> c" and "c \<le> 1" and "0 \<le> share" and "share \<le> 1"
  shows "0 \<le> clamp_unit (share * c) \<and> clamp_unit (share * c) \<le> c"
  using clamp_scaled [OF assms(3,4,1,2)] by simp

lemma pulse_unit:
  fixes phase :: rat
  assumes "0 \<le> phase" and "phase < 1"
  shows "0 \<le> 1 - \<bar>2 * phase - 1\<bar>" "1 - \<bar>2 * phase - 1\<bar> \<le> 1"
  using assms by (simp_all add: abs_le_iff)

lemma period_pos: "0 < max (of_nat n) (1 :: rat)"
  by simp

text \<open>The LED is never driven beyond the configured ceiling, whatever the pattern and the time, a period
  or duration of zero included, and only a fade ever ends: it has its full light at the start,
  loses it steadily and is over for good once its duration has passed.\<close>
theorem lit_fraction_bounded:
  assumes "0 \<le> c" and "c \<le> 1"
  shows "(case lit_fraction pattern t c of
      Some lit \<Rightarrow> 0 \<le> lit \<and> lit \<le> c
    | None \<Rightarrow> (\<exists>d. pattern = Fade d \<and> unat d * 1000000 \<le> t)) \<and>
    (\<forall>d t'. pattern = Fade d \<and> t \<le> t' \<longrightarrow>
      (case (lit_fraction pattern t c, lit_fraction pattern t' c) of
         (Some lit, Some lit') \<Rightarrow> lit' \<le> lit
       | (None, after) \<Rightarrow> after = None
       | _ \<Rightarrow> True))"
proof (cases pattern)
  case (Steady b)
  have "unat b < 2 ^ LENGTH(8)"
    by (rule unsigned_less)
  then have "unat b \<le> 255"
    by simp
  then have "(of_nat (unat b) :: rat) / 255 \<le> 1"
    using of_nat_le_iff [of "unat b" 255, where ?'a = rat] by simp
  then show ?thesis
    using clamp_scaled_bounds [OF assms, of "of_nat (unat b) / 255"]
    by (simp add: Steady lit_fraction_def Let_def del: of_nat_unat times_divide_eq_left)
next
  case (Pulse p)
  define period where "period = max (of_nat (unat p)) (1 :: rat)"
  have "0 < period"
    by (simp add: period_def)
  note unit = pulse_unit [of "frem (of_nat t / 1000000) period / period"] frem_bounds [OF \<open>0 < period\<close>]
  have "0 \<le> 1 - \<bar>2 * (frem (of_nat t / 1000000) period / period) - 1\<bar> \<and>
      1 - \<bar>2 * (frem (of_nat t / 1000000) period / period) - 1\<bar> \<le> 1"
    using unit \<open>0 < period\<close> by (simp add: divide_less_eq)
  then show ?thesis
    using clamp_scaled_bounds [OF assms, of "1 - \<bar>2 * (frem (of_nat t / 1000000) period / period) - 1\<bar>"]
    by (simp add: Pulse lit_fraction_def Let_def period_def [symmetric] del: of_nat_unat)
next
  case (Blink p)
  show ?thesis
    using clamp_scaled_bounds [OF assms, of 0] clamp_scaled_bounds [OF assms, of 1]
    by (simp add: Blink lit_fraction_def Let_def del: of_nat_unat)
next
  case (Fade d)
  define dur where "dur = max (of_nat (unat d)) (1 :: rat)"
  have dur: "0 < dur" "of_nat (unat d) \<le> dur"
    by (simp_all add: dur_def del: of_nat_unat)
  define ms :: "nat \<Rightarrow> rat" where "ms s = of_nat s / 1000000" for s
  define v where "v s = (1 - ms s / dur) * c" for s
  have val: "lit_fraction (Fade d) s c = (if dur \<le> ms s then None else Some (v s))"
    and range: "\<not> dur \<le> ms s \<Longrightarrow> 0 \<le> v s \<and> v s \<le> c" for s
  proof -
    have unit: "0 \<le> 1 - ms s / dur \<and> 1 - ms s / dur \<le> 1" if "\<not> dur \<le> ms s"
      using that dur(1) by (simp add: ms_def divide_le_eq)
    then show "lit_fraction (Fade d) s c = (if dur \<le> ms s then None else Some (v s))"
      using clamp_scaled(1) [of "1 - ms s / dur" c] assms
      by (simp add: lit_fraction_def Let_def dur_def [symmetric] ms_def [symmetric] v_def del: of_nat_unat)
    show "0 \<le> v s \<and> v s \<le> c" if "\<not> dur \<le> ms s"
      using unit [OF that] clamp_scaled(2,3) [of "1 - ms s / dur" c] assms by (simp add: v_def)
  qed
  have over: "unat d * 1000000 \<le> t" if "dur \<le> ms t"
  proof -
    have "of_nat (unat d) \<le> (of_nat t :: rat) / 1000000"
      using that dur(2) unfolding ms_def by linarith
    then have "of_nat (unat d * 1000000) \<le> (of_nat t :: rat)"
      by (simp add: le_divide_eq del: of_nat_unat)
    then show ?thesis
      by (simp only: of_nat_le_iff)
  qed
  have mono: "ms t \<le> ms t'" "v t' \<le> v t" if "t \<le> t'" for t'
  proof -
    show "ms t \<le> ms t'"
      using that by (simp add: ms_def divide_right_mono)
    then show "v t' \<le> v t"
      using dur(1) assms by (simp add: v_def mult_right_mono divide_right_mono)
  qed
  show ?thesis
    unfolding Fade val using range [of t] over mono by (fastforce dest: order_trans)
qed

theorem lit_fraction_bounded_witness:
  "lit_fraction (Fade 0) 0 (1 / 2) = Some (1 / 2) \<and> lit_fraction (Fade 0) 1000000 (1 / 2) = None \<and>
   (case lit_fraction (Pulse 2000) 500000000 (1 / 2) of Some lit \<Rightarrow> lit \<le> 1 / 2 | None \<Rightarrow> False)"
  using lit_fraction_bounded [of "1 / 2" "Pulse 2000" 500000000]
  by (simp add: lit_fraction_def clamp_unit_def split: option.splits)

section \<open>The channels of the LED\<close>

text \<open>A channel is at its inactive level, or driven by a PWM with a lit fraction.\<close>

record 'd Channels =
  red_pin :: "'d option"
  green_pin :: "'d option"
  blue_pin :: "'d option"

definition all_off :: "'d Channels" where
  "all_off = \<lparr>red_pin = None, green_pin = None, blue_pin = None\<rparr>"

definition select :: "LedColour \<Rightarrow> 'd Channels \<Rightarrow> 'd Channels" where
  "select colour ch = (case colour of
     Off \<Rightarrow> all_off
   | Red \<Rightarrow> ch\<lparr>green_pin := None, blue_pin := None\<rparr>
   | Green \<Rightarrow> ch\<lparr>red_pin := None, blue_pin := None\<rparr>
   | Blue \<Rightarrow> ch\<lparr>red_pin := None, green_pin := None\<rparr>)"

definition set_channel :: "LedColour \<Rightarrow> 'd option \<Rightarrow> 'd Channels \<Rightarrow> 'd Channels" where
  "set_channel colour v ch = (case colour of
     Off \<Rightarrow> ch | Red \<Rightarrow> ch\<lparr>red_pin := v\<rparr> | Green \<Rightarrow> ch\<lparr>green_pin := v\<rparr> | Blue \<Rightarrow> ch\<lparr>blue_pin := v\<rparr>)"

text \<open>\<open>pwm_ok\<close>: whether the PWM takes the duty; \<open>positive\<close>: the test \<open>lit > 0.0\<close>.\<close>

definition apply_lit ::
    "('d \<Rightarrow> bool) \<Rightarrow> bool \<Rightarrow> LedColour \<Rightarrow> 'd \<Rightarrow> 'd Channels \<Rightarrow> 'd Channels \<times> (unit, LedError) result" where
  "apply_lit positive pwm_ok colour lit ch =
     (let ch1 = select colour ch in
      if colour = Off then (ch1, Inr ())
      else if \<not> positive lit then (set_channel colour None ch1, Inr ())
      else if pwm_ok then (set_channel colour (Some lit) ch1, Inr ())
      else (ch1, Inl (LedError.Write ''set pwm'')))"

section \<open>The LED and its animations\<close>

text \<open>
  An animation task waits at its ticker, or has passed it and is about to take the lock and write (or
  to park the channel). Aborting a task ends it at its next wait; a task that is past the ticker when
  it is aborted still writes if it gets the lock without waiting.
\<close>

datatype 'd AnimPhase = AtTicker | Writing 'd | Parking

record 'd Animation =
  anim_colour :: LedColour
  anim_pattern :: LedPattern
  anim_phase :: "'d AnimPhase"

record 'd PiStatusLed =
  channels_of :: "'d Channels"
  handle_of :: "nat option"
  spawned :: "(nat \<times> 'd Animation) list"
  next_task :: nat

definition led_new :: "'d PiStatusLed" where
  "led_new = \<lparr>channels_of = all_off, handle_of = None, spawned = [], next_task = 0\<rparr>"

definition is_waiting :: "'d Animation \<Rightarrow> bool" where
  "is_waiting a = (case anim_phase a of AtTicker \<Rightarrow> True | _ \<Rightarrow> False)"

definition abort_animation :: "'d PiStatusLed \<Rightarrow> 'd PiStatusLed" where
  "abort_animation led = (case handle_of led of
     None \<Rightarrow> led
   | Some n \<Rightarrow>
       led\<lparr>handle_of := None, spawned := filter (\<lambda>(k, a). k \<noteq> n \<or> \<not> is_waiting a) (spawned led)\<rparr>)"

text \<open>\<open>set\<close>; \<open>steady\<close> is the scaled and clamped brightness of a steady pattern.\<close>

definition led_set ::
    "('d \<Rightarrow> bool) \<Rightarrow> (u8 \<Rightarrow> 'd) \<Rightarrow> bool \<Rightarrow> LedColour \<Rightarrow> LedPattern \<Rightarrow> 'd PiStatusLed \<Rightarrow>
     'd PiStatusLed \<times> (unit, LedError) result" where
  "led_set positive steady pwm_ok colour pattern led =
     (let led1 = abort_animation led in
      if colour = Off then (led1\<lparr>channels_of := all_off\<rparr>, Inr ())
      else case pattern of
        Steady b \<Rightarrow>
          (let (ch, result) = apply_lit positive pwm_ok colour (steady b) (channels_of led1)
           in (led1\<lparr>channels_of := ch\<rparr>, result))
      | _ \<Rightarrow>
          (led1\<lparr>handle_of := Some (next_task led1), next_task := next_task led1 + 1,
             spawned := spawned led1 @
               [(next_task led1, \<lparr>anim_colour = colour, anim_pattern = pattern, anim_phase = AtTicker\<rparr>)]\<rparr>,
           Inr ()))"

definition put_phase :: "nat \<Rightarrow> 'd AnimPhase \<Rightarrow> 'd PiStatusLed \<Rightarrow> 'd PiStatusLed" where
  "put_phase n ph led =
     led\<lparr>spawned := map (\<lambda>(k, a). (k, if k = n then a\<lparr>anim_phase := ph\<rparr> else a)) (spawned led)\<rparr>"

definition end_task :: "nat \<Rightarrow> 'd PiStatusLed \<Rightarrow> 'd PiStatusLed" where
  "end_task n led = led\<lparr>spawned := filter (\<lambda>(k, a). k \<noteq> n) (spawned led)\<rparr>"

datatype LedInput =
    LedSet LedColour LedPattern bool
  | AnimTick nat nat                   \<comment> \<open>task, elapsed\<close>
  | AnimWrite nat bool

text \<open>A task whose handle is no longer the LED's own was aborted: it ends instead of waiting again.\<close>

definition led_step ::
    "('d \<Rightarrow> bool) \<Rightarrow> (u8 \<Rightarrow> 'd) \<Rightarrow> 'd \<Rightarrow> (LedPattern \<Rightarrow> nat \<Rightarrow> 'd option) \<Rightarrow> 'd PiStatusLed \<Rightarrow> LedInput \<Rightarrow>
     'd PiStatusLed" where
  "led_step positive steady zero lit_at led input = (case input of
     LedSet colour pattern pwm_ok \<Rightarrow> fst (led_set positive steady pwm_ok colour pattern led)
   | AnimTick n since \<Rightarrow>
       (case map_of (spawned led) n of
          Some a \<Rightarrow>
            (if is_waiting a
             then put_phase n (case lit_at (anim_pattern a) since of
                 Some lit \<Rightarrow> Writing lit | None \<Rightarrow> Parking) led
             else led)
        | None \<Rightarrow> led)
   | AnimWrite n pwm_ok \<Rightarrow>
       (case map_of (spawned led) n of
          Some a \<Rightarrow>
            (case anim_phase a of
               AtTicker \<Rightarrow> led
             | Parking \<Rightarrow>
                 end_task n (led\<lparr>channels_of :=
                   fst (apply_lit positive pwm_ok (anim_colour a) zero (channels_of led))\<rparr>)
             | Writing lit \<Rightarrow>
                 (let (ch, result) = apply_lit positive pwm_ok (anim_colour a) lit (channels_of led);
                      led1 = led\<lparr>channels_of := ch\<rparr>
                  in if result = Inr () \<and> handle_of led = Some n then put_phase n AtTicker led1
                     else end_task n led1))
        | None \<Rightarrow> led))"

text \<open>Dropping the adapter, when neither lock is held.\<close>

definition led_drop :: "'d PiStatusLed \<Rightarrow> 'd PiStatusLed" where
  "led_drop led = (abort_animation led)\<lparr>channels_of := all_off\<rparr>"

section \<open>One channel at a time\<close>

definition single_channel :: "'d Channels \<Rightarrow> bool" where
  "single_channel ch \<longleftrightarrow>
     (green_pin ch = None \<or> red_pin ch = None) \<and> (blue_pin ch = None \<or> red_pin ch = None) \<and> (blue_pin ch = None \<or> green_pin ch = None)"

lemma single_all_off [simp]: "single_channel all_off"
  by (simp add: single_channel_def all_off_def)

lemma single_apply: "single_channel (fst (apply_lit positive pwm_ok colour lit ch))"
  by (cases colour) (auto simp: apply_lit_def select_def set_channel_def single_channel_def all_off_def Let_def)

lemma channels_simps [simp]:
  "channels_of (abort_animation led) = channels_of led"
  "channels_of (put_phase n ph led) = channels_of led"
  "channels_of (end_task n led) = channels_of led"
  by (simp_all add: abort_animation_def put_phase_def end_task_def split: option.split)

interpretation led_channels: machine_invariant
    "\<lambda>led input. (led_step positive steady zero lit_at led input, [] :: unit list)"
    "\<lambda>led. single_channel (channels_of led)"
    for positive :: "'d \<Rightarrow> bool" and steady zero lit_at
proof
  fix led :: "'d PiStatusLed" and input
  assume "single_channel (channels_of led)"
  then show "single_channel (channels_of (fst (led_step positive steady zero lit_at led input, [])))"
    using single_apply [where positive = positive]
    by (auto simp: led_step_def led_set_def split_beta Let_def
        split: LedInput.split LedPattern.split option.split AnimPhase.split)
qed

text \<open>The LED never shows a mixed colour: at every moment of every interleaving of requests and
  animation tasks, aborted ones included, and whatever the PWM refuses, at most one of the three
  channels is driven.\<close>
theorem led_single_channel:
  "single_channel (channels_of (foldl (led_step positive steady zero lit_at) led_new inputs))"
proof -
  have "fst (run_machine (\<lambda>led input. (led_step positive steady zero lit_at led input, [] :: unit list)) led inputs) =
      foldl (led_step positive steady zero lit_at) led inputs" for led
    by (induction inputs arbitrary: led) simp_all
  then show ?thesis
    using led_channels.inv_run [of led_new positive steady zero lit_at inputs]
    by (simp add: led_new_def)
qed

text \<open>An aborted animation can have the last word: if it is past its ticker when a steady colour is set,
  and takes the lock only afterwards, the LED shows the old colour from then on, with no task left
  that would correct it.\<close>
theorem aborted_animation_overwrites:
  "let led = foldl (led_step (\<lambda>d. 0 < d) unat 0 (\<lambda>_ _. Some (100 :: nat))) led_new
       [LedSet Blue (Pulse 2000) True, AnimTick 0 0, LedSet Green (Steady 255) True, AnimWrite 0 True]
   in channels_of led = \<lparr>red_pin = None, green_pin = None, blue_pin = Some 100\<rparr> \<and> spawned led = []"
  by (simp add: led_step_def led_set_def led_new_def abort_animation_def apply_lit_def select_def set_channel_def
      put_phase_def end_task_def is_waiting_def all_off_def Let_def)

section \<open>The mixer\<close>

definition i64_ok :: "int \<Rightarrow> bool" where
  "i64_ok n \<longleftrightarrow> - (2 ^ 63) \<le> n \<and> n < 2 ^ 63"

text \<open>\<open>volume_from_percent\<close>; \<open>None\<close> where an \<open>i64\<close> operation overflows. Rust's \<open>/\<close> truncates.\<close>

definition volume_from_percent :: "int \<Rightarrow> int \<Rightarrow> u8 \<Rightarrow> int option" where
  "volume_from_percent low high percent =
     (let pct = int (unat (min percent 100)); range = high - low; scaled = range * pct;
          volume = low + scaled sdiv 100
      in if i64_ok range \<and> i64_ok scaled \<and> i64_ok volume then Some volume else None)"

definition resolve_mixer_device :: "string option \<Rightarrow> string" where
  "resolve_mixer_device config_card =
     (case (case config_card of None \<Rightarrow> None | Some c \<Rightarrow> (if trim c = [] then None else Some (trim c))) of
        None \<Rightarrow> ''default''
      | Some c \<Rightarrow>
          (if to_ascii_lowercase c = ''default'' then ''default''
           else if CHR '':'' \<in> set c then c
           else if list_all (\<lambda>ch. let n = of_char ch :: nat in 48 \<le> n \<and> n \<le> 57) c then ''hw:'' @ c
           else ''hw:CARD='' @ c))"

text \<open>What ALSA says of a control, and what is set on it. A setting that fails is only logged.\<close>

record Selem =
  playback_range :: "int \<times> int"
  capture_range :: "int \<times> int"
  has_playback_switch :: bool
  has_capture_switch :: bool

datatype MixerAction =
    SetPlaybackVolume "int option"
  | SetCaptureVolume "int option"
  | SetPlaybackSwitch bool
  | SetCaptureSwitch bool

definition apply_control :: "Selem \<Rightarrow> MixerControl \<Rightarrow> MixerAction list" where
  "apply_control e control =
     (case playback_volume_percent control of
        Some pct \<Rightarrow> [SetPlaybackVolume (volume_from_percent (fst (playback_range e)) (snd (playback_range e)) pct)]
      | None \<Rightarrow> []) @
     (case capture_volume_percent control of
        Some pct \<Rightarrow> [SetCaptureVolume (volume_from_percent (fst (capture_range e)) (snd (capture_range e)) pct)]
      | None \<Rightarrow> []) @
     (case playback_switch control of Some on \<Rightarrow> [SetPlaybackSwitch on] | None \<Rightarrow> []) @
     (case capture_switch control of Some on \<Rightarrow> [SetCaptureSwitch on] | None \<Rightarrow> []) @
     (case switch control of
        Some on \<Rightarrow>
          (if has_playback_switch e then [SetPlaybackSwitch on] else []) @
          (if has_capture_switch e then [SetCaptureSwitch on] else [])
      | None \<Rightarrow> [])"

text \<open>\<open>open_mixer\<close> is \<open>None\<close> when the device cannot be opened, else how a control is found.\<close>

definition apply_startup_mixer ::
    "(string \<Rightarrow> (string \<times> u32 \<Rightarrow> Selem option) option) \<Rightarrow> AudioConfig \<Rightarrow>
     (unit, string) result \<times> ((string \<times> u32) \<times> MixerAction) list" where
  "apply_startup_mixer open_mixer config = (case mixer config of
     None \<Rightarrow> (Inr (), [])
   | Some m \<Rightarrow>
       (if controls m = [] then (Inr (), [])
        else (let device_name = resolve_mixer_device (mixer_card m) in
          case open_mixer device_name of
            None \<Rightarrow> (Inl device_name, [])
          | Some find_selem \<Rightarrow>
              (Inr (), concat (map (\<lambda>control.
                 (let sid = (control_name control, control_index control) in
                  case find_selem sid of
                    None \<Rightarrow> []
                  | Some e \<Rightarrow> map (Pair sid) (apply_control e control))) (controls m))))))"

lemma volume_step:
  fixes low high :: int
  assumes "low \<le> high" and "0 \<le> p" and "p \<le> 100"
  shows "low \<le> low + (high - low) * p div 100" "low + (high - low) * p div 100 \<le> high"
proof -
  have "0 \<le> (high - low) * p"
    using assms by simp
  then show "low \<le> low + (high - low) * p div 100"
    by simp
  have "(high - low) * p \<le> (high - low) * 100"
    using assms by (intro mult_left_mono) simp_all
  then have "(high - low) * p div 100 \<le> (high - low) * 100 div 100"
    by (rule zdiv_mono1) simp
  then show "low + (high - low) * p div 100 \<le> high"
    by simp
qed

lemma sdiv_nonneg: "0 \<le> (a :: int) \<Longrightarrow> a sdiv 100 = a div 100"
  by (cases "a = 0") (simp_all add: signed_divide_int_def sgn_if)

text \<open>A volume set in per cent is a volume the control has: for a range of less than \<open>2^56\<close> steps nothing
  overflows, the value lies in the range, 0 and 100 per cent (and anything above) are its ends, and
  a larger percentage never gives a smaller volume.\<close>
theorem volume_within_range:
  assumes "low \<le> high" and "i64_ok low" and "i64_ok high" and "high - low < 2 ^ 56"
  shows "\<exists>v. volume_from_percent low high p = Some v \<and> low \<le> v \<and> v \<le> high \<and>
    (if p = 0 then v = low else if 100 \<le> p then v = high else True) \<and>
    (\<forall>q v'. p \<le> q \<and> volume_from_percent low high q = Some v' \<longrightarrow> v \<le> v')"
proof -
  define pct where "pct p = int (unat (min p 100))" for p :: u8
  define v where "v p = low + (high - low) * pct p div 100" for p
  have pct: "0 \<le> pct p" "pct p \<le> 100" for p
    by (simp_all add: pct_def min_def word_le_nat_alt del: of_nat_unat)
  have vol: "volume_from_percent low high p = Some (v p)" and range: "low \<le> v p" "v p \<le> high" for p
  proof -
    have scaled: "0 \<le> (high - low) * pct p" "(high - low) * pct p \<le> (high - low) * 100"
      using assms(1) pct [of p] mult_left_mono [of "pct p" 100 "high - low"] by simp_all
    show range: "low \<le> v p" "v p \<le> high"
      unfolding v_def using volume_step [OF assms(1) pct] by blast+
    then show "volume_from_percent low high p = Some (v p)"
      using assms scaled
      by (simp add: volume_from_percent_def pct_def [symmetric] sdiv_nonneg v_def [symmetric] i64_ok_def Let_def
          del: of_nat_unat)
  qed
  have mono: "v p \<le> v q" if "p \<le> q" for p q
  proof -
    have "pct p \<le> pct q"
      using that by (auto simp: pct_def min_def word_le_nat_alt simp del: of_nat_unat)
    then have "(high - low) * pct p \<le> (high - low) * pct q"
      using assms(1) by (simp add: mult_left_mono)
    then show ?thesis
      by (simp add: v_def zdiv_mono1)
  qed
  have "v p = low" if "p = 0"
    using that by (simp add: v_def pct_def)
  moreover have "v p = high" if "100 \<le> p"
    using that by (simp add: v_def pct_def min_absorb2)
  ultimately show ?thesis
    using vol range mono by auto
qed

theorem volume_within_range_witness: "\<exists>v. volume_from_percent (-10239) 400 90 = Some v \<and> v \<le> 400"
  using volume_within_range [of "-10239" 400 90] by (auto simp: i64_ok_def)

section \<open>Power\<close>

datatype SpawnOutcome = SpawnFails string | Exited bool string     \<comment> \<open>success, the status shown\<close>

definition run_systemctl :: "string \<Rightarrow> SpawnOutcome \<Rightarrow> (unit, PowerError) result" where
  "run_systemctl action outcome = (case outcome of
     SpawnFails err \<Rightarrow> Inl (Command (''spawn systemctl '' @ action @ '': '' @ err))
   | Exited success shown \<Rightarrow>
       (if success then Inr ()
        else Inl (Command (''systemctl '' @ action @ '' exited with '' @ shown))))"

definition reboot :: "SpawnOutcome \<Rightarrow> (unit, PowerError) result" where
  "reboot outcome = run_systemctl ''reboot'' outcome"

definition poweroff :: "SpawnOutcome \<Rightarrow> (unit, PowerError) result" where
  "poweroff outcome = run_systemctl ''poweroff'' outcome"

end
