(* ===== verification/Playback.thy ===== *)
theory Playback
  imports Runtime AudioFetch Config Complex_Main
begin

text \<open>
  Playback, from \<open>crates/booth-pi/src/audio.rs\<close>: choosing a device, decoding, the level meter, the output
  callback and \<open>PiAudioSink\<close>. cpal (devices and streams), symphonia (packets), the file system and the
  bytes of the built-in tones are arguments: what they answer. Samples are real numbers, without the
  rounding of \<open>f32\<close>; the conversion to the device's sample type is cpal's.
\<close>

section \<open>Devices\<close>

fun contains_str :: "string \<Rightarrow> string \<Rightarrow> bool" where
  "contains_str [] needle = (needle = [])"
| "contains_str (c # cs) needle = (take (length needle) (c # cs) = needle \<or> contains_str cs needle)"

text \<open>\<open>lower\<close> is the Unicode lower-casing of the standard library.\<close>

definition device_name_matches :: "(string \<Rightarrow> string) \<Rightarrow> string \<Rightarrow> string option \<Rightarrow> bool" where
  "device_name_matches lower candidate configured = (case configured of
     None \<Rightarrow> False
   | Some s \<Rightarrow> trim s \<noteq> [] \<and> contains_str (lower candidate) (lower (trim s)))"

text \<open>
  \<open>select_output_device\<close> and \<open>select_input_device\<close>, which differ in the word \<open>kind\<close>: \<open>enumerated\<close> is what
  the host lists, \<open>name_of\<close> the name of a device or why it has none.
\<close>

definition select_device ::
    "(string \<Rightarrow> string) \<Rightarrow> ('d \<Rightarrow> (string, string) result) \<Rightarrow> ('d list, string) result \<Rightarrow> 'd option \<Rightarrow>
     string \<Rightarrow> string option \<Rightarrow> ('d, AudioError) result" where
  "select_device lower name_of enumerated default_device kind substring =
     (let fallback = (case default_device of
            Some d \<Rightarrow> Inr d | None \<Rightarrow> Inl (NoDevice (''no default '' @ kind @ '' device'')));
          shown = (\<lambda>d. case name_of d of Inr n \<Rightarrow> n | Inl err \<Rightarrow> ''<unnameable: '' @ err @ ''>'')
      in case substring of
        None \<Rightarrow> fallback
      | Some needle \<Rightarrow>
          (if trim needle = [] then fallback
           else case enumerated of
             Inl err \<Rightarrow> Inl (NoDevice (''enumerate '' @ kind @ '' devices: '' @ err))
           | Inr ds \<Rightarrow>
               (case List.find (\<lambda>d. device_name_matches lower (shown d) (Some needle)) ds of
                  Some d \<Rightarrow> Inr d
                | None \<Rightarrow> fallback)))"

datatype SampleFormat = F32 | I16 | U16 | OtherFormat string

text \<open>The steps of \<open>play_blocking\<close> and \<open>record_blocking\<close> up to a running stream.\<close>

definition open_stream ::
    "string \<Rightarrow> ('d, AudioError) result \<Rightarrow> (SampleFormat, string) result \<Rightarrow> (unit, string) result \<Rightarrow>
     (unit, string) result \<Rightarrow> (unit, AudioError) result" where
  "open_stream kind selected default_config built started = (case selected of
     Inl e \<Rightarrow> Inl e
   | Inr _ \<Rightarrow> (case default_config of
       Inl err \<Rightarrow> Inl (Device (''default '' @ kind @ '' config: '' @ err))
     | Inr (OtherFormat f) \<Rightarrow> Inl (Device (''unsupported '' @ kind @ '' sample format '' @ f))
     | Inr _ \<Rightarrow> (case built of
         Inl err \<Rightarrow> Inl (Device (''build '' @ kind @ '' stream: '' @ err))
       | Inr _ \<Rightarrow> (case started of
           Inl err \<Rightarrow> Inl (Device (''start '' @ kind @ '' stream: '' @ err))
         | Inr _ \<Rightarrow> Inr ()))))"

section \<open>Decoding\<close>

record DecodedAudio =
  samples :: "real list"
  decoded_rate_hz :: u32

definition has_flac_stream_marker :: "u8 list \<Rightarrow> bool" where
  "has_flac_stream_marker bytes \<longleftrightarrow> take 4 bytes = [0x66, 0x4C, 0x61, 0x43]"






section \<open>The level meter\<close>

definition TERMINAL_LEVEL_SEND_ATTEMPTS :: nat where "TERMINAL_LEVEL_SEND_ATTEMPTS = 20"
definition TERMINAL_LEVEL_SEND_BACKOFF_MS :: nat where "TERMINAL_LEVEL_SEND_BACKOFF_MS = 5"

record LevelMeter =
  has_telemetry :: bool
  block_samples :: u32
  observed :: u32
  sum_squares :: real
  top :: real                      \<comment> \<open>\<open>peak\<close>\<close>

text \<open>A level sent: peak, root mean square, and whether it is the final one, which is retried.\<close>

datatype LevelOut = Level real real bool


definition emit :: "LevelMeter \<Rightarrow> real \<Rightarrow> real \<Rightarrow> bool \<Rightarrow> LevelOut list" where
  "emit m p r blocking = (if has_telemetry m then [Level p r blocking] else [])"

definition flush :: "LevelMeter \<Rightarrow> LevelMeter \<times> LevelOut list" where
  "flush m =
     (let mean_root = (if observed m = 0 then 0 else sqrt (sum_squares m / of_nat (unat (observed m))))
      in (m\<lparr>observed := 0, sum_squares := 0, top := 0\<rparr>, emit m (top m) mean_root False))"

definition clamp_level :: "real \<Rightarrow> real" where
  "clamp_level x = min (max x 0) 1"

definition meter_observe :: "LevelMeter \<Rightarrow> real \<Rightarrow> LevelMeter \<times> LevelOut list" where
  "meter_observe m v =
     (let magnitude = clamp_level \<bar>v\<bar>;
          m1 = m\<lparr>top := max (top m) magnitude, sum_squares := sum_squares m + magnitude * magnitude,
                 observed := saturating_add (observed m) 1\<rparr>
      in if block_samples m1 \<le> observed m1 then flush m1 else (m1, []))"


text \<open>The bounded retries of \<open>emit\<close> for the final level: was it sent, and the milliseconds slept.\<close>

datatype SendReply = SendOk | SendFull | SendClosed

fun send_terminal :: "nat \<Rightarrow> (nat \<Rightarrow> SendReply) \<Rightarrow> bool \<times> nat" where
  "send_terminal 0 replies = (False, 0)"
| "send_terminal (Suc n) replies = (case replies (Suc n) of
     SendOk \<Rightarrow> (True, 0)
   | SendClosed \<Rightarrow> (False, 0)
   | SendFull \<Rightarrow>
       (let (sent, slept_ms) = send_terminal n replies
        in (sent, slept_ms + TERMINAL_LEVEL_SEND_BACKOFF_MS)))"

section \<open>The output stream\<close>

record PlayStream =
  cursor :: nat
  stream_done :: bool
  signalled :: bool              \<comment> \<open>the one-place channel the waiting thread polls\<close>
  out_meter :: LevelMeter

definition play_start :: "LevelMeter \<Rightarrow> PlayStream" where
  "play_start m = \<lparr>cursor = 0, stream_done = False, signalled = False, out_meter = m\<rparr>"

text \<open>The next value of the output callback, with \<open>cancelled\<close> as it reads then.\<close>

definition next_value :: "real list \<Rightarrow> bool \<Rightarrow> bool \<Rightarrow> PlayStream \<Rightarrow> PlayStream \<times> real" where
  "next_value clip repeats cancelled s =
     (if cancelled \<or> stream_done s then (s, 0)
      else if cursor s < length clip then (s\<lparr>cursor := cursor s + 1\<rparr>, clip ! cursor s)
      else if repeats then (s\<lparr>cursor := 0\<rparr>, case clip of [] \<Rightarrow> 0 | v # _ \<Rightarrow> v)
      else (s\<lparr>stream_done := True, signalled := True\<rparr>, 0))"

definition clamp_sample :: "real \<Rightarrow> real" where
  "clamp_sample x = min (max x (- 1)) 1"

datatype OutputSlot = Sound real | Metered LevelOut

definition play_slot :: "real list \<Rightarrow> bool \<Rightarrow> PlayStream \<Rightarrow> bool \<Rightarrow> PlayStream \<times> OutputSlot list" where
  "play_slot clip repeats s cancelled =
     (let (s1, v) = next_value clip repeats cancelled s;
          (m, levels) = meter_observe (out_meter s1) v
      in (s1\<lparr>out_meter := m\<rparr>, Sound (clamp_sample v) # map Metered levels))"

text \<open>The error callback: it ends the playback.\<close>

definition stream_error :: "PlayStream \<Rightarrow> PlayStream" where
  "stream_error s = s\<lparr>stream_done := True, signalled := True\<rparr>"

text \<open>The thread that waits: each round it reads the cancel flag and polls the channel; \<open>None\<close> while it
  still waits.\<close>

fun wait_playback :: "(bool \<times> bool) list \<Rightarrow> nat option" where
  "wait_playback [] = None"
| "wait_playback ((cancelled, received) # rounds) =
     (if cancelled \<or> received then Some (length rounds) else wait_playback rounds)"

definition play_blocking ::
    "(unit, AudioError) result \<Rightarrow> (bool \<times> bool) list \<Rightarrow> (unit, AudioError) result option" where
  "play_blocking opened rounds = (case opened of
     Inl e \<Rightarrow> Some (Inl e)
   | Inr _ \<Rightarrow> map_option (\<lambda>_. Inr ()) (wait_playback rounds))"

section \<open>The sink\<close>

record PlayableAudio =
  clip_audio :: DecodedAudio
  repeats :: bool



text \<open>\<open>task_result\<close> is \<open>None\<close> while the playback thread runs.\<close>

record PlaybackTask =
  task_clip :: PlayableAudio
  task_result :: "(unit, AudioError) result option"

type_synonym PiAudioSink = "PlaybackTask option"      \<comment> \<open>\<open>playback\<close>\<close>

text \<open>\<open>late\<close>: how a thread that still runs ends once it is cancelled.\<close>

definition sink_stop :: "(unit, AudioError) result \<Rightarrow> PiAudioSink \<Rightarrow> PiAudioSink \<times> (unit, AudioError) result" where
  "sink_stop late sink = (case sink of
     None \<Rightarrow> (None, Inr ())
   | Some t \<Rightarrow> (None, case task_result t of Some r \<Rightarrow> r | None \<Rightarrow> late))"

definition sink_play ::
    "(unit, AudioError) result \<Rightarrow> (PlayableAudio, AudioError) result \<Rightarrow> PiAudioSink \<Rightarrow>
     PiAudioSink \<times> (unit, AudioError) result" where
  "sink_play late loaded sink = (case sink_stop late sink of
     (sink1, Inl e) \<Rightarrow> (sink1, Inl e)
   | (sink1, Inr _) \<Rightarrow> (case loaded of
       Inl e \<Rightarrow> (sink1, Inl e)
     | Inr p \<Rightarrow> (Some \<lparr>task_clip = p, task_result = None\<rparr>, Inr ())))"

text \<open>\<open>wait_for_end\<close>: no answer while the thread runs, and then nothing has changed.\<close>

definition wait_for_end :: "PiAudioSink \<Rightarrow> PiAudioSink \<times> (unit, AudioError) result option" where
  "wait_for_end sink = (case sink of
     None \<Rightarrow> (None, Some (Inr ()))
   | Some t \<Rightarrow> (case task_result t of None \<Rightarrow> (sink, None) | Some r \<Rightarrow> (None, Some r)))"

definition thread_ends :: "(unit, AudioError) result \<Rightarrow> PiAudioSink \<Rightarrow> PiAudioSink" where
  "thread_ends r sink = map_option (\<lambda>t. case task_result t of
     None \<Rightarrow> t\<lparr>task_result := Some r\<rparr> | Some _ \<Rightarrow> t) sink"

section \<open>What is heard\<close>

definition sounds :: "OutputSlot list \<Rightarrow> real list" where
  "sounds outs = List.map_filter (\<lambda>out. case out of Sound v \<Rightarrow> Some v | Metered _ \<Rightarrow> None) outs"

lemma sounds_simps [simp]:
  "sounds [] = []" "sounds (Sound v # outs) = v # sounds outs" "sounds (map Metered ls @ outs) = sounds outs"
  by (simp_all add: sounds_def List.map_filter_def comp_def)

lemma sounds_slot [simp]:
  "sounds (snd (play_slot clip looped s c) @ outs) = clamp_sample (snd (next_value clip looped c s)) # sounds outs"
  by (simp add: play_slot_def split_beta Let_def)

lemma state_slot:
  "cursor (fst (play_slot clip looped s c)) = cursor (fst (next_value clip looped c s))"
  "stream_done (fst (play_slot clip looped s c)) = stream_done (fst (next_value clip looped c s))"
  "signalled (fst (play_slot clip looped s c)) = signalled (fst (next_value clip looped c s))"
  by (simp_all add: play_slot_def split_beta Let_def)

lemma clamp_sample_0 [simp]: "clamp_sample 0 = 0"
  by (simp add: clamp_sample_def)

text \<open>Once the stream is over, or while it is cancelled, there is silence and nothing changes.\<close>

lemma silent_run:
  assumes "stream_done s \<or> list_all id cs"
  shows "sounds (snd (run_machine (play_slot clip looped) s cs)) = replicate (length cs) 0 \<and>
    stream_done (fst (run_machine (play_slot clip looped) s cs)) = stream_done s \<and>
    signalled (fst (run_machine (play_slot clip looped) s cs)) = signalled s"
  using assms
proof (induction cs arbitrary: s)
  case (Cons c cs)
  have "next_value clip looped c s = (s, 0)"
    using Cons.prems by (auto simp: next_value_def)
  then show ?case
    using Cons.IH [of "fst (play_slot clip looped s c)"] Cons.prems by (auto simp: state_slot)
qed simp

lemma once_run:
  assumes "\<not> stream_done s" and "\<not> signalled s" and "cursor s \<le> length clip"
  shows "let r = run_machine (play_slot clip False) s (replicate n False); left = length clip - cursor s
    in sounds (snd r) = map clamp_sample (take n (drop (cursor s) clip)) @ replicate (n - left) 0 \<and>
       stream_done (fst r) = (left < n) \<and> signalled (fst r) = (left < n)"
  using assms
proof (induction n arbitrary: s)
  case (Suc n)
  let ?s = "fst (play_slot clip False s False)"
  show ?case
  proof (cases "cursor s < length clip")
    case True
    then have nxt: "next_value clip False False s = (s\<lparr>cursor := cursor s + 1\<rparr>, clip ! cursor s)"
      using Suc.prems by (simp add: next_value_def)
    then have "drop (cursor s) clip = clip ! cursor s # drop (cursor ?s) clip"
      using True by (simp add: state_slot Cons_nth_drop_Suc)
    then show ?thesis
      using Suc.IH [of ?s] Suc.prems True nxt
      by (simp add: Let_def state_slot Suc_diff_Suc) (auto simp: less_diff_conv)
  next
    case False
    then have "next_value clip False False s = (s\<lparr>stream_done := True, signalled := True\<rparr>, 0)"
      using Suc.prems by (simp add: next_value_def)
    then show ?thesis
      using silent_run [of ?s "replicate n False" clip False] Suc.prems False by (simp add: Let_def state_slot)
  qed
qed (simp add: Let_def)


lemma play_once:
  "sounds (snd (run_machine (play_slot clip False) (play_start m) (replicate n False))) =
     map clamp_sample (take n clip) @ replicate (n - length clip) 0"
  "signalled (fst (run_machine (play_slot clip False) (play_start m) (replicate n False))) = (length clip < n)"
  using once_run [of "play_start m" clip n] by (simp_all add: play_start_def Let_def)

text \<open>C14. A clip is heard whole and once: whatever buffers the device asks for, its samples come in order
  and nothing is dropped or added, silence follows, and the end is signalled exactly when a sample
  after the last one is asked for. A cancelled stream is silent at once and signals no end.\<close>
theorem clip_heard_whole:
  "let r = run_machine (play_slot clip False) (play_start m) (replicate n False @ replicate k True)
   in sounds (snd r) =
        map clamp_sample (take n clip) @ replicate (n - length clip + k) 0 \<and>
      (signalled (fst r) \<longleftrightarrow> length clip < n)"
proof -
  let ?p = "run_machine (play_slot clip False) (play_start m) (replicate n False)"
  have "sounds (xs @ ys) = sounds xs @ sounds ys" for xs ys
    by (simp add: sounds_def List.map_filter_def)
  then show ?thesis
    using silent_run [of "fst ?p" "replicate k True" clip False] play_once [of clip m n]
    by (simp add: Let_def run_machine_append split_beta replicate_add list_all_iff)
qed


text \<open>Clips are decoded to one channel, but one sample is taken for every channel of a frame: with two
  channels the left one gets the even and the right one the odd samples, and the clip is over after
  half its duration.\<close>
theorem two_channels_play_double_speed:
  "let r = run_machine (play_slot clip False) (play_start m) (replicate (2 * frames) False)
   in signalled (fst r) = (length clip < 2 * frames) \<and>
      (\<forall>k < min frames (length clip div 2).
         sounds (snd r) ! (2 * k) = clamp_sample (clip ! (2 * k)) \<and>
         sounds (snd r) ! (2 * k + 1) = clamp_sample (clip ! (2 * k + 1)))"
  by (auto simp: Let_def play_once nth_append)

section \<open>Levels\<close>













text \<open>C23. Tearing a stream down always ends, whatever the telemetry channel does: the final level is tried at most
  twenty times over at most a tenth of a second, is sent as soon as there is room, and is given up at
  once when the channel is closed.\<close>
theorem teardown_ends:
  "let (sent, slept_ms) = send_terminal TERMINAL_LEVEL_SEND_ATTEMPTS replies;
       waits = length (takeWhile (\<lambda>i. replies i = SendFull) (rev [1..<Suc TERMINAL_LEVEL_SEND_ATTEMPTS]))
   in slept_ms = 5 * waits \<and> slept_ms \<le> 100 \<and>
      (sent \<longleftrightarrow> waits < TERMINAL_LEVEL_SEND_ATTEMPTS \<and> replies (TERMINAL_LEVEL_SEND_ATTEMPTS - waits) = SendOk)"
proof -
  have "snd (send_terminal n replies) = 5 * length (takeWhile (\<lambda>i. replies i = SendFull) (rev [1..<Suc n])) \<and>
     length (takeWhile (\<lambda>i. replies i = SendFull) (rev [1..<Suc n])) \<le> n \<and>
     (fst (send_terminal n replies) \<longleftrightarrow>
       length (takeWhile (\<lambda>i. replies i = SendFull) (rev [1..<Suc n])) < n \<and>
       replies (n - length (takeWhile (\<lambda>i. replies i = SendFull) (rev [1..<Suc n]))) = SendOk)" for n
    by (induction n) (auto simp: TERMINAL_LEVEL_SEND_BACKOFF_MS_def split_beta split: SendReply.split)
  from this [of TERMINAL_LEVEL_SEND_ATTEMPTS] show ?thesis
    by (auto simp: Let_def split_beta TERMINAL_LEVEL_SEND_ATTEMPTS_def split: if_splits)
qed

section \<open>The sink and the audio task\<close>





lemma wait_playback_left:
  "wait_playback rounds \<noteq> None \<longleftrightarrow> (\<exists>(cancelled, received) \<in> set rounds. cancelled \<or> received)"
  by (induction rounds) auto




text \<open>A playback that failed unnoticed takes the next clip with it: the audio task does not await a dial
  tone, so when its thread has ended with an error, the sink's \<open>play\<close> of the next clip collects that
  error and returns it without starting the clip. Nothing plays, no end is awaited and none is
  reported.\<close>
theorem stale_error_silences_next_clip:
  "let (sink1, r1) = sink_play late (Inr dial) None;
       sink2 = thread_ends (Inl err) sink1;
       (sink3, r2) = sink_play late (Inr question) sink2;
       (task, outs) = run_machine audio_step \<lparr>playing = False, over = False\<rparr>
         [Command (Play (Builtin BuiltinTone.DialTone)) halted r1, Command (Play src) halted r2]
   in r1 = Inr () \<and> sink3 = None \<and> r2 = Inl err \<and> \<not> playing task \<and>
      outs = [SinkPlay (Builtin BuiltinTone.DialTone), SinkPlay src,
        Report (TelemetryEvent.Error ''audio'' (audio_error_str err))]"
  by (simp add: sink_play_def sink_stop_def thread_ends_def audio_step_def audio_err_def completes_def Let_def)

text \<open>When the thread it replaces ends without an error, \<open>play\<close> always starts the clip that was loaded,
  and waiting for the end takes nothing from a thread that still runs.\<close>
lemma play_replaces:
  "sink_play (Inr ()) (Inr p) (Some \<lparr>task_clip = q, task_result = None\<rparr>) =
     (Some \<lparr>task_clip = p, task_result = None\<rparr>, Inr ())"
  "wait_for_end (Some \<lparr>task_clip = p, task_result = None\<rparr>) = (Some \<lparr>task_clip = p, task_result = None\<rparr>, None)"
  "wait_for_end (thread_ends r (Some \<lparr>task_clip = p, task_result = None\<rparr>)) = (None, Some r)"
  by (simp_all add: sink_play_def sink_stop_def wait_for_end_def thread_ends_def)

text \<open>A configured device that is not found falls back to the default one.\<close>
lemma missing_device_falls_back:
  assumes "\<And>d n. d \<in> set ds \<Longrightarrow> \<not> device_name_matches lower (case name_of d of Inr n \<Rightarrow> n | Inl err \<Rightarrow> ''<unnameable: '' @ err @ ''>'') (Some needle)"
  shows "select_device lower name_of (Inr ds) (Some dflt) kind (Some needle) = Inr dflt"
proof -
  have "List.find (\<lambda>d. device_name_matches lower (case name_of d of Inr n \<Rightarrow> n | Inl err \<Rightarrow> ''<unnameable: '' @ err @ ''>'') (Some needle)) ds = None"
    using assms by (auto simp: find_None_iff)
  then show ?thesis
    by (simp add: select_device_def Let_def)
qed

end
