(* ===== verification/Recorder.thy ===== *)
theory Recorder
  imports Playback FileStorage Flac
begin

text \<open>
  Recording, from \<open>crates/booth-pi/src/audio.rs\<close>: the input callback, \<open>finalize_recording\<close> and
  \<open>PiAudioSource\<close> with its entries in the key-value store of \<open>FileStorage\<close>. The encoder (flacenc), SHA-256
  and the file system are arguments; a fault says which step of the finalization fails, so the
  directory after it is also the one a crash at that point leaves.
\<close>

section \<open>The input stream\<close>

text \<open>\<open>f32::round\<close>: to the nearest integer, halves away from zero.\<close>

definition round_half_away :: "real \<Rightarrow> int" where
  "round_half_away x = (if 0 \<le> x then \<lfloor>x + 1 / 2\<rfloor> else - \<lfloor>1 / 2 - x\<rfloor>)"

definition scale_sample :: "real \<Rightarrow> int" where
  "scale_sample x = min (max (round_half_away (clamp_sample x * 32767)) (- 32768)) 32767"

record InputStream =
  captured :: "int list"
  cancelled :: bool
  in_meter :: LevelMeter

text \<open>The \<open>for\<close> loop of the callback, which stops when the buffer is full.\<close>

fun take_samples :: "nat \<Rightarrow> real list \<Rightarrow> InputStream \<Rightarrow> InputStream \<times> LevelOut list" where
  "take_samples max_samples [] s = (s, [])"
| "take_samples max_samples (v # vs) s =
     (let (m, levels) = meter_observe (in_meter s) (clamp_sample v);
          s1 = s\<lparr>captured := captured s @ [scale_sample v], in_meter := m\<rparr>
      in if max_samples \<le> length (captured s1) then (s1\<lparr>cancelled := True\<rparr>, levels)
         else (let (s2, more) = take_samples max_samples vs s1 in (s2, levels @ more)))"

text \<open>\<open>poisoned\<close>: the buffer's lock is poisoned.\<close>

definition input_callback ::
    "nat \<Rightarrow> InputStream \<Rightarrow> bool \<times> real list \<Rightarrow> InputStream \<times> LevelOut list" where
  "input_callback max_samples s input =
     (if cancelled s then (s, [])
      else if fst input then (s\<lparr>cancelled := True\<rparr>, [])
      else take_samples max_samples (snd input) s)"

definition sat_usize :: "nat \<Rightarrow> nat \<Rightarrow> nat" where
  "sat_usize usize_max n = min n usize_max"

definition max_samples_of :: "nat \<Rightarrow> AudioConfig \<Rightarrow> nat" where
  "max_samples_of usize_max config =
     (let convert = (\<lambda>w default. if unat w \<le> usize_max then unat w else default)
      in sat_usize usize_max
           (sat_usize usize_max (convert (audio_sample_rate_hz config) 48000 * unat (channels config)) *
            convert (max_recording_secs config) 60))"

text \<open>The thread that waits: what it reads each round, the cancel flag and the milliseconds elapsed.\<close>

fun wait_recording :: "nat \<Rightarrow> (bool \<times> nat) list \<Rightarrow> nat option" where
  "wait_recording max_ms [] = None"
| "wait_recording max_ms ((cancel, elapsed_ms) # rounds) =
     (if cancel \<or> max_ms \<le> elapsed_ms then Some (length rounds) else wait_recording max_ms rounds)"

section \<open>Finalizing\<close>

record RecordingHandle =
  handle_sha256 :: string
  handle_size_bytes :: u64
  handle_duration_ms :: u64
  handle_path :: string

datatype FinalizeFault =
    NoFinalizeFault
  | MakeDirFails string
  | EncoderRejected string
  | TempCreateFails string
  | TempWriteCut nat string              \<comment> \<open>after so many bytes\<close>
  | TempSyncFails string
  | FinalRenameFails string
  | DirectorySyncFails string

text \<open>
  The encoder: its block size, and for the channels, the rate and the samples the bytes of the
  stream and the lengths of its frames, or why it or the serializer failed.
\<close>

record FlacEncoder =
  block_size :: nat
  encode :: "u16 \<Rightarrow> u32 \<Rightarrow> int list \<Rightarrow> (u8 list \<times> nat list, string) result"

definition pad_to_blocks :: "nat \<Rightarrow> int list \<Rightarrow> int list" where
  "pad_to_blocks block xs =
     (if 0 < block \<and> length xs mod block \<noteq> 0
      then xs @ replicate (((length xs + block - 1) div block) * block - length xs) 0
      else xs)"

definition join_path :: "string \<Rightarrow> string \<Rightarrow> string" where
  "join_path base name =
     (if base = [] \<or> last base = CHR ''/'' then base @ name else base @ ''/'' @ name)"

definition recording_temp_name :: "nat \<Rightarrow> u64 \<Rightarrow> string" where
  "recording_temp_name pid ns = ''.recording-'' @ show_nat pid @ ''-'' @ show_word ns @ ''.flac''"

definition recording_file_name :: "string \<Rightarrow> string" where
  "recording_file_name sha = sha @ ''.flac''"

definition file_bytes :: "u8 list \<Rightarrow> string" where
  "file_bytes bs = map (\<lambda>b. char_of (unat b)) bs"

definition io_failure :: "string \<Rightarrow> string \<Rightarrow> string \<Rightarrow> AudioError" where
  "io_failure what subject err = AudioError.Io (what @ subject @ '': '' @ err)"

text \<open>The bytes that are written: padded, encoded and with the frame headers rewritten.\<close>

definition encode_recording ::
    "nat \<Rightarrow> FlacEncoder \<Rightarrow> AudioConfig \<Rightarrow> int list \<Rightarrow> (u8 list, AudioError) result" where
  "encode_recording usize_max enc config xs =
     (case encode enc (channels config) (audio_sample_rate_hz config)
             (pad_to_blocks (block_size enc * unat (channels config)) xs) of
        Inl err \<Rightarrow> Inl (Codec err)
      | Inr (bytes, frame_lengths) \<Rightarrow>
          Inr (fst (rewrite_frame_sample_rates usize_max bytes frame_lengths (audio_sample_rate_hz config))))"

definition recording_duration_ms :: "AudioConfig \<Rightarrow> nat \<Rightarrow> u64" where
  "recording_duration_ms config count =
     (let frames = of_nat (min count (2 ^ 64 - 1)) div max (ucast (channels config)) 1
      in saturating_mul frames 1000 div max (ucast (audio_sample_rate_hz config)) 1)"

definition finalize_recording ::
    "nat \<Rightarrow> FlacEncoder \<Rightarrow> (u8 list \<Rightarrow> string) \<Rightarrow> nat \<times> u64 \<Rightarrow> FinalizeFault \<Rightarrow> AudioConfig \<Rightarrow> int list \<Rightarrow>
     dir \<Rightarrow> dir \<times> (RecordingHandle, AudioError) result" where
  "finalize_recording usize_max enc hex_sha256 stamp fault config xs d =
     (let recordings = audio_recordings_dir config;
          temp = recording_temp_name (fst stamp) (snd stamp);
          temp_path = join_path recordings temp
      in case fault of
        MakeDirFails err \<Rightarrow> (d, Inl (io_failure ''create recordings dir '' recordings err))
      | EncoderRejected err \<Rightarrow> (d, Inl (Codec (''verify FLAC encoder config: '' @ err)))
      | _ \<Rightarrow> (case encode_recording usize_max enc config xs of
          Inl e \<Rightarrow> (d, Inl e)
        | Inr encoded \<Rightarrow>
            (let sha = hex_sha256 encoded;
                 final = recording_file_name sha;
                 d1 = write_file temp [] d;
                 d2 = write_file temp (file_bytes encoded) d1;
                 d3 = rename_file temp final d2
             in case fault of
               TempCreateFails err \<Rightarrow> (d, Inl (io_failure ''write temp recording '' temp_path err))
             | TempWriteCut n err \<Rightarrow>
                 (write_file temp (take n (file_bytes encoded)) d1,
                  Inl (io_failure ''persist recording '' temp_path err))
             | TempSyncFails err \<Rightarrow> (d2, Inl (io_failure ''persist recording '' temp_path err))
             | FinalRenameFails err \<Rightarrow>
                 (d2, Inl (io_failure ''rename recording ''
                    (temp_path @ '' to '' @ join_path recordings final) err))
             | DirectorySyncFails err \<Rightarrow> (d3, Inl (io_failure ''sync recordings dir '' recordings err))
             | _ \<Rightarrow>
                 (d3, Inr \<lparr>handle_sha256 = sha,
                    handle_size_bytes = of_nat (min (length encoded) (2 ^ 64 - 1)),
                    handle_duration_ms = recording_duration_ms config (length xs),
                    handle_path = join_path recordings final\<rparr>))))"

section \<open>The source\<close>

text \<open>\<open>recording_ends\<close> is \<open>None\<close> while the recording thread runs.\<close>

record RecordingTask =
  recording_ends :: "(RecordingHandle, AudioError) result option"

record PiAudioSource =
  active_recording :: "RecordingTask option"
  finished_handles :: "string \<rightharpoonup> RecordingHandle"

definition source_new :: PiAudioSource where
  "source_new = \<lparr>active_recording = None, finished_handles = (\<lambda>_. None)\<rparr>"

definition recording_path_key :: "string \<Rightarrow> string" where
  "recording_path_key rid = ''recording:'' @ rid @ '':path''"

definition provisional_recording_id :: "u64 \<Rightarrow> string" where
  "provisional_recording_id ns = ''recording-'' @ show_word ns"

definition start_recording :: "u64 \<Rightarrow> PiAudioSource \<Rightarrow> PiAudioSource \<times> (string, AudioError) result" where
  "start_recording ns src =
     (if active_recording src \<noteq> None then (src, Inl (Device ''recording already in progress''))
      else (src\<lparr>active_recording := Some \<lparr>recording_ends = None\<rparr>\<rparr>, Inr (provisional_recording_id ns)))"

definition persist_recording_handle :: "IoFault \<Rightarrow> nat \<times> u64 \<Rightarrow> RecordingHandle \<Rightarrow> dir \<Rightarrow> dir" where
  "persist_recording_handle fault stamp h d =
     fst (storage_set fault (temp_name (fst stamp) (snd stamp))
       (recording_path_key (handle_sha256 h)) (handle_path h) d)"

text \<open>\<open>late\<close>: how a thread that still runs ends once it is cancelled. The store is a directory of its own.\<close>

definition stop_recording ::
    "(RecordingHandle, AudioError) result \<Rightarrow> IoFault \<Rightarrow> nat \<times> u64 \<Rightarrow> PiAudioSource \<times> dir \<Rightarrow>
     (PiAudioSource \<times> dir) \<times> (RecordingHandle option, AudioError) result" where
  "stop_recording late fault stamp sd = (case sd of (src, store) \<Rightarrow>
     (case active_recording src of
        None \<Rightarrow> (sd, Inr None)
      | Some t \<Rightarrow>
          (let src1 = src\<lparr>active_recording := None\<rparr> in
           case (case recording_ends t of Some r \<Rightarrow> r | None \<Rightarrow> late) of
             Inl e \<Rightarrow> ((src1, store), Inl e)
           | Inr h \<Rightarrow>
               ((src1\<lparr>finished_handles := (finished_handles src1)(handle_sha256 h \<mapsto> h)\<rparr>,
                 persist_recording_handle fault stamp h store),
                Inr (Some h)))))"

definition source_stop ::
    "(RecordingHandle, AudioError) result \<Rightarrow> IoFault \<Rightarrow> nat \<times> u64 \<Rightarrow> PiAudioSource \<times> dir \<Rightarrow>
     (PiAudioSource \<times> dir) \<times> (string option, AudioError) result" where
  "source_stop late fault stamp sd = (case stop_recording late fault stamp sd of
     (sd1, Inl e) \<Rightarrow> (sd1, Inl e)
   | (sd1, Inr h) \<Rightarrow> (sd1, Inr (map_option handle_sha256 h)))"

definition storage_error_text :: "StorageError \<Rightarrow> string" where
  "storage_error_text e = (case e of StorageError.Io m \<Rightarrow> ''storage I/O error: '' @ m
     | StorageError.Decode m \<Rightarrow> ''storage deserialization error: '' @ m)"

text \<open>\<open>utf8_error\<close>: what \<open>String::from_utf8\<close> objects to, if anything.\<close>

definition path_of ::
    "(string \<Rightarrow> string option) \<Rightarrow> bool \<Rightarrow> string \<Rightarrow> PiAudioSource \<times> dir \<Rightarrow> (string, AudioError) result" where
  "path_of utf8_error read_fails rid sd = (case sd of (src, store) \<Rightarrow>
     (case finished_handles src rid of
        Some h \<Rightarrow> Inr (handle_path h)
      | None \<Rightarrow>
          (let key = recording_path_key rid in
           case storage_get read_fails key store of
             Inl e \<Rightarrow> Inl (AudioError.Io (''read recording path metadata '' @ key @ '': '' @ storage_error_text e))
           | Inr None \<Rightarrow> Inl (Source (''unknown recording id '' @ rid))
           | Inr (Some bytes) \<Rightarrow>
               (case utf8_error bytes of
                  None \<Rightarrow> Inr bytes
                | Some err \<Rightarrow>
                    Inl (AudioError.Io (''recording path metadata for '' @ rid @ '' is not utf-8: '' @ err))))))"

definition duration_of :: "string \<Rightarrow> PiAudioSource \<Rightarrow> u64 option" where
  "duration_of rid src = map_option handle_duration_ms (finished_handles src rid)"

definition cleanup_recording ::
    "bool \<Rightarrow> string \<Rightarrow> PiAudioSource \<times> dir \<Rightarrow> (PiAudioSource \<times> dir) \<times> (unit, AudioError) result" where
  "cleanup_recording delete_fails rid sd = (case sd of (src, store) \<Rightarrow>
     (let src1 = src\<lparr>finished_handles := (finished_handles src)(rid := None)\<rparr>;
          key = recording_path_key rid;
          (store1, r) = storage_delete delete_fails key store
      in ((src1, store1), case r of
            Inl e \<Rightarrow> Inl (AudioError.Io (''delete recording path metadata '' @ key @ '': '' @ storage_error_text e))
          | Inr _ \<Rightarrow> Inr ())))"

section \<open>What is captured\<close>

lemma take_samples_result:
  assumes "\<not> cancelled s" and "length (captured s) < max full 1"
  shows "captured (fst (take_samples full vs s)) =
      captured s @ take (max full 1 - length (captured s)) (map scale_sample vs) \<and>
    (cancelled (fst (take_samples full vs s)) \<longleftrightarrow> max full 1 \<le> length (captured s) + length vs)"
  using assms
proof (induction vs arbitrary: s)
  case (Cons v vs)
  obtain m levels where m: "meter_observe (in_meter s) (clamp_sample v) = (m, levels)"
    by force
  let ?s = "s\<lparr>captured := captured s @ [scale_sample v], in_meter := m\<rparr>"
  show ?case
  proof (cases "full \<le> length (captured ?s)")
    case True
    then have "max full 1 = Suc (length (captured s))"
      using Cons.prems(2) by simp
    then show ?thesis
      using True m Cons.prems by (simp add: Let_def)
  next
    case False
    then have "length (captured ?s) < max full 1" "\<not> cancelled ?s"
      using Cons.prems by simp_all
    from Cons.IH [OF this(2,1)] show ?thesis
      using False m Cons.prems
      by (simp add: split_beta Let_def Suc_diff_Suc [symmetric] take_Cons' max_def)
  qed
qed (auto simp: max_def)

definition input_start :: "LevelMeter \<Rightarrow> InputStream" where
  "input_start m = \<lparr>captured = [], cancelled = False, in_meter = m\<rparr>"

lemma callback_cases:
  "cancelled s \<Longrightarrow> fst (input_callback full s input) = s"
  "\<not> cancelled s \<Longrightarrow> input_callback full s (False, vs) = take_samples full vs s"
  by (simp_all add: input_callback_def)

lemma full_buffer_stays: "cancelled s \<Longrightarrow> fst (run_machine (input_callback full) s inputs) = s"
  by (induction inputs) (simp_all add: callback_cases)

lemma scale_sample_range: "- 32767 \<le> scale_sample x \<and> scale_sample x \<le> 32767"
proof -
  have c: "- 1 \<le> clamp_sample x" "clamp_sample x \<le> 1"
    by (simp_all add: clamp_sample_def)
  then have "\<lfloor>clamp_sample x * 32767 + 1 / 2\<rfloor> \<le> 32767" "\<lfloor>1 / 2 - clamp_sample x * 32767\<rfloor> \<le> 32767"
    by (simp_all add: floor_le_iff)
  moreover have "0 \<le> clamp_sample x \<Longrightarrow> 0 \<le> \<lfloor>clamp_sample x * 32767 + 1 / 2\<rfloor>"
      "clamp_sample x < 0 \<Longrightarrow> 0 \<le> \<lfloor>1 / 2 - clamp_sample x * 32767\<rfloor>"
    by (simp_all add: le_floor_iff)
  ultimately show ?thesis
    by (auto simp: scale_sample_def round_half_away_def zero_le_mult_iff)
qed

text \<open>A recording is what came in, in order, up to its limit: over all buffers the device delivers, the
  samples captured are the first of them, each scaled to sixteen bits (never the lowest value), and
  the capture is cancelled exactly when the limit is reached, after which nothing is added.\<close>
theorem recording_is_prefix_of_input:
  "let s = fst (run_machine (input_callback full) (input_start m) (map (Pair False) buffers))
   in captured s = take (max full 1) (map scale_sample (concat buffers)) \<and>
      (cancelled s \<longleftrightarrow> max full 1 \<le> length (concat buffers)) \<and>
      list_all (\<lambda>n. - 32767 \<le> n \<and> n \<le> 32767) (captured s)"
proof -
  let ?run = "\<lambda>bs. fst (run_machine (input_callback full) (input_start m) (map (Pair False) bs))"
  have "captured (?run buffers) = take (max full 1) (map scale_sample (concat buffers)) \<and>
      (cancelled (?run buffers) \<longleftrightarrow> max full 1 \<le> length (concat buffers))"
  proof (induction buffers rule: rev_induct)
    case (snoc b bs)
    have step: "?run (bs @ [b]) = fst (input_callback full (?run bs) (False, b))"
      by (simp add: run_machine_append split_beta)
    show ?case
    proof (cases "cancelled (?run bs)")
      case True
      then show ?thesis
        unfolding step callback_cases(1) [OF True] using snoc by simp
    next
      case False
      then have "length (captured (?run bs)) < max full 1"
        using snoc by (auto simp: max_def)
      from take_samples_result [OF False this, of b] show ?thesis
        unfolding step callback_cases(2) [OF False] using snoc False by (auto simp: max_def)
    qed
  qed (simp add: input_start_def max_def)
  moreover have "list_all (\<lambda>n. - 32767 \<le> n \<and> n \<le> 32767) (take k (map scale_sample vs))" for k vs
    using scale_sample_range by (auto simp: list_all_iff dest!: in_set_takeD)
  ultimately show ?thesis
    by (simp add: Let_def)
qed

text \<open>The thread stops recording at the latest in the round after the longest duration has passed.\<close>
lemma recording_thread_ends:
  assumes "\<And>k. k < length rounds \<Longrightarrow> 25 * k \<le> snd (rounds ! k)" and "max_ms div 25 + 1 < length rounds"
  shows "wait_recording max_ms rounds \<noteq> None"
proof -
  have "wait_recording max_ms rounds = None \<Longrightarrow> (c, e) \<in> set rounds \<Longrightarrow> e < max_ms" for c e
    by (induction max_ms rounds rule: wait_recording.induct) (auto split: if_splits)
  moreover have "rounds ! (max_ms div 25 + 1) \<in> set rounds"
    using assms(2) by simp
  moreover have "max_ms \<le> snd (rounds ! (max_ms div 25 + 1))"
    using assms(1) [of "max_ms div 25 + 1"] assms(2) by simp
  ultimately show ?thesis
    by (metis leD prod.collapse)
qed

section \<open>What is written\<close>

lemma pad_to_blocks_props:
  assumes "0 < block"
  shows "length (pad_to_blocks block xs) mod block = 0"
    and "take (length xs) (pad_to_blocks block xs) = xs"
    and "list_all (\<lambda>n. n = 0) (drop (length xs) (pad_to_blocks block xs))"
    and "length (pad_to_blocks block xs) < length xs + block"
proof -
  let ?n = "length xs"
  define up where "up = (?n + block - 1) div block"
  have up: "?n \<le> up * block" "up * block < ?n + block"
  proof -
    have eq: "?n + block - 1 = up * block + (?n + block - 1) mod block"
      by (simp add: up_def)
    moreover have "(?n + block - 1) mod block < block"
      using assms by simp
    ultimately show "?n \<le> up * block" "up * block < ?n + block"
      using assms by linarith+
  qed
  have pad: "pad_to_blocks block xs = (if ?n mod block = 0 then xs else xs @ replicate (up * block - ?n) 0)"
    using assms by (simp add: pad_to_blocks_def up_def)
  have len: "length (pad_to_blocks block xs) = (if ?n mod block = 0 then ?n else up * block)"
    using up by (simp add: pad)
  then show "length (pad_to_blocks block xs) mod block = 0"
    by simp
  show "length (pad_to_blocks block xs) < ?n + block"
    using len up assms by simp
  show "take ?n (pad_to_blocks block xs) = xs" "list_all (\<lambda>n. n = 0) (drop ?n (pad_to_blocks block xs))"
    by (simp_all add: pad list_all_iff)
qed

text \<open>The length of a recording is that of what was said, without the padding, rounded down.\<close>

lemma duration_exact:
  assumes "0 < unat (channels config)" and "0 < unat (audio_sample_rate_hz config)"
    and "count div unat (channels config) * 1000 < 2 ^ 64" and "count < 2 ^ 64"
  shows "unat (recording_duration_ms config count) =
    count div unat (channels config) * 1000 div unat (audio_sample_rate_hz config)"
proof -
  have up: "unat (ucast w :: u64) = unat w" if "LENGTH('a) \<le> 64" for w :: "'a::len word"
  proof -
    have "unat w < 2 ^ LENGTH('a)"
      by (rule unsigned_less)
    also have "(2 :: nat) ^ LENGTH('a) \<le> 2 ^ 64"
      using that by (rule power_increasing) simp
    finally show ?thesis
      by (simp add: unsigned_ucast_eq take_bit_nat_eq_self)
  qed
  have c: "unat (max (ucast (channels config)) 1 :: u64) = unat (channels config)"
    using assms(1) by (simp add: max_def word_le_nat_alt up)
  have r: "unat (max (ucast (audio_sample_rate_hz config)) 1 :: u64) = unat (audio_sample_rate_hz config)"
    using assms(2) by (simp add: max_def word_le_nat_alt up)
  define frames :: u64 where "frames = of_nat (min count (2 ^ 64 - 1)) div max (ucast (channels config)) 1"
  have count: "unat (of_nat count :: u64) = count"
    using assms(4) by (simp add: unat_of_nat take_bit_nat_eq_self)
  have f: "unat frames = count div unat (channels config)"
    using assms(4) by (simp add: frames_def unat_div c count min_absorb1)
  have "unat (saturating_mul frames 1000) = count div unat (channels config) * 1000"
    using assms(3) by (simp add: saturating_mul_def f unat_word_ariths)
  then show ?thesis
    unfolding recording_duration_ms_def Let_def frames_def [symmetric] unat_div r by simp
qed

text \<open>C13. Finalizing a recording is atomic: whichever step fails or is the last before a crash, no other file
  of the directory is touched, and under its final name the recording is absent, as it was, or
  complete; success means it is there whole, under the hash and with the size that the handle says,
  and no temporary file is left.\<close>
theorem finalize_atomic:
  fixes pid :: nat and ns :: u64
  assumes "\<not> is_hidden (recording_file_name (hex_sha256 encoded))"
    and "encode_recording usize_max enc config xs = Inr encoded"
  defines "final \<equiv> recording_file_name (hex_sha256 encoded)"
    and "temp \<equiv> recording_temp_name pid ns"
  shows "let (d', r) = finalize_recording usize_max enc hex_sha256 (pid, ns) fault config xs d
    in (map_of d')(temp := None, final := None) = (map_of d)(temp := None, final := None) \<and>
       map_of d' final \<in> {map_of d final, Some (file_bytes encoded)} \<and>
       (case r of
          Inl _ \<Rightarrow> fault \<noteq> NoFinalizeFault
        | Inr h \<Rightarrow> fault = NoFinalizeFault \<and> map_of d' final = Some (file_bytes encoded) \<and> map_of d' temp = None \<and>
            handle_sha256 h = hex_sha256 encoded \<and> handle_path h = join_path (audio_recordings_dir config) final \<and>
            (if length encoded < 2 ^ 64 then unat (handle_size_bytes h) = length encoded else True))"
proof -
  have "is_hidden temp"
    by (simp add: temp_def recording_temp_name_def is_hidden_def)
  then have "temp \<noteq> final"
    using assms(1) by (auto simp: final_def)
  then show ?thesis
    unfolding finalize_recording_def Let_def assms(2) final_def [symmetric] temp_def [symmetric]
    by (cases fault)
      (auto simp: assms(2) final_def [symmetric] temp_def [symmetric] fun_eq_iff map_of_write map_of_rename_new
        write_write min_absorb1 unat_of_nat take_bit_nat_eq_self)
qed

theorem finalize_atomic_witness:
  "let (d', r) = finalize_recording 100 \<lparr>block_size = 2, encode = \<lambda>_ _ xs. Inr (map (\<lambda>x. of_int x) xs, [])\<rparr>
       (\<lambda>_. ''ab'') (1, 2) (DirectorySyncFails ''EIO'') audio_config_default [7] [] in isl r \<and> map_of d' ''ab.flac'' \<noteq> None"
proof -
  have enc: "encode_recording 100 \<lparr>block_size = 2, encode = \<lambda>_ _ xs. Inr (map (\<lambda>x. of_int x) xs, [])\<rparr>
      audio_config_default [7] = Inr [7, 0]"
    by (simp add: encode_recording_def pad_to_blocks_def audio_config_default_def rewrite_frame_sample_rates_def
        sample_rate_code_def flac_magic_def Let_def)
  have "map_of (fst (finalize_recording 100 \<lparr>block_size = 2, encode = \<lambda>_ _ xs. Inr (map (\<lambda>x. of_int x) xs, [])\<rparr>
       (\<lambda>_. ''ab'') (1, 2) (DirectorySyncFails ''EIO'') audio_config_default [7] [])) ''ab.flac'' \<noteq> None"
    by (simp add: finalize_recording_def enc Let_def recording_file_name_def map_of_rename_new)
  then show ?thesis
    using finalize_atomic [where ?hex_sha256.0 = "\<lambda>_. ''ab''" and pid = 1 and ns = 2 and d = "[]"
        and fault = "DirectorySyncFails ''EIO''", OF _ enc]
    by (auto simp: recording_file_name_def is_hidden_def split_beta Let_def split: sum.splits)
qed

text \<open>What reaches the disk plays everywhere: when the encoder delivers a stream of whole frames that leave
  the sample rate to the stream header, every frame of the finished recording's file names the rate
  itself and has the right checksums, and its audio is what the encoder made.\<close>
theorem recorded_files_name_their_rate:
  assumes "\<not> is_hidden (recording_file_name (hex_sha256 encoded))"
    and "encode enc (channels config) (audio_sample_rate_hz config)
      (pad_to_blocks (block_size enc * unat (channels config)) xs) = Inr (stream, lens)"
    and "rewritable usize_max stream lens (audio_sample_rate_hz config)"
    and "encoded = fst (rewrite_frame_sample_rates usize_max stream lens (audio_sample_rate_hz config))"
  shows "\<exists>code h d'. sample_rate_code (audio_sample_rate_hz config) = Some code \<and>
    finalize_recording usize_max enc hex_sha256 stamp NoFinalizeFault config xs d = (d', Inr h) \<and>
    map_of d' (recording_file_name (handle_sha256 h)) = Some (file_bytes encoded) \<and>
    list_all (\<lambda>f. header_valid code f \<and> crc16 f = 0) (slices encoded lens (length encoded - sum_list lens)) \<and>
    map payload (slices encoded lens (length encoded - sum_list lens)) =
      map payload (slices stream lens (length stream - sum_list lens)) \<and>
    take (length stream - sum_list lens) encoded = take (length stream - sum_list lens) stream"
proof -
  obtain code where code: "sample_rate_code (audio_sample_rate_hz config) = Some code"
    using assms(3) by (auto simp: rewritable_def)
  have enc: "encode_recording usize_max enc config xs = Inr encoded"
    by (simp add: encode_recording_def assms(2,4))
  have len: "length encoded = length stream"
    and slices: "slices encoded lens (length stream - sum_list lens) = rewritten_frames code stream lens"
    and head: "take (length stream - sum_list lens) encoded = take (length stream - sum_list lens) stream"
    using slices_rewritten [OF assms(3) code] by (simp_all add: assms(4))
  have temp: "is_hidden (recording_temp_name (fst stamp) (snd stamp))"
    by (simp add: recording_temp_name_def is_hidden_def)
  then have "recording_temp_name (fst stamp) (snd stamp) \<noteq> recording_file_name (hex_sha256 encoded)"
    using assms(1) by auto
  then show ?thesis
    using rewritten_frames_valid(1,2) [OF assms(3) code] code head
    by (auto simp: finalize_recording_def enc Let_def map_of_rename_new write_write len slices list_all_iff
        footer_valid_residue)
qed

theorem recorded_files_name_their_rate_witness:
  "\<exists>h d'. finalize_recording 100 \<lparr>block_size = 0, encode = \<lambda>_ _ _. Inr (sample_stream, [9])\<rparr> (\<lambda>_. ''ab'') (1, 2)
     NoFinalizeFault (audio_config_default\<lparr>audio_sample_rate_hz := 44100\<rparr>) [7] [] = (d', Inr h)"
  using recorded_files_name_their_rate [where ?hex_sha256.0 = "\<lambda>_. ''ab''" and usize_max = 100 and stream = sample_stream
      and enc = "\<lparr>block_size = 0, encode = \<lambda>_ _ _. Inr (sample_stream, [9])\<rparr>" and lens = "[9]" and xs = "[7]"
      and config = "audio_config_default\<lparr>audio_sample_rate_hz := 44100\<rparr>" and stamp = "(1, 2)" and d = "[]",
      OF _ _ _ refl] sample_stream_rewritable
  by (auto simp: recording_file_name_def is_hidden_def)

section \<open>Finding a recording again\<close>

lemma path_of_unfold:
  "path_of utf8_error False rid (src, store) =
     (case finished_handles src rid of
        Some h \<Rightarrow> Inr (handle_path h)
      | None \<Rightarrow> (case lookup_key (recording_path_key rid) store of
          None \<Rightarrow> Inl (Source (''unknown recording id '' @ rid))
        | Some bytes \<Rightarrow> (case utf8_error bytes of
            None \<Rightarrow> Inr bytes
          | Some err \<Rightarrow> Inl (AudioError.Io (''recording path metadata for '' @ rid @ '' is not utf-8: '' @ err)))))"
  by (simp add: path_of_def storage_get_def lookup_key_eq Let_def split: option.split)

lemma recording_path_key_inj: "recording_path_key a = recording_path_key b \<longleftrightarrow> a = b"
  by (simp add: recording_path_key_def)

text \<open>C20. A recording is found again until it is cleaned up: once \<open>stop\<close> has returned it, its path and duration
  are known, whatever became of its entry in the store; after a restart the path is still known if
  the entry was stored; and once it has been cleaned up it is unknown, then and after a restart. No
  other recording is affected by any of this.\<close>
theorem recording_found_again:
  assumes "active_recording src = Some t" and "(case recording_ends t of Some r \<Rightarrow> r | None \<Rightarrow> late) = Inr h"
    and "utf8_error (handle_path h) = None"
  shows "let (sd, r) = stop_recording late fault stamp (src, store);
        (sd', r') = cleanup_recording False (handle_sha256 h) sd
    in r = Inr (Some h) \<and> active_recording (fst sd) = None \<and>
       path_of utf8_error False (handle_sha256 h) sd = Inr (handle_path h) \<and>
       duration_of (handle_sha256 h) (fst sd) = Some (handle_duration_ms h) \<and>
       (if fault = NoIoFault
        then path_of utf8_error False (handle_sha256 h) (source_new, snd sd) = Inr (handle_path h) else True) \<and>
       r' = Inr () \<and>
       path_of utf8_error False (handle_sha256 h) sd' = Inl (Source (''unknown recording id '' @ handle_sha256 h)) \<and>
       path_of utf8_error False (handle_sha256 h) (source_new, snd sd') =
         Inl (Source (''unknown recording id '' @ handle_sha256 h)) \<and>
       (\<forall>other. if other = handle_sha256 h then True
          else path_of utf8_error False other sd = path_of utf8_error False other (src, store) \<and>
            path_of utf8_error False other sd' = path_of utf8_error False other (src, store))"
proof -
  obtain pid ns where stamp: "stamp = (pid, ns)"
    by (cases stamp)
  define key where "key = recording_path_key (handle_sha256 h)"
  define store1 where "store1 = fst (storage_set fault (temp_name pid ns) key (handle_path h) store)"
  define store2 where "store2 = fst (storage_delete False key store1)"
  define src1 where "src1 = src\<lparr>active_recording := None,
      finished_handles := (finished_handles src)(handle_sha256 h \<mapsto> h)\<rparr>"
  define src2 where "src2 = src1\<lparr>finished_handles := (finished_handles src1)(handle_sha256 h := None)\<rparr>"
  have stop: "stop_recording late fault stamp (src, store) = ((src1, store1), Inr (Some h))"
    using assms(1,2)
    by (simp add: stop_recording_def stamp src1_def store1_def key_def persist_recording_handle_def Let_def)
  have clean: "cleanup_recording False (handle_sha256 h) (src1, store1) = ((src2, store2), Inr ())"
    by (simp add: cleanup_recording_def src2_def store2_def key_def storage_delete_def Let_def)
  have look1: "lookup_key k store1 =
      (if fault \<noteq> TempWriteFails \<and> fault \<noteq> TempRenameFails \<and> k = key then Some (handle_path h) else lookup_key k store)" for k
    by (simp add: store1_def lookup_after_set)
  have look2: "lookup_key k store2 = (if k = key then None else lookup_key k store1)" for k
    by (simp add: store2_def lookup_after_delete)
  have other: "recording_path_key rid = key \<longleftrightarrow> rid = handle_sha256 h" for rid
    by (simp add: key_def recording_path_key_inj)
  show ?thesis
    using assms(3) unfolding stop clean Let_def split_beta fst_conv snd_conv
    by (auto simp: path_of_unfold look1 look2 other src1_def src2_def source_new_def duration_of_def split: option.split)
qed

theorem recording_found_again_witness:
  "let (sd, r) = stop_recording (Inl (Device ''late'')) TempRenameFails (1, 2)
       (source_new\<lparr>active_recording := Some \<lparr>recording_ends =
          Some (Inr \<lparr>handle_sha256 = ''ab'', handle_size_bytes = 4, handle_duration_ms = 9, handle_path = ''/r/ab.flac''\<rparr>)\<rparr>\<rparr>, [])
   in path_of (\<lambda>_. None) False ''ab'' sd = Inr ''/r/ab.flac''"
  using recording_found_again [where utf8_error = "\<lambda>_. None" and fault = TempRenameFails and stamp = "(1, 2)"
      and late = "Inl (Device ''late'')" and store = "[]"
      and h = "\<lparr>handle_sha256 = ''ab'', handle_size_bytes = 4, handle_duration_ms = 9, handle_path = ''/r/ab.flac''\<rparr>"
      and t = "\<lparr>recording_ends = Some (Inr \<lparr>handle_sha256 = ''ab'', handle_size_bytes = 4, handle_duration_ms = 9, handle_path = ''/r/ab.flac''\<rparr>)\<rparr>"
      and src = "source_new\<lparr>active_recording := Some \<lparr>recording_ends =
          Some (Inr \<lparr>handle_sha256 = ''ab'', handle_size_bytes = 4, handle_duration_ms = 9, handle_path = ''/r/ab.flac''\<rparr>)\<rparr>\<rparr>"]
  by (simp add: split_beta Let_def)

text \<open>The id of a recording is its hash, so two recordings of silence that fill the same blocks are one:
  cleaning up after the upload of the first makes the second unknown.\<close>
lemma same_blocks_same_recording:
  assumes "0 < block_size enc * unat (channels config)"
    and "pad_to_blocks (block_size enc * unat (channels config)) xs = pad_to_blocks (block_size enc * unat (channels config)) ys"
    and "finalize_recording usize_max enc hex_sha256 stamp NoFinalizeFault config xs d = (d1, Inr h)"
    and "finalize_recording usize_max enc hex_sha256 stamp' NoFinalizeFault config ys d' = (d1', Inr h')"
  shows "handle_sha256 h = handle_sha256 h' \<and> handle_path h = handle_path h'"
proof -
  have "encode_recording usize_max enc config xs = encode_recording usize_max enc config ys"
    by (simp add: encode_recording_def assms(2))
  then show ?thesis
    using assms(3,4) by (auto simp: finalize_recording_def Let_def split: sum.splits)
qed

text \<open>\<open>start\<close> is refused while a recording runs, and only then; \<open>stop\<close> makes room even when it fails.\<close>
lemma one_recording_at_a_time:
  "active_recording (fst (start_recording ns src)) \<noteq> None"
  "isl (snd (start_recording ns src)) \<longleftrightarrow> active_recording src \<noteq> None"
  "active_recording (fst (fst (stop_recording late fault stamp (src, store)))) = None"
  by (simp_all add: start_recording_def stop_recording_def Let_def split: option.split sum.split)

end
