(* ===== verification/Metrics.thy ===== *)
theory Metrics
  imports Sessions OperatorClient Complex_Main "HOL-Library.List_Lexorder" "HOL-Library.Char_ord"
begin

text \<open>
  \<open>crates/booth-metrics/src/lib.rs\<close>: the sampler of host vitals and what it and the telemetry events
  write to the metrics registry. The registry (metrics, metrics-exporter-prometheus) is outside; what
  the code asks of it is a list of operations on series, a series being a name with its labels.
  Values stay in the type they have before the conversion to \<open>f64\<close>. sysinfo and sysfs are arguments,
  and \<open>round32\<close> is the rounding of an exact number to \<open>f32\<close>.
\<close>

section \<open>Operations on the registry\<close>

type_synonym Series = "string \<times> (string \<times> string) list"

datatype GaugeValue = Whole u64 | Single f32_bits | Double f64_bits | NotANumber

datatype Measured = MillisAsSeconds u64 | Bytes u64

datatype MetricOp =
    SetGauge Series GaugeValue
  | Increment Series
  | Absolute Series u64
  | Measure Series Measured

definition flag :: "bool \<Rightarrow> GaugeValue" where
  "flag b = Whole (if b then 1 else 0)"

definition or_nan :: "('a \<Rightarrow> GaugeValue) \<Rightarrow> 'a option \<Rightarrow> GaugeValue" where
  "or_nan f x = (case x of Some v \<Rightarrow> f v | None \<Rightarrow> NotANumber)"

section \<open>The registry handle\<close>

datatype MetricsError = AlreadyInstalled | Build string

text \<open>\<open>built\<close>: what building and installing the recorder answers. The handle is its booth id.\<close>

definition install_registry ::
    "(unit, string) result \<Rightarrow> string \<Rightarrow> string option \<Rightarrow> string option \<times> (string, MetricsError) result" where
  "install_registry built requested installed = (case installed of
     Some existing \<Rightarrow> (installed, Inr existing)
   | None \<Rightarrow> (case built of
       Inl err \<Rightarrow> (None, Inl (Build err))
     | Inr _ \<Rightarrow> (Some requested, Inr requested)))"

section \<open>Outdoor weather\<close>

record OutdoorWeatherSample =
  weather_source :: string
  observed_at_unix_seconds :: u64
  weather_fetched_at :: u64
  outdoor_temperature :: f64_bits
  apparent_temperature :: f64_bits
  relative_humidity :: f64_bits
  cloud_cover :: f64_bits
  precipitation :: f64_bits
  wind_speed :: f64_bits
  shortwave_radiation :: f64_bits
  weather_code :: u16
  condition :: string

definition OUTDOOR_WEATHER_CONDITIONS :: "string list" where
  "OUTDOOR_WEATHER_CONDITIONS =
     [''clear_sky'', ''mainly_clear'', ''partly_cloudy'', ''overcast'', ''fog'', ''rime_fog'', ''drizzle'',
      ''freezing_drizzle'', ''rain'', ''freezing_rain'', ''snowfall'', ''snow_grains'', ''rain_showers'',
      ''snow_showers'', ''thunderstorm'', ''thunderstorm_with_hail'', ''unknown'']"

definition record_outdoor_weather_gauges :: "OutdoorWeatherSample \<Rightarrow> MetricOp list" where
  "record_outdoor_weather_gauges s =
     (let gauge = (\<lambda>name value. SetGauge (name, [(''source'', weather_source s)]) value)
      in [gauge ''booth_outdoor_weather_temperature_celsius'' (Double (outdoor_temperature s)),
          gauge ''booth_outdoor_weather_apparent_temperature_celsius'' (Double (apparent_temperature s)),
          gauge ''booth_outdoor_weather_relative_humidity_percent'' (Double (relative_humidity s)),
          gauge ''booth_outdoor_weather_cloud_cover_percent'' (Double (cloud_cover s)),
          gauge ''booth_outdoor_weather_precipitation_millimeters'' (Double (precipitation s)),
          gauge ''booth_outdoor_weather_wind_speed_kilometers_per_hour'' (Double (wind_speed s)),
          gauge ''booth_outdoor_weather_shortwave_radiation_watts_per_square_meter'' (Double (shortwave_radiation s)),
          gauge ''booth_outdoor_weather_code'' (Whole (ucast (weather_code s))),
          gauge ''booth_outdoor_weather_observation_timestamp_seconds'' (Whole (observed_at_unix_seconds s)),
          gauge ''booth_outdoor_weather_last_success_timestamp_seconds'' (Whole (weather_fetched_at s)),
          gauge ''booth_outdoor_weather_fetch_success'' (flag True)] @
         map (\<lambda>c. SetGauge (''booth_outdoor_weather_condition_info'',
             [(''source'', weather_source s), (''condition'', c)]) (flag (c = condition s)))
           OUTDOOR_WEATHER_CONDITIONS)"

definition record_outdoor_weather_failure :: "string \<Rightarrow> string \<Rightarrow> MetricOp list" where
  "record_outdoor_weather_failure source reason =
     [SetGauge (''booth_outdoor_weather_fetch_success'', [(''source'', source)]) (flag False),
      Increment (''booth_outdoor_weather_fetch_failures_total'', [(''source'', source), (''reason'', reason)])]"

section \<open>Smart plugs\<close>

definition record_shelly_device_gauges :: "ShellyDeviceStats \<Rightarrow> MetricOp list" where
  "record_shelly_device_gauges s =
     (let gauge = (\<lambda>name value. SetGauge (name, [(''device'', device s)]) value)
      in [gauge ''booth_shelly_plug_up'' (flag True),
          gauge ''booth_shelly_plug_output_on'' (or_nan flag (output_on s)),
          gauge ''booth_shelly_plug_power_watts'' (or_nan Double (power_watts s)),
          gauge ''booth_shelly_plug_voltage_volts'' (or_nan Double (voltage_volts s)),
          gauge ''booth_shelly_plug_current_amperes'' (or_nan Double (current_amperes s)),
          gauge ''booth_shelly_plug_frequency_hertz'' (or_nan Double (frequency_hertz s)),
          gauge ''booth_shelly_plug_energy_watt_hours'' (or_nan Double (energy_watt_hours s)),
          gauge ''booth_shelly_plug_temperature_celsius'' (or_nan Double (shelly_temperature_celsius s))] @
         (case fetched_at_unix_seconds s of
            Some at_secs \<Rightarrow> [gauge ''booth_shelly_plug_last_success_timestamp_seconds'' (Whole at_secs)]
          | None \<Rightarrow> []))"

definition record_shelly_device_failure :: "string \<Rightarrow> string \<Rightarrow> MetricOp list" where
  "record_shelly_device_failure dev reason =
     [SetGauge (''booth_shelly_plug_up'', [(''device'', dev)]) (flag False),
      Increment (''booth_shelly_plug_fetch_failures_total'', [(''device'', dev), (''reason'', reason)])]"

section \<open>Snapshots\<close>

definition saturating_sub :: "'a::len word \<Rightarrow> 'a word \<Rightarrow> 'a word" where
  "saturating_sub a b = (if a < b then 0 else a - b)"

definition fan_default :: FanStats where
  "fan_default = \<lparr>commanded_on = None, pwm_ratio = None, rpm = None, cooling_state = None, max_cooling_state = None\<rparr>"

definition record_snapshot_gauges :: "SystemSnapshot \<Rightarrow> MetricOp list" where
  "record_snapshot_gauges s =
     (let gauge = (\<lambda>name value. SetGauge (name, []) value);
          small = (\<lambda>n :: u32. Whole (ucast n));
          fan_now = (case fan s of Some f \<Rightarrow> f | None \<Rightarrow> fan_default)
      in (case temperature_celsius s of Some t \<Rightarrow> [gauge ''booth_cpu_temperature_celsius'' (Single t)] | None \<Rightarrow> []) @
         [gauge ''booth_fan_available'' (flag (fan s \<noteq> None)),
          gauge ''booth_fan_tachometer_available'' (flag (rpm fan_now \<noteq> None)),
          gauge ''booth_fan_commanded_on'' (or_nan flag (commanded_on fan_now)),
          gauge ''booth_fan_pwm_ratio'' (or_nan Single (pwm_ratio fan_now)),
          gauge ''booth_fan_speed_rpm'' (or_nan small (rpm fan_now)),
          gauge ''booth_fan_cooling_state'' (or_nan small (cooling_state fan_now)),
          gauge ''booth_fan_max_cooling_state'' (or_nan small (max_cooling_state fan_now))] @
         (case cpu s of
            None \<Rightarrow> []
          | Some c \<Rightarrow>
              gauge ''booth_cpu_usage_ratio'' (Single (usage_ratio c)) #
              concat (map (\<lambda>(window, la). case la of
                  Some v \<Rightarrow> [SetGauge (''booth_load_average'', [(''window'', window)]) (Single v)] | None \<Rightarrow> [])
                [(''1m'', load_avg_1m c), (''5m'', load_avg_5m c), (''15m'', load_avg_15m c)])) @
         (case memory s of
            None \<Rightarrow> []
          | Some m \<Rightarrow>
              [gauge ''booth_memory_used_bytes'' (Whole (used_bytes m)),
               gauge ''booth_memory_total_bytes'' (Whole (total_bytes m))]) @
         concat (map (\<lambda>d.
             [SetGauge (''booth_disk_used_bytes'', [(''mountpoint'', mount_point d)])
                (Whole (saturating_sub (disk_total_bytes d) (available_bytes d))),
              SetGauge (''booth_disk_total_bytes'', [(''mountpoint'', mount_point d)]) (Whole (disk_total_bytes d))])
           (disks s)) @
         concat (map (\<lambda>n.
             [Absolute (''booth_network_receive_bytes_total'', [(''iface'', interface n)]) (receive_bytes_total n),
              Absolute (''booth_network_transmit_bytes_total'', [(''iface'', interface n)]) (transmit_bytes_total n)])
           (networks s)) @
         (case uptime_seconds s of Some u \<Rightarrow> [gauge ''booth_uptime_seconds'' (Whole u)] | None \<Rightarrow> []))"

section \<open>Telemetry\<close>

definition record_dropped_gpio_event :: "string \<Rightarrow> MetricOp list" where
  "record_dropped_gpio_event pin_role = [Increment (''booth_gpio_events_dropped_total'', [(''role'', pin_role)])]"

definition channel_label :: "AudioChannel \<Rightarrow> string" where
  "channel_label c = (case c of Input \<Rightarrow> ''input'' | Output \<Rightarrow> ''output'')"

definition call_outcome_label :: "CallOutcome \<Rightarrow> string" where
  "call_outcome_label o' = (case o' of
     HungUpBeforeDial \<Rightarrow> ''hung_up_before_dial''
   | HungUpDuringPrompt \<Rightarrow> ''hung_up_during_prompt''
   | HungUpDuringRecording \<Rightarrow> ''hung_up_during_recording''
   | HungUpDuringUpload \<Rightarrow> ''hung_up_during_upload''
   | RecordingCompleted \<Rightarrow> ''recording_completed''
   | CallOutcome.RecordingFailed \<Rightarrow> ''recording_failed''
   | CallOutcome.UploadFailed \<Rightarrow> ''upload_failed''
   | CallOutcome.OperatorError \<Rightarrow> ''operator_error''
   | Aborted \<Rightarrow> ''aborted'')"

definition record_telemetry_event :: "TelemetryEvent \<Rightarrow> MetricOp list" where
  "record_telemetry_event event = (case event of
     TelemetryEvent.DigitDialed digit _ _ \<Rightarrow> [Increment (''booth_digits_dialed_total'', [(''digit'', show_word digit)])]
   | StateTransition f t _ _ \<Rightarrow> [Increment (''booth_state_transitions_total'', [(''from'', f), (''to'', t)])]
   | AudioLevelEvent l \<Rightarrow>
       [SetGauge (''booth_audio_peak_amplitude'', [(''channel'', channel_label (channel l))]) (Single (peak l)),
        SetGauge (''booth_audio_rms_amplitude'', [(''channel'', channel_label (channel l))]) (Single (rms l))]
   | OperatorResponse _ code took \<Rightarrow>
       [Increment (''booth_operator_requests_total'', [(''status_class'', show_word (code div 100) @ ''xx'')]),
        Measure (''booth_operator_request_duration_seconds'', []) (MillisAsSeconds took)]
   | TelemetryEvent.Error source _ \<Rightarrow> [Increment (''booth_errors_total'', [(''source'', source)])]
   | CallStarted _ _ \<Rightarrow> [Increment (''booth_calls_started_total'', [])]
   | CallEnded _ outcome _ _ \<Rightarrow> [Increment (''booth_calls_total'', [(''outcome'', call_outcome_label outcome)])]
   | RecordingStopped _ _ took _ _ \<Rightarrow> [Measure (''booth_recording_duration_seconds'', []) (MillisAsSeconds took)]
   | UploadCompleted _ _ took n _ \<Rightarrow>
       [Measure (''booth_upload_duration_seconds'', [(''outcome'', ''completed'')]) (MillisAsSeconds took),
        Measure (''booth_upload_bytes'', []) (Bytes n)]
   | TelemetryEvent.UploadFailed _ _ _ _ \<Rightarrow>
       [Increment (''booth_upload_failures_total'', [(''reason'', ''upload_failed'')])]
   | _ \<Rightarrow> [])"

section \<open>The sampler\<close>

record SystemSampler =
  audio_stats :: AudioDeviceStats
  sampler_mode :: "RuntimeMode option"
  shelly_readings :: "ShellyDeviceStats list"

definition sampler_new :: SystemSampler where
  "sampler_new =
     \<lparr>audio_stats = \<lparr>input_device = None, output_device = None, sample_rate_hz = None\<rparr>,
      sampler_mode = None, shelly_readings = []\<rparr>"

definition set_runtime_mode :: "RuntimeMode \<Rightarrow> SystemSampler \<Rightarrow> SystemSampler \<times> MetricOp list" where
  "set_runtime_mode m sampler =
     (sampler\<lparr>sampler_mode := Some m\<rparr>,
      [SetGauge (''booth_info'', [(''mode'', runtime_mode_str m)]) (flag True)])"

definition record_audio_device :: "AudioChannel \<Rightarrow> string \<Rightarrow> SystemSampler \<Rightarrow> SystemSampler" where
  "record_audio_device c n sampler =
     sampler\<lparr>audio_stats := (case c of
        Input \<Rightarrow> (audio_stats sampler)\<lparr>input_device := Some n\<rparr>
      | Output \<Rightarrow> (audio_stats sampler)\<lparr>output_device := Some n\<rparr>)\<rparr>"

fun put_reading :: "ShellyDeviceStats \<Rightarrow> ShellyDeviceStats list \<Rightarrow> ShellyDeviceStats list" where
  "put_reading r [] = [r]"
| "put_reading r (x # xs) = (if device x = device r then r # xs else x # put_reading r xs)"

definition record_shelly_device :: "ShellyDeviceStats \<Rightarrow> SystemSampler \<Rightarrow> SystemSampler" where
  "record_shelly_device r sampler = sampler\<lparr>shelly_readings := put_reading r (shelly_readings sampler)\<rparr>"

text \<open>What sysfs says: the paths a directory lists and the text of a file.\<close>

record Sysfs =
  list_dir :: "string \<Rightarrow> string list option"
  read_text :: "string \<Rightarrow> string option"

definition parse_i32 :: "string \<Rightarrow> int option" where
  "parse_i32 s = (case s of
     CHR ''-'' # ds \<Rightarrow>
       (if ds = [] \<or> hd ds = CHR ''+'' then None
        else map_option (\<lambda>n. - int n) (parse_unsigned (2 ^ 31) ds))
   | _ \<Rightarrow> map_option int (parse_unsigned (2 ^ 31 - 1) s))"

definition read_cpu_temp_celsius :: "(rat \<Rightarrow> f32_bits) \<Rightarrow> Sysfs \<Rightarrow> f32_bits option" where
  "read_cpu_temp_celsius round32 fs = (case read_text fs ''/sys/class/thermal/thermal_zone0/temp'' of
     None \<Rightarrow> None
   | Some raw \<Rightarrow> map_option (\<lambda>millis. round32 (of_int millis / 1000)) (parse_i32 (trim raw)))"

definition find_sysfs_device :: "Sysfs \<Rightarrow> string \<Rightarrow> string \<Rightarrow> string \<Rightarrow> string option" where
  "find_sysfs_device fs base marker expected = (case list_dir fs base of
     None \<Rightarrow> None
   | Some entries \<Rightarrow>
       List.find (\<lambda>e. case read_text fs (e @ ''/'' @ marker) of
           Some value \<Rightarrow> trim value = expected | None \<Rightarrow> False) entries)"

definition read_sysfs_u32 :: "Sysfs \<Rightarrow> string \<Rightarrow> u32 option" where
  "read_sysfs_u32 fs file =
     (case read_text fs file of
        None \<Rightarrow> None
      | Some raw \<Rightarrow> map_option of_nat (parse_unsigned (2 ^ 32 - 1) (trim raw)))"

definition read_fan_stats :: "(rat \<Rightarrow> f32_bits) \<Rightarrow> Sysfs \<Rightarrow> FanStats option" where
  "read_fan_stats round32 fs =
     (let hwmon = find_sysfs_device fs ''/sys/class/hwmon'' ''name'' ''pwmfan'';
          cooling = find_sysfs_device fs ''/sys/class/thermal'' ''type'' ''pwm-fan'';
          value = (\<lambda>dev file. case dev of None \<Rightarrow> None | Some d \<Rightarrow> read_sysfs_u32 fs (d @ ''/'' @ file));
          pwm_level = value hwmon ''pwm1''
      in if hwmon = None \<and> cooling = None then None
         else Some \<lparr>commanded_on = map_option (\<lambda>l. 0 < l) pwm_level,
           pwm_ratio = map_option (\<lambda>l. round32 (of_nat (unat (min l 255)) / 255)) pwm_level,
           rpm = value hwmon ''fan1_input'',
           cooling_state = value cooling ''cur_state'',
           max_cooling_state = value cooling ''max_state''\<rparr>)"

text \<open>
  sysinfo's answers. Memory, disks and process are read as they are; a load average that is no
  finite number is \<open>None\<close>; the addresses of an interface come in any order and more than once.
\<close>

record Sysinfo =
  cpu_usages :: "rat list"             \<comment> \<open>per cent\<close>
  load_averages :: "rat option \<times> rat option \<times> rat option"
  sys_memory :: MemoryStats
  sys_disks :: "DiskStats list"
  sys_networks :: "NetworkStats list"
  sys_uptime :: u64
  sys_process :: "ProcessStats option"

definition cpu_stats :: "(rat \<Rightarrow> f32_bits) \<Rightarrow> Sysinfo \<Rightarrow> CpuStats" where
  "cpu_stats round32 sys =
     (let per_core = map (\<lambda>u. min (max (u / 100) 0) 1) (cpu_usages sys);
          (one, five, fifteen) = load_averages sys
      in \<lparr>usage_ratio = round32 (if per_core = [] then 0 else sum_list per_core / of_nat (length per_core)),
          per_core_usage_ratio = map round32 per_core,
          physical_cores = of_nat (length (cpu_usages sys)),
          load_avg_1m = map_option round32 one,
          load_avg_5m = map_option round32 five,
          load_avg_15m = map_option round32 fifteen\<rparr>)"

definition network_stats :: "NetworkStats list \<Rightarrow> NetworkStats list" where
  "network_stats = map (\<lambda>n. n\<lparr>addresses := remdups_adj (sort (addresses n))\<rparr>)"

definition sample_once :: "(rat \<Rightarrow> f32_bits) \<Rightarrow> Sysfs \<Rightarrow> Sysinfo \<Rightarrow> SystemSampler \<Rightarrow> SystemSnapshot" where
  "sample_once round32 fs sys sampler =
     \<lparr>cpu = Some (cpu_stats round32 sys), temperature_celsius = read_cpu_temp_celsius round32 fs,
      memory = Some (sys_memory sys), disks = sys_disks sys, networks = network_stats (sys_networks sys),
      uptime_seconds = Some (sys_uptime sys), process = sys_process sys, audio = Some (audio_stats sampler),
      tailscale = None, throttling = None, fan = read_fan_stats round32 fs,
      runtime_mode = sampler_mode sampler, shelly = shelly_readings sampler\<rparr>"

text \<open>A turn of the sampling task: the gauges it sets and the event it publishes at \<open>now_ns\<close>.\<close>

definition sampler_tick ::
    "(rat \<Rightarrow> f32_bits) \<Rightarrow> Sysfs \<Rightarrow> Sysinfo \<Rightarrow> u64 \<Rightarrow> SystemSampler \<Rightarrow> MetricOp list \<times> TelemetryEvent" where
  "sampler_tick round32 fs sys now_ns sampler =
     (let snapshot = sample_once round32 fs sys sampler
      in (record_snapshot_gauges snapshot, SystemSample snapshot now_ns))"

text \<open>The consumer of telemetry: what its receiver yields.\<close>

datatype ConsumerInput = GotRecord TelemetryEvent | FellBehind nat | BusClosed

fun telemetry_consumer :: "ConsumerInput list \<Rightarrow> SystemSampler \<Rightarrow> SystemSampler \<times> MetricOp list" where
  "telemetry_consumer [] sampler = (sampler, [])"
| "telemetry_consumer (BusClosed # _) sampler = (sampler, [])"
| "telemetry_consumer (FellBehind _ # inputs) sampler = telemetry_consumer inputs sampler"
| "telemetry_consumer (GotRecord event # inputs) sampler =
     (let sampler1 = (case event of AudioDeviceChange n c \<Rightarrow> record_audio_device c n sampler | _ \<Rightarrow> sampler);
          (sampler2, ops) = telemetry_consumer inputs sampler1
      in (sampler2, record_telemetry_event event @ ops))"

section \<open>What the counters count\<close>

definition increments :: "Series \<Rightarrow> MetricOp list \<Rightarrow> nat" where
  "increments series ops = length (filter (\<lambda>op. op = Increment series) ops)"

lemma increments_simps [simp]:
  "increments series [] = 0"
  "increments series (op # ops) = (if op = Increment series then 1 else 0) + increments series ops"
  "increments series (ops @ ops') = increments series ops + increments series ops'"
  by (simp_all add: increments_def)

text \<open>The labels of outcomes are the tags the operator gets, so distinct outcomes have distinct series.\<close>

lemma call_outcome_label_str: "call_outcome_label o' = call_outcome_str o'"
  by (simp add: call_outcome_label_def call_outcome_str_def split: CallOutcome.split)

text \<open>The records the consumer sees before the bus closes.\<close>

fun seen :: "ConsumerInput list \<Rightarrow> TelemetryEvent list" where
  "seen [] = []"
| "seen (BusClosed # _) = []"
| "seen (FellBehind _ # inputs) = seen inputs"
| "seen (GotRecord event # inputs) = event # seen inputs"

lemma consumer_ops: "snd (telemetry_consumer inputs sampler) = concat (map record_telemetry_event (seen inputs))"
  by (induction inputs sampler rule: telemetry_consumer.induct) (simp_all add: split_beta Let_def)

lemma show_word_inj: "show_word a = show_word b \<longleftrightarrow> a = b"
  by (simp add: show_word_def show_nat_inj word_unat_eq_iff)

text \<open>The counters count what happened: over the records the consumer receives, whatever it misses, each
  series of digits, transitions, errors, started and ended calls goes up once for every event of its
  own labels and for no other.\<close>
theorem counters_count_events:
  "let ops = snd (telemetry_consumer inputs sampler);
       count = (\<lambda>p. length (filter p (seen inputs)))
   in increments (''booth_digits_dialed_total'', [(''digit'', show_word d)]) ops =
        count (\<lambda>e. case e of TelemetryEvent.DigitDialed d' _ _ \<Rightarrow> d' = d | _ \<Rightarrow> False) \<and>
      increments (''booth_state_transitions_total'', [(''from'', f), (''to'', t)]) ops =
        count (\<lambda>e. case e of StateTransition f' t' _ _ \<Rightarrow> f' = f \<and> t' = t | _ \<Rightarrow> False) \<and>
      increments (''booth_errors_total'', [(''source'', source)]) ops =
        count (\<lambda>e. case e of TelemetryEvent.Error source' _ \<Rightarrow> source' = source | _ \<Rightarrow> False) \<and>
      increments (''booth_calls_started_total'', []) ops =
        count (\<lambda>e. case e of CallStarted _ _ \<Rightarrow> True | _ \<Rightarrow> False) \<and>
      increments (''booth_calls_total'', [(''outcome'', call_outcome_label outcome)]) ops =
        count (\<lambda>e. case e of CallEnded _ outcome' _ _ \<Rightarrow> outcome' = outcome | _ \<Rightarrow> False)"
proof -
  have "increments (''booth_digits_dialed_total'', [(''digit'', show_word d)]) (concat (map record_telemetry_event es)) =
      length (filter (\<lambda>e. case e of TelemetryEvent.DigitDialed d' _ _ \<Rightarrow> d' = d | _ \<Rightarrow> False) es)" for es
    by (induction es) (auto simp: record_telemetry_event_def show_word_inj split: TelemetryEvent.split)
  moreover have "increments (''booth_state_transitions_total'', [(''from'', f), (''to'', t)]) (concat (map record_telemetry_event es)) =
      length (filter (\<lambda>e. case e of StateTransition f' t' _ _ \<Rightarrow> f' = f \<and> t' = t | _ \<Rightarrow> False) es)" for es
    by (induction es) (auto simp: record_telemetry_event_def split: TelemetryEvent.split)
  moreover have "increments (''booth_errors_total'', [(''source'', source)]) (concat (map record_telemetry_event es)) =
      length (filter (\<lambda>e. case e of TelemetryEvent.Error source' _ \<Rightarrow> source' = source | _ \<Rightarrow> False) es)" for es
    by (induction es) (auto simp: record_telemetry_event_def split: TelemetryEvent.split)
  moreover have "increments (''booth_calls_started_total'', []) (concat (map record_telemetry_event es)) =
      length (filter (\<lambda>e. case e of CallStarted _ _ \<Rightarrow> True | _ \<Rightarrow> False) es)" for es
    by (induction es) (auto simp: record_telemetry_event_def split: TelemetryEvent.split)
  moreover have "increments (''booth_calls_total'', [(''outcome'', call_outcome_label outcome)]) (concat (map record_telemetry_event es)) =
      length (filter (\<lambda>e. case e of CallEnded _ outcome' _ _ \<Rightarrow> outcome' = outcome | _ \<Rightarrow> False) es)" for es
    by (induction es)
      (auto simp: record_telemetry_event_def call_outcome_label_str call_outcome_str_inj split: TelemetryEvent.split)
  ultimately show ?thesis
    by (simp add: consumer_ops Let_def)
qed

text \<open>All increments of the series of a name.\<close>

definition family :: "string \<Rightarrow> MetricOp list \<Rightarrow> nat" where
  "family n ops = length (filter (\<lambda>op. case op of Increment (n', _) \<Rightarrow> n' = n | _ \<Rightarrow> False) ops)"

lemma family_simps [simp]:
  "family n [] = 0"
  "family n (Increment (n', ls) # ops) = (if n' = n then 1 else 0) + family n ops"
  by (simp_all add: family_def)

lemma brackets_None [simp]: "foldl brackets None ms = None"
  by (induction ms) simp_all

lemma brackets_balance:
  assumes "foldl brackets (Some open_before) ms = Some open_after"
  shows "family ''booth_calls_started_total'' (concat (map record_telemetry_event ms)) + (if open_before = None then 0 else 1) =
    family ''booth_calls_total'' (concat (map record_telemetry_event ms)) + (if open_after = None then 0 else 1)"
  using assms
proof (induction ms arbitrary: open_before)
  case (Cons e ms)
  show ?case
  proof (cases open_before)
    case None
    then obtain s at' where "e = CallStarted s at'"
      using Cons.prems by (cases e) auto
    then show ?thesis
      using Cons.IH [of "Some s"] Cons.prems None by (simp add: record_telemetry_event_def)
  next
    case (Some s)
    then obtain outcome ds at' where "e = CallEnded s outcome ds at'"
      using Cons.prems by (cases e) (auto split: if_splits)
    then show ?thesis
      using Cons.IH [of None] Cons.prems Some by (simp add: record_telemetry_event_def)
  qed
qed simp

text \<open>The call counters balance: whatever telemetry the sessions are tracked on, the calls counted as started
  are those counted as ended, over all outcomes, and the one that is open.\<close>
theorem call_counters_balance:
  "case run_machine tracker_step tracker_new events of (t, markers) \<Rightarrow>
     let ops = concat (map record_telemetry_event markers)
     in family ''booth_calls_started_total'' ops =
        family ''booth_calls_total'' ops + (if current_session_id t = None then 0 else 1)"
proof -
  have "foldl brackets (Some None) (snd (run_machine tracker_step tracker_new events)) =
      Some (current_session_id (fst (run_machine tracker_step tracker_new events)))"
    using session_markers.run_tracks [of tracker_new events]
    by (simp add: tracker_new_def current_session_id_def)
  from brackets_balance [OF this] show ?thesis
    by (simp add: split_beta Let_def)
qed

section \<open>Readings and stale values\<close>

definition reading :: "string \<Rightarrow> ShellyDeviceStats list \<Rightarrow> ShellyDeviceStats option" where
  "reading d rs = map_of (map (\<lambda>r. (device r, r)) rs) d"

lemma put_reading_devices:
  "set (map device (put_reading r rs)) = insert (device r) (set (map device rs))"
  "distinct (map device rs) \<Longrightarrow> distinct (map device (put_reading r rs))"
  by (induction rs) (auto split: if_splits)

lemma reading_put: "reading d (put_reading r rs) = (if d = device r then Some r else reading d rs)"
  by (induction rs) (auto simp: reading_def)

text \<open>A snapshot holds one reading of each smart plug, the latest: after any sequence of readings the devices
  are distinct, and each has the reading recorded for it last.\<close>
theorem snapshot_has_latest_readings:
  "let s = sample_once round32 fs sys (fold record_shelly_device rs sampler_new)
   in distinct (map device (shelly s)) \<and> (\<forall>d. reading d (shelly s) = reading d (rev rs))"
proof -
  have "shelly_readings (fold record_shelly_device rs sampler) = fold put_reading rs (shelly_readings sampler)" for sampler
    by (induction rs arbitrary: sampler) (simp_all add: record_shelly_device_def)
  moreover have "distinct (map device (fold put_reading rs []))"
    by (induction rs rule: rev_induct) (simp_all add: put_reading_devices)
  moreover have "reading d (fold put_reading rs []) = reading d (rev rs)" for d
    by (induction rs rule: rev_induct) (auto simp: reading_put, simp_all add: reading_def)
  ultimately show ?thesis
    by (simp add: sample_once_def sampler_new_def Let_def)
qed

text \<open>A gauge as the operations leave it.\<close>

fun gauge_after :: "Series \<Rightarrow> MetricOp list \<Rightarrow> GaugeValue option \<Rightarrow> GaugeValue option" where
  "gauge_after series [] v = v"
| "gauge_after series (SetGauge series' w # ops) v = gauge_after series ops (if series' = series then Some w else v)"
| "gauge_after series (_ # ops) v = gauge_after series ops v"

text \<open>When the mode is set again the gauge of the old mode keeps saying that it is the mode.\<close>
lemma old_mode_still_shown:
  "let (s1, ops1) = set_runtime_mode Mock sampler; (s2, ops2) = set_runtime_mode Simulator s1
   in gauge_after (''booth_info'', [(''mode'', ''mock'')]) (ops1 @ ops2) None = Some (flag True) \<and>
      sampler_mode s2 = Some Simulator"
  by (simp add: set_runtime_mode_def runtime_mode_str_def)

lemma gauge_after_append: "gauge_after series (ops @ ops') v = gauge_after series ops' (gauge_after series ops v)"
  by (induction series ops v rule: gauge_after.induct) simp_all

lemma gauge_after_other: "(\<And>w. SetGauge series w \<notin> set ops) \<Longrightarrow> gauge_after series ops v = v"
  by (induction series ops v rule: gauge_after.induct) auto

text \<open>A temperature that can no longer be read leaves its gauge where it was, while the values of a fan
  that can no longer be read become NaN.\<close>
lemma unread_values:
  assumes "temperature_celsius s = None" and "fan s = None"
  shows "gauge_after (''booth_cpu_temperature_celsius'', []) (record_snapshot_gauges s) v = v"
    and "gauge_after (''booth_fan_speed_rpm'', []) (record_snapshot_gauges s) v = Some NotANumber"
proof -
  show "gauge_after (''booth_cpu_temperature_celsius'', []) (record_snapshot_gauges s) v = v"
    using assms by (intro gauge_after_other) (auto simp: record_snapshot_gauges_def Let_def split: option.splits)
  have "SetGauge (''booth_fan_speed_rpm'', []) w \<notin> set (drop 7 (record_snapshot_gauges s))" for w
    using assms by (auto simp: record_snapshot_gauges_def Let_def split: option.splits)
  then have "gauge_after (''booth_fan_speed_rpm'', []) (drop 7 (record_snapshot_gauges s)) u = u" for u
    by (rule gauge_after_other)
  moreover have "gauge_after (''booth_fan_speed_rpm'', []) (take 7 (record_snapshot_gauges s)) v = Some NotANumber"
    using assms by (simp add: record_snapshot_gauges_def Let_def or_nan_def fan_default_def)
  ultimately show "gauge_after (''booth_fan_speed_rpm'', []) (record_snapshot_gauges s) v = Some NotANumber"
    by (metis append_take_drop_id gauge_after_append)
qed

text \<open>A registry belongs to the first booth that installs it.\<close>
lemma registry_keeps_first:
  "install_registry built requested (Some existing) = (Some existing, Inr existing)"
  "snd (install_registry built requested None) = Inr b \<longleftrightarrow> built = Inr () \<and> b = requested"
  by (auto simp: install_registry_def split: sum.splits)

end
