(* ===== verification/Collectors.thy ===== *)
theory Collectors
  imports Metrics Config
begin

text \<open>
  The collectors of \<open>crates/booth-bin/src/weather.rs\<close> and \<open>crates/booth-bin/src/shelly.rs\<close>: each asks its
  service once a turn and reports what it learnt, or that it learnt nothing. HTTP and JSON are
  outside: an answer is its status, its declared length and its chunks; \<open>dec\<close> is the JSON decoder.
  An error is a reason, which becomes a label, and a message.
\<close>

section \<open>Reading a body\<close>

record HttpAnswer =
  answer_status :: nat
  declared_length :: "u64 option"
  answer_chunks :: "(u8 list, string) result list"

type_synonym CollectError = "string \<times> string"

fun read_rest :: "string \<Rightarrow> nat \<Rightarrow> u8 list \<Rightarrow> (u8 list, string) result list \<Rightarrow> (u8 list, CollectError) result" where
  "read_rest who limit body [] = Inr body"
| "read_rest who limit body (Inl err # cs) = Inl (''transport'', err)"
| "read_rest who limit body (Inr c # cs) =
     (if limit < length body + length c
      then Inl (''response_too_large'', who @ '' response exceeded the '' @ show_nat limit @ ''-byte limit'')
      else read_rest who limit (body @ c) cs)"

definition read_capped :: "string \<Rightarrow> nat \<Rightarrow> HttpAnswer \<Rightarrow> (u8 list, CollectError) result" where
  "read_capped who limit a =
     (case declared_length a of
        None \<Rightarrow> read_rest who limit [] (answer_chunks a)
      | Some n \<Rightarrow>
          (if limit < unat n
           then Inl (''response_too_large'', who @ '' declared a '' @ show_word n @
             ''-byte response, exceeding the '' @ show_nat limit @ ''-byte limit'')
           else read_rest who limit [] (answer_chunks a)))"

text \<open>What a request answers: an error of the transport, or a status and a body.\<close>

definition successful_body ::
    "string \<Rightarrow> nat \<Rightarrow> (HttpAnswer, string) result \<Rightarrow> (u8 list, CollectError) result" where
  "successful_body who limit outcome = (case outcome of
     Inl err \<Rightarrow> Inl (''transport'', err)
   | Inr a \<Rightarrow>
       (if 200 \<le> answer_status a \<and> answer_status a < 300 then read_capped who limit a
        else Inl (''http'', who @ '' returned HTTP '' @ show_nat (answer_status a))))"

section \<open>Weather\<close>

definition OPEN_METEO_SOURCE :: string where "OPEN_METEO_SOURCE = ''open_meteo''"
definition WEATHER_MAX_RESPONSE_BYTES :: nat where "WEATHER_MAX_RESPONSE_BYTES = 64 * 1024"

record OpenMeteoCurrent =
  om_time :: int                       \<comment> \<open>\<open>i64\<close>\<close>
  om_temperature :: f64_bits
  om_humidity :: f64_bits
  om_apparent :: f64_bits
  om_precipitation :: f64_bits
  om_code :: u16
  om_cloud_cover :: f64_bits
  om_wind_speed :: f64_bits
  om_shortwave :: f64_bits

text \<open>The order of finite \<open>f64\<close>s on their bits: the magnitude, with the sign in the top bit.\<close>

definition f64_magnitude :: "f64_bits \<Rightarrow> u64" where
  "f64_magnitude b = (if b < 0x8000000000000000 then b else b - 0x8000000000000000)"

definition f64_finite :: "f64_bits \<Rightarrow> bool" where
  "f64_finite b \<longleftrightarrow> f64_magnitude b < 0x7FF0000000000000"

definition f64_key :: "f64_bits \<Rightarrow> int" where
  "f64_key b = (if b < 0x8000000000000000 then int (unat b) else - int (unat (f64_magnitude b)))"

definition f64_within :: "f64_bits \<Rightarrow> f64_bits \<Rightarrow> f64_bits \<Rightarrow> bool" where
  "f64_within b lo hi \<longleftrightarrow> f64_finite b \<and> f64_key lo \<le> f64_key b \<and> f64_key b \<le> f64_key hi"

definition bounded ::
    "(f64_bits \<Rightarrow> string) \<Rightarrow> string \<Rightarrow> f64_bits \<Rightarrow> f64_bits \<Rightarrow> f64_bits \<Rightarrow> (f64_bits, CollectError) result" where
  "bounded show_f64 what b lo hi =
     (if f64_within b lo hi then Inr b
      else Inl (''invalid_data'', what @ '' value '' @ show_f64 b @ '' is outside '' @
        show_f64 lo @ ''..='' @ show_f64 hi))"

definition condition_for_code :: "u16 \<Rightarrow> string" where
  "condition_for_code code =
     (if code = 0 then ''clear_sky''
      else if code = 1 then ''mainly_clear''
      else if code = 2 then ''partly_cloudy''
      else if code = 3 then ''overcast''
      else if code = 45 then ''fog''
      else if code = 48 then ''rime_fog''
      else if code \<in> {51, 53, 55} then ''drizzle''
      else if code \<in> {56, 57} then ''freezing_drizzle''
      else if code \<in> {61, 63, 65} then ''rain''
      else if code \<in> {66, 67} then ''freezing_rain''
      else if code \<in> {71, 73, 75} then ''snowfall''
      else if code = 77 then ''snow_grains''
      else if 80 \<le> code \<and> code \<le> 82 then ''rain_showers''
      else if code \<in> {85, 86} then ''snow_showers''
      else if code = 95 then ''thunderstorm''
      else if code \<in> {96, 99} then ''thunderstorm_with_hail''
      else ''unknown'')"

text \<open>The bounds, as bits of \<open>f64\<close>: 0, 100, -100, 120, -120, 500, 1000 and 2000.\<close>

definition F0 :: f64_bits where "F0 = 0"
definition F100 :: f64_bits where "F100 = 0x4059000000000000"
definition Fm100 :: f64_bits where "Fm100 = 0xC059000000000000"
definition F120 :: f64_bits where "F120 = 0x405E000000000000"
definition Fm120 :: f64_bits where "Fm120 = 0xC05E000000000000"
definition F500 :: f64_bits where "F500 = 0x407F400000000000"
definition F1000 :: f64_bits where "F1000 = 0x408F400000000000"
definition F2000 :: f64_bits where "F2000 = 0x409F400000000000"

definition parse_open_meteo_response ::
    "(f64_bits \<Rightarrow> string) \<Rightarrow> (u8 list \<Rightarrow> (OpenMeteoCurrent, string) result) \<Rightarrow> u8 list \<Rightarrow> u64 \<Rightarrow>
     (OutdoorWeatherSample, CollectError) result" where
  "parse_open_meteo_response show_f64 dec body fetched_at = (case dec body of
     Inl err \<Rightarrow> Inl (''decode'', err)
   | Inr c \<Rightarrow>
       (if om_time c < 0 then Inl (''invalid_data'', ''negative observation timestamp'')
        else case List.find isl
          [bounded show_f64 ''temperature_2m'' (om_temperature c) Fm100 F100,
           bounded show_f64 ''apparent_temperature'' (om_apparent c) Fm120 F120,
           bounded show_f64 ''relative_humidity_2m'' (om_humidity c) F0 F100,
           bounded show_f64 ''cloud_cover'' (om_cloud_cover c) F0 F100,
           bounded show_f64 ''precipitation'' (om_precipitation c) F0 F1000,
           bounded show_f64 ''wind_speed_10m'' (om_wind_speed c) F0 F500,
           bounded show_f64 ''shortwave_radiation'' (om_shortwave c) F0 F2000] of
          Some (Inl e) \<Rightarrow> Inl e
        | _ \<Rightarrow> Inr \<lparr>weather_source = OPEN_METEO_SOURCE, observed_at_unix_seconds = of_int (om_time c),
            weather_fetched_at = fetched_at, outdoor_temperature = om_temperature c,
            apparent_temperature = om_apparent c, relative_humidity = om_humidity c,
            cloud_cover = om_cloud_cover c, precipitation = om_precipitation c,
            wind_speed = om_wind_speed c, shortwave_radiation = om_shortwave c,
            weather_code = om_code c, condition = condition_for_code (om_code c)\<rparr>))"

definition weather_read_response_body :: "HttpAnswer \<Rightarrow> (u8 list, CollectError) result" where
  "weather_read_response_body = read_capped ''Open-Meteo'' WEATHER_MAX_RESPONSE_BYTES"

text \<open>\<open>now_secs\<close>: the wall clock once the body is there, or why it has none.\<close>

definition fetch_current_weather ::
    "(f64_bits \<Rightarrow> string) \<Rightarrow> (u8 list \<Rightarrow> (OpenMeteoCurrent, string) result) \<Rightarrow>
     (HttpAnswer, string) result \<times> (u64, string) result \<Rightarrow> (OutdoorWeatherSample, CollectError) result" where
  "fetch_current_weather show_f64 dec input =
     (case successful_body ''Open-Meteo'' WEATHER_MAX_RESPONSE_BYTES (fst input) of
        Inl e \<Rightarrow> Inl e
      | Inr body \<Rightarrow> (case snd input of
          Inl err \<Rightarrow> Inl (''clock'', err)
        | Inr now_secs \<Rightarrow> parse_open_meteo_response show_f64 dec body now_secs))"

definition weather_turn :: "(OutdoorWeatherSample, CollectError) result \<Rightarrow> MetricOp list" where
  "weather_turn fetched = (case fetched of
     Inr s \<Rightarrow> record_outdoor_weather_gauges s
   | Inl e \<Rightarrow> record_outdoor_weather_failure OPEN_METEO_SOURCE (fst e))"

definition spawn_weather_collector :: "WeatherConfig \<Rightarrow> (unit, string) result \<Rightarrow> (f64_bits \<times> f64_bits, string) result" where
  "spawn_weather_collector config client = (case latitude config of
     None \<Rightarrow> Inl ''weather.latitude is required when weather is enabled''
   | Some lat \<Rightarrow> (case longitude config of
       None \<Rightarrow> Inl ''weather.longitude is required when weather is enabled''
     | Some lon \<Rightarrow> (case client of
         Inl _ \<Rightarrow> Inl ''build outdoor weather HTTP client'' | Inr _ \<Rightarrow> Inr (lat, lon))))"

section \<open>Smart plugs\<close>

definition SHELLY_MAX_RESPONSE_BYTES :: nat where "SHELLY_MAX_RESPONSE_BYTES = 16 * 1024"

definition starts_with :: "string \<Rightarrow> string \<Rightarrow> bool" where
  "starts_with prefix s \<longleftrightarrow> take (length prefix) s = prefix"

definition normalize_endpoint :: "string \<Rightarrow> string" where
  "normalize_endpoint e =
     (let trimmed = trim_end (\<lambda>c. c = CHR ''/'') (trim e)
      in if starts_with ''http://'' trimmed \<or> starts_with ''https://'' trimmed then trimmed
         else ''http://'' @ trimmed)"

definition shelly_url :: "string \<Rightarrow> u8 \<Rightarrow> string" where
  "shelly_url base sw = base @ ''/rpc/Switch.GetStatus?id='' @ show_word sw"

record ShellySwitchStatus =
  sw_output :: "bool option"
  sw_apower :: "f64_bits option"
  sw_voltage :: "f64_bits option"
  sw_freq :: "f64_bits option"
  sw_current :: "f64_bits option"
  sw_aenergy :: "f64_bits option option"        \<comment> \<open>\<open>total\<close>\<close>
  sw_temperature :: "f64_bits option option"    \<comment> \<open>\<open>tC\<close>\<close>

definition fetch_shelly_status ::
    "(u8 list \<Rightarrow> (ShellySwitchStatus, string) result) \<Rightarrow> string \<Rightarrow> string \<Rightarrow>
     (HttpAnswer, string) result \<times> (u64, string) result \<Rightarrow> (ShellyDeviceStats, CollectError) result" where
  "fetch_shelly_status dec base dev input =
     (case successful_body ''Shelly'' SHELLY_MAX_RESPONSE_BYTES (fst input) of
        Inl e \<Rightarrow> Inl e
      | Inr body \<Rightarrow> (case dec body of
          Inl err \<Rightarrow> Inl (''json'', err)
        | Inr p \<Rightarrow> (case snd input of
            Inl err \<Rightarrow> Inl (''clock'', err)
          | Inr now_secs \<Rightarrow> Inr \<lparr>device = dev, endpoint = Some base, output_on = sw_output p,
              power_watts = sw_apower p, voltage_volts = sw_voltage p, frequency_hertz = sw_freq p,
              current_amperes = sw_current p, energy_watt_hours = Option.bind (sw_aenergy p) id,
              shelly_temperature_celsius = Option.bind (sw_temperature p) id,
              fetched_at_unix_seconds = Some now_secs\<rparr>)))"

definition shelly_read_response_body :: "HttpAnswer \<Rightarrow> (u8 list, CollectError) result" where
  "shelly_read_response_body = read_capped ''Shelly'' SHELLY_MAX_RESPONSE_BYTES"

definition shelly_turn ::
    "string \<Rightarrow> SystemSampler \<Rightarrow> (ShellyDeviceStats, CollectError) result \<Rightarrow> SystemSampler \<times> MetricOp list" where
  "shelly_turn dev sampler fetched = (case fetched of
     Inr s \<Rightarrow> (record_shelly_device s sampler, record_shelly_device_gauges s)
   | Inl e \<Rightarrow> (sampler, record_shelly_device_failure dev (fst e)))"

section \<open>What is reported\<close>

lemma read_rest_bounded:
  "read_rest who limit body cs = Inr out \<Longrightarrow> length body \<le> limit \<Longrightarrow> length out \<le> limit"
  by (induction who limit body cs rule: read_rest.induct) (auto split: if_splits)

lemma successful_body_bounded:
  "successful_body who limit r = Inr body \<Longrightarrow>
   length body \<le> limit \<and> (\<exists>a. r = Inr a \<and> 200 \<le> answer_status a \<and> answer_status a < 300)"
  by (auto simp: successful_body_def read_capped_def dest: read_rest_bounded
      split: sum.splits option.splits if_splits)

lemma condition_listed: "condition_for_code code \<in> set OUTDOOR_WEATHER_CONDITIONS"
  by (simp add: condition_for_code_def OUTDOOR_WEATHER_CONDITIONS_def)

definition plausible :: "OutdoorWeatherSample \<Rightarrow> bool" where
  "plausible s \<longleftrightarrow> weather_source s = OPEN_METEO_SOURCE \<and>
     f64_within (outdoor_temperature s) Fm100 F100 \<and> f64_within (apparent_temperature s) Fm120 F120 \<and>
     f64_within (relative_humidity s) F0 F100 \<and> f64_within (cloud_cover s) F0 F100 \<and>
     f64_within (precipitation s) F0 F1000 \<and> f64_within (wind_speed s) F0 F500 \<and>
     f64_within (shortwave_radiation s) F0 F2000 \<and> condition s \<in> set OUTDOOR_WEATHER_CONDITIONS"

lemma bounded_Inr: "isl (bounded show_f64 what b lo hi) \<longleftrightarrow> \<not> f64_within b lo hi"
  by (simp add: bounded_def)

lemma parse_plausible:
  assumes "parse_open_meteo_response show_f64 dec body at_secs = Inr s"
  shows "plausible s \<and> weather_fetched_at s = at_secs"
proof -
  obtain c where c: "dec body = Inr c"
    using assms by (auto simp: parse_open_meteo_response_def split: sum.splits)
  define checks where "checks =
      [bounded show_f64 ''temperature_2m'' (om_temperature c) Fm100 F100,
       bounded show_f64 ''apparent_temperature'' (om_apparent c) Fm120 F120,
       bounded show_f64 ''relative_humidity_2m'' (om_humidity c) F0 F100,
       bounded show_f64 ''cloud_cover'' (om_cloud_cover c) F0 F100,
       bounded show_f64 ''precipitation'' (om_precipitation c) F0 F1000,
       bounded show_f64 ''wind_speed_10m'' (om_wind_speed c) F0 F500,
       bounded show_f64 ''shortwave_radiation'' (om_shortwave c) F0 F2000]"
  have "List.find isl checks = None"
    using assms find_Some_iff [of isl checks]
    by (auto simp: parse_open_meteo_response_def c checks_def [symmetric] split: option.splits if_splits sum.splits)
  then have "list_all (\<lambda>r. \<not> isl r) checks"
    by (simp add: find_None_iff list_all_iff)
  then show ?thesis
    using assms \<open>List.find isl checks = None\<close> condition_listed [of "om_code c"]
    by (auto simp: parse_open_meteo_response_def c checks_def [symmetric] plausible_def split: if_splits)
      (simp_all add: checks_def bounded_Inr)
qed

text \<open>C21. No implausible weather is reported: a fetch succeeds only on a success status and a body within the
  cap, and then every value is a finite number in its range and the condition one of those listed, of
  which exactly one gauge is set to 1 and the others to 0.\<close>
theorem weather_is_plausible:
  assumes "fetch_current_weather show_f64 dec (r, wall) = Inr s"
  shows "plausible s \<and> (\<exists>a. r = Inr a \<and> 200 \<le> answer_status a \<and> answer_status a < 300) \<and>
    (\<forall>c. gauge_after (''booth_outdoor_weather_condition_info'', [(''source'', ''open_meteo''), (''condition'', c)])
        (weather_turn (Inr s)) v =
      (if c \<in> set OUTDOOR_WEATHER_CONDITIONS then Some (flag (c = condition s)) else v))"
proof -
  have gauges: "gauge_after (''booth_outdoor_weather_condition_info'', [(''source'', src), (''condition'', c)])
      (map (\<lambda>c. SetGauge (''booth_outdoor_weather_condition_info'', [(''source'', src), (''condition'', c)]) (flag (c = shown))) cs) u =
      (if c \<in> set cs then Some (flag (c = shown)) else u)" for src c shown cs u
    by (induction cs arbitrary: u) auto
  obtain body at_secs where body: "successful_body ''Open-Meteo'' WEATHER_MAX_RESPONSE_BYTES r = Inr body"
      and parsed: "parse_open_meteo_response show_f64 dec body at_secs = Inr s"
    using assms by (auto simp: fetch_current_weather_def split: sum.splits)
  then have "weather_source s = ''open_meteo''"
    using parse_plausible [OF parsed] by (simp add: plausible_def OPEN_METEO_SOURCE_def)
  then have "gauge_after (''booth_outdoor_weather_condition_info'', [(''source'', ''open_meteo''), (''condition'', c)])
        (weather_turn (Inr s)) v =
      (if c \<in> set OUTDOOR_WEATHER_CONDITIONS then Some (flag (c = condition s)) else v)" for c
    by (simp add: weather_turn_def record_outdoor_weather_gauges_def Let_def gauges)
  then show ?thesis
    using parse_plausible [OF parsed] successful_body_bounded [OF body] by blast
qed

definition mild :: OpenMeteoCurrent where
  "mild = \<lparr>om_time = 5, om_temperature = F100, om_humidity = F0, om_apparent = Fm100, om_precipitation = F0,
     om_code = 81, om_cloud_cover = F100, om_wind_speed = F120, om_shortwave = F500\<rparr>"

theorem weather_is_plausible_witness:
  "gauge_after (''booth_outdoor_weather_condition_info'', [(''source'', ''open_meteo''), (''condition'', ''rain_showers'')])
     (weather_turn (fetch_current_weather (\<lambda>_. []) (\<lambda>_. Inr mild)
       (Inr \<lparr>answer_status = 200, declared_length = Some 2, answer_chunks = [Inr [1, 2]]\<rparr>, Inr 7))) None = Some (flag True)"
proof -
  define s where "s = \<lparr>weather_source = ''open_meteo'', observed_at_unix_seconds = 5, weather_fetched_at = 7,
      outdoor_temperature = F100, apparent_temperature = Fm100, relative_humidity = F0, cloud_cover = F100,
      precipitation = F0, wind_speed = F120, shortwave_radiation = F500, weather_code = 81, condition = ''rain_showers''\<rparr>"
  have run: "fetch_current_weather (\<lambda>_. []) (\<lambda>_. Inr mild)
      (Inr \<lparr>answer_status = 200, declared_length = Some 2, answer_chunks = [Inr [1, 2]]\<rparr>, Inr 7) = Inr s"
    by (simp add: fetch_current_weather_def successful_body_def read_capped_def WEATHER_MAX_RESPONSE_BYTES_def
        parse_open_meteo_response_def mild_def bounded_def f64_within_def f64_finite_def f64_key_def f64_magnitude_def
        F0_def F100_def Fm100_def F120_def Fm120_def F500_def F1000_def F2000_def condition_for_code_def
        OPEN_METEO_SOURCE_def s_def)
  show ?thesis
    using weather_is_plausible [OF run, of None]
    by (simp add: run) (simp add: s_def OUTDOOR_WEATHER_CONDITIONS_def)
qed

text \<open>The latest success of a run of fetches.\<close>

definition latest_success :: "('a, CollectError) result list \<Rightarrow> 'a option" where
  "latest_success rs = (case List.find (\<lambda>r. \<not> isl r) (rev rs) of Some (Inr s) \<Rightarrow> Some s | _ \<Rightarrow> None)"

lemma latest_success_snoc:
  "latest_success (rs @ [r]) = (case r of Inr s \<Rightarrow> Some s | Inl _ \<Rightarrow> latest_success rs)"
  by (simp add: latest_success_def split: sum.split)

lemma latest_success_Nil [simp]: "latest_success [] = None"
  by (simp add: latest_success_def)

text \<open>What is known of a smart plug is what it said last: after any run of fetches, failed ones among them,
  the gauge that says it is up tells whether the last fetch succeeded, and the power shown, like the
  reading in the next snapshot, is that of the latest success.\<close>
theorem plug_shows_latest_success:
  fixes dec base dev inputs
  defines "fetched \<equiv> map (fetch_shelly_status dec base dev) inputs"
  shows "let (sampler, ops) = run_machine (shelly_turn dev) sampler_new fetched
    in gauge_after (''booth_shelly_plug_up'', [(''device'', dev)]) ops None =
         (if fetched = [] then None else Some (flag (\<not> isl (last fetched)))) \<and>
       gauge_after (''booth_shelly_plug_power_watts'', [(''device'', dev)]) ops None =
         map_option (\<lambda>s. or_nan Double (power_watts s)) (latest_success fetched) \<and>
       shelly (sample_once round32 fs sys sampler) =
         (case latest_success fetched of Some s \<Rightarrow> [s] | None \<Rightarrow> [])"
proof -
  have dev: "device s = dev" if "fetch_shelly_status dec base dev input = Inr s" for input s
    using that by (auto simp: fetch_shelly_status_def split: sum.splits)
  have "gauge_after (''booth_shelly_plug_up'', [(''device'', dev)]) (snd (run_machine (shelly_turn dev) sampler_new rs)) None =
         (if rs = [] then None else Some (flag (\<not> isl (last rs)))) \<and>
       gauge_after (''booth_shelly_plug_power_watts'', [(''device'', dev)]) (snd (run_machine (shelly_turn dev) sampler_new rs)) None =
         map_option (\<lambda>s. or_nan Double (power_watts s)) (latest_success rs) \<and>
       shelly_readings (fst (run_machine (shelly_turn dev) sampler_new rs)) =
         (case latest_success rs of Some s \<Rightarrow> [s] | None \<Rightarrow> []) \<and>
       (\<forall>s. latest_success rs = Some s \<longrightarrow> device s = dev)"
    if "\<forall>r \<in> set rs. \<forall>s. r = Inr s \<longrightarrow> device s = dev" for rs
    using that
  proof (induction rs rule: rev_induct)
    case (snoc r rs)
    then show ?case
      by (cases r)
        (auto simp: run_machine_append split_beta latest_success_snoc shelly_turn_def gauge_after_append
          record_shelly_device_failure_def record_shelly_device_gauges_def record_shelly_device_def Let_def
          split: option.split)
  qed (simp add: sampler_new_def)
  from this [of fetched] show ?thesis
    using dev by (auto simp: fetched_def sample_once_def Let_def split_beta)
qed

end
