(* ===== verification/Attach.thy ===== *)
theory Attach
  imports DebugViews DebugAccess
begin

text \<open>
  Watching a booth from elsewhere (\<open>crates/booth-bin/src/simulator.rs\<close>): where the bearer token comes from,
  which URLs a token may be sent to, the certificate pinned for the loopback listener, and the loop
  that keeps the telemetry socket open, with the cursor it asks the replay from. The URL parser, the
  address parser, SHA-256 and the HTTP and WebSocket exchanges are arguments; white space is ASCII.
\<close>

section \<open>The token\<close>

text \<open>\<open>str::lines\<close>: a line ends with a line feed, and a carriage return before it goes with it.\<close>

definition strip_cr :: "string \<Rightarrow> string" where
  "strip_cr l = (if l \<noteq> [] \<and> last l = CHR 0x0D then butlast l else l)"

function lines_of :: "string \<Rightarrow> string list" where
  "lines_of s =
     (if s = [] then []
      else case find_char (CHR 0x0A) s of
        None \<Rightarrow> [s]
      | Some n \<Rightarrow> strip_cr (take n s) # lines_of (drop (Suc n) s))"
  by pat_completeness auto
termination by (relation "measure length") auto

declare lines_of.simps [simp del]

definition strip_optional_quotes :: "string \<Rightarrow> string" where
  "strip_optional_quotes v =
     (if 2 \<le> length v \<and>
         (hd v = CHR 0x22 \<and> last v = CHR 0x22 \<or> hd v = CHR 0x27 \<and> last v = CHR 0x27)
      then butlast (tl v) else v)"

fun env_token :: "string list \<Rightarrow> string option" where
  "env_token [] = None"
| "env_token (raw # ls) =
     (let line = trim raw in
      if line = [] \<or> hd line = CHR ''#'' then env_token ls
      else case find_char (CHR ''='') line of
        None \<Rightarrow> env_token ls
      | Some n \<Rightarrow>
          (if trim (take n line) = ''BOOTH_DEBUG_TOKEN''
           then Some (strip_optional_quotes (trim (drop (Suc n) line)))
           else env_token ls))"

datatype EnvFile = NoEnvFile | UnreadableEnvFile string | EnvContents string

definition DEFAULT_DEBUG_ENV_PATH :: string where
  "DEFAULT_DEBUG_ENV_PATH = ''/etc/phone-booth/env''"

definition read_debug_token_from_env_file :: "EnvFile \<Rightarrow> (string option, string) result" where
  "read_debug_token_from_env_file file = (case file of
     NoEnvFile \<Rightarrow> Inr None
   | UnreadableEnvFile err \<Rightarrow> Inl (''read '' @ DEFAULT_DEBUG_ENV_PATH @ '': '' @ err)
   | EnvContents text \<Rightarrow> Inr (env_token (lines_of text)))"

text \<open>The command line first, then the two places in the configuration, then the file.\<close>

definition resolve_attach_token ::
    "string option \<Rightarrow> string option \<Rightarrow> string option \<Rightarrow> EnvFile \<Rightarrow> (string, string) result" where
  "resolve_attach_token cli_token top_level_token debug_section_token file =
     (case or_else cli_token (or_else top_level_token debug_section_token) of
        Some t \<Rightarrow> Inr t
      | None \<Rightarrow> (case read_debug_token_from_env_file file of
          Inl err \<Rightarrow> Inl err
        | Inr (Some t) \<Rightarrow> Inr t
        | Inr None \<Rightarrow> Inl (''attach mode requires a debug bearer token; pass --token, set BOOTH_DEBUG_TOKEN '' @
            ''or BOOTH_DEBUG_TOKEN_FILE, or add BOOTH_DEBUG_TOKEN to '' @ DEFAULT_DEBUG_ENV_PATH)))"

section \<open>Where a token may be sent\<close>

text \<open>The parts of the URL this code changes.\<close>

record AttachUrl = Url +
  url_port :: "u16 option"
  url_path :: string
  url_query :: "string option"
  url_fragment :: "string option"

definition attach_target_label :: "AttachUrl \<Rightarrow> (string, string) result" where
  "attach_target_label u = (case host_str u of
     None \<Rightarrow> Inl ''attach URL must include a host''
   | Some h \<Rightarrow> Inr (case url_port u of Some p \<Rightarrow> h @ '':'' @ show_word p | None \<Rightarrow> h))"

definition is_loopback_host :: "(string \<Rightarrow> IpAddr option) \<Rightarrow> AttachUrl \<Rightarrow> bool" where
  "is_loopback_host parse_ip u =
     (host_str u = Some ''localhost'' \<or>
      (case Option.bind (host_str u) parse_ip of Some a \<Rightarrow> ip_is_loopback a | None \<Rightarrow> False))"

definition validate_attach_url_security ::
    "(string \<Rightarrow> IpAddr option) \<Rightarrow> AttachUrl \<Rightarrow> (unit, string) result" where
  "validate_attach_url_security parse_ip u =
     (if scheme u \<in> {''http'', ''ws''} \<and> \<not> is_loopback_host parse_ip u then
        Inl (''plaintext attach URLs are only allowed for loopback hosts; use https:// or wss://'')
      else if scheme u \<in> {''http'', ''https'', ''ws'', ''wss''} then Inr ()
      else Inl (''unsupported attach URL scheme `'' @ scheme u @ ''`; use http:// or ws:// for loopback, '' @
        ''https:// or wss:// for remote hosts''))"

definition websocket_url :: "(string \<Rightarrow> IpAddr option) \<Rightarrow> AttachUrl \<Rightarrow> (AttachUrl, string) result" where
  "websocket_url parse_ip base =
     (case validate_attach_url_security parse_ip base of
        Inl err \<Rightarrow> Inl err
      | Inr _ \<Rightarrow>
          Inr (base\<lparr>scheme := (if scheme base = ''http'' then ''ws''
                 else if scheme base = ''https'' then ''wss'' else scheme base),
               url_path := ''/v1/ws/telemetry'', url_query := None, url_fragment := None\<rparr>))"

section \<open>The pinned certificate\<close>




text \<open>\<open>fetched\<close>: the status and the decoded body of the fingerprint route, or why there is none.\<close>

definition fetch_loopback_fingerprint ::
    "string \<Rightarrow> (nat \<times> (string, string) result, string) result \<Rightarrow> (string, string) result" where
  "fetch_loopback_fingerprint loopback_addr fetched = (case fetched of
     Inl err \<Rightarrow> Inl (''fetch loopback certificate fingerprint: '' @ err)
   | Inr (code, body) \<Rightarrow>
       (if code \<noteq> 200 then
          Inl (''fetch loopback certificate fingerprint failed with HTTP '' @ show_nat code @
            ''; ensure the running service still exposes the loopback debug listener on '' @ loopback_addr)
        else case body of
          Inl err \<Rightarrow> Inl (''decode loopback certificate fingerprint response: '' @ err)
        | Inr sha \<Rightarrow> Inr sha))"

text \<open>What is connected to, with which header, and which server certificates are accepted: those with
  the given fingerprint, or those the roots of the platform vouch for (\<open>None\<close>; for \<open>ws\<close> there are none).\<close>

record SocketRequest =
  socket_url :: AttachUrl
  authorization_header :: string
  pinned :: "string option"

definition connect_attach_socket ::
    "(string \<Rightarrow> IpAddr option) \<Rightarrow> AttachUrl \<Rightarrow> string \<Rightarrow> string \<Rightarrow>
     (nat \<times> (string, string) result, string) result \<Rightarrow> (SocketRequest, string) result" where
  "connect_attach_socket parse_ip base bearer loopback_addr fetched =
     (case websocket_url parse_ip base of
        Inl err \<Rightarrow> Inl err
      | Inr ws_url \<Rightarrow>
          (let request = \<lparr>socket_url = ws_url, authorization_header = ''Bearer '' @ bearer, pinned = None\<rparr> in
           if scheme base \<in> {''https'', ''wss''} \<and> is_loopback_host parse_ip base then
             (case fetch_loopback_fingerprint loopback_addr fetched of
                Inl err \<Rightarrow> Inl err
              | Inr fingerprint \<Rightarrow> Inr (request\<lparr>pinned := Some (to_ascii_lowercase fingerprint)\<rparr>))
           else Inr request))"

section \<open>The attach loop\<close>

definition ATTACH_RECONNECT_INITIAL :: nat where "ATTACH_RECONNECT_INITIAL = 500"   \<comment> \<open>ms\<close>
definition ATTACH_RECONNECT_MAX :: nat where "ATTACH_RECONNECT_MAX = 5000"          \<comment> \<open>ms\<close>

text \<open>The three bytes of the ellipsis in the messages.\<close>

definition dots :: string where "dots = [CHR 0xE2, CHR 0x80, CHR 0xA6]"

record AttachLoop =
  replay_from :: "u64 option"
  attach_backoff :: nat
  socket_open :: bool
  returned :: bool

definition attach_start :: AttachLoop where
  "attach_start = \<lparr>replay_from = Some 0, attach_backoff = ATTACH_RECONNECT_INITIAL,
     socket_open = False, returned = False\<rparr>"

text \<open>
  What the loop meets: a failed or successful connection (with the answer to sending the replay
  request), a text or binary frame (decoded, and whether the view still takes records), and the other
  things a socket yields.
\<close>

datatype AttachInput =
    ConnectFailed string
  | ConnectOk "(unit, string) result"
  | Frame "(TelemetryRecord, string) result" bool
  | CloseFrame
  | ControlFrame
  | SocketError string
  | SocketEnd

datatype AttachOut = ShowStatus string | Ingest TelemetryRecord | AskReplay u64 | Sleep nat

definition sleep_and_reconnect :: "AttachLoop \<Rightarrow> AttachOut list \<Rightarrow> AttachLoop \<times> AttachOut list" where
  "sleep_and_reconnect a outs =
     (a\<lparr>socket_open := False, attach_backoff := min (attach_backoff a * 2) ATTACH_RECONNECT_MAX\<rparr>,
      outs @ [Sleep (attach_backoff a)])"

definition attach_step :: "string \<Rightarrow> AttachLoop \<Rightarrow> AttachInput \<Rightarrow> AttachLoop \<times> AttachOut list" where
  "attach_step target a input =
     (if returned a then (a, [])
      else if \<not> socket_open a then
        (case input of
           ConnectFailed err \<Rightarrow>
             sleep_and_reconnect a [ShowStatus (''Attach failed; reconnecting in '' @
               show_nat (attach_backoff a) @ '' ms ('' @ err @ '')'')]
         | ConnectOk reply \<Rightarrow>
             (let a1 = a\<lparr>attach_backoff := ATTACH_RECONNECT_INITIAL\<rparr>;
                  hello = ShowStatus (''Attached to '' @ target @ '' (read-only telemetry stream).'')
              in case replay_from a1 of
                   None \<Rightarrow> (a1\<lparr>socket_open := True\<rparr>, [hello])
                 | Some last_seen \<Rightarrow> (case reply of
                     Inr _ \<Rightarrow> (a1\<lparr>socket_open := True\<rparr>, [hello, AskReplay last_seen])
                   | Inl err \<Rightarrow>
                       sleep_and_reconnect a1 [hello, ShowStatus (''Attach replay request failed; reconnecting'' @
                         dots @ '' ('' @ err @ '')'')]))
         | _ \<Rightarrow> (a, []))
      else
        (case input of
           Frame (Inr record) taken \<Rightarrow>
             (let a1 = a\<lparr>replay_from := Some (case replay_from a of
                    None \<Rightarrow> rec_id record | Some seen \<Rightarrow> max seen (rec_id record))\<rparr>
              in if taken then (a1, [Ingest record]) else (a1\<lparr>returned := True\<rparr>, []))
         | Frame (Inl err) taken \<Rightarrow>
             sleep_and_reconnect a [ShowStatus (''Invalid telemetry frame; reconnecting'' @ dots @ '' ('' @ err @ '')'')]
         | CloseFrame \<Rightarrow> sleep_and_reconnect a []
         | ControlFrame \<Rightarrow> (a, [])
         | SocketError err \<Rightarrow>
             sleep_and_reconnect a [ShowStatus (''Attach stream dropped; reconnecting'' @ dots @ '' ('' @ err @ '')'')]
         | SocketEnd \<Rightarrow> sleep_and_reconnect a []
         | _ \<Rightarrow> (a, [])))"

definition attach_telemetry_loop :: "string \<Rightarrow> AttachInput list \<Rightarrow> AttachLoop \<times> AttachOut list" where
  "attach_telemetry_loop target inputs =
     (let (a, outs) = run_machine (attach_step target) attach_start inputs
      in (a, ShowStatus (''Connecting to '' @ target @ dots) # outs))"


section \<open>The token is read back\<close>

declare lines_of.simps [of "[]", simp]

lemma lines_of_line:
  "CHR 0x0A \<notin> set l \<Longrightarrow> lines_of (l @ CHR 0x0A # rest) = strip_cr l # lines_of rest"
proof -
  assume "CHR 0x0A \<notin> set l"
  then have "takeWhile (\<lambda>x. x \<noteq> CHR 0x0A) (l @ CHR 0x0A # rest) = l"
    by (subst takeWhile_append2) auto
  then have "find_char (CHR 0x0A) (l @ CHR 0x0A # rest) = Some (length l)"
    by (simp add: find_char_takeWhile)
  then show ?thesis
    by (subst lines_of.simps) simp
qed

lemma lines_of_lines:
  "list_all (\<lambda>l. CHR 0x0A \<notin> set l) ls \<Longrightarrow>
   lines_of (concat (map (\<lambda>l. l @ [CHR 0x0A]) ls) @ rest) = map strip_cr ls @ lines_of rest"
  by (induction ls) (simp_all add: lines_of_line)

lemma trim_strip_cr: "trim (strip_cr l) = trim l"
proof (cases "l \<noteq> [] \<and> last l = CHR 0x0D")
  case True
  then obtain k where l: "l = k @ [CHR 0x0D]"
    by (metis append_butlast_last_id)
  show ?thesis
  proof (cases "\<exists>c \<in> set k. \<not> is_whitespace c")
    case True
    then show ?thesis
      by (auto simp: l strip_cr_def trim_def trim_end_def is_whitespace_def dropWhile_append)
  next
    case False
    moreover have "is_whitespace (CHR 0x0D)"
      by (simp add: is_whitespace_def)
    ultimately have blank: "dropWhile is_whitespace k = []" "dropWhile is_whitespace (k @ [CHR 0x0D]) = []"
      by (auto simp: dropWhile_eq_Nil_conv)
    have "trim (k @ [CHR 0x0D]) = trim k"
      unfolding trim_def blank ..
    then show ?thesis
      by (simp add: l strip_cr_def)
  qed
qed (auto simp: strip_cr_def)

lemma env_token_strip_cr: "env_token (map strip_cr ls @ ks) = env_token (ls @ ks)"
  by (induction ls) (simp_all add: trim_strip_cr Let_def split: option.split)

lemma env_token_skip: "list_all (\<lambda>l. env_token [l] = None) ls \<Longrightarrow> env_token (ls @ ks) = env_token ks"
  by (induction ls) (auto simp: Let_def split: if_splits option.splits)

text \<open>A token written in quotes is read back as it is, whatever it contains but a line feed: spaces, quotes
  and equals signs of its own, a comment sign and carriage returns included. The line may stand
  anywhere behind lines that do not set the token.\<close>
theorem quoted_token_read_back:
  assumes "q = CHR 0x22 \<or> q = CHR 0x27" and "CHR 0x0A \<notin> set tok"
    and "list_all (\<lambda>l. CHR 0x0A \<notin> set l \<and> env_token [l] = None) others"
  shows "resolve_attach_token None None None (EnvContents (concat (map (\<lambda>l. l @ [CHR 0x0A]) others) @
      ''BOOTH_DEBUG_TOKEN='' @ [q] @ tok @ [q] @ CHR 0x0A # rest)) = Inr tok"
proof -
  let ?line = "''BOOTH_DEBUG_TOKEN='' @ [q] @ tok @ [q]"
  have q: "\<not> is_whitespace q" "q \<noteq> CHR 0x0A" "q \<noteq> CHR 0x0D"
    using assms(1) by (auto simp: is_whitespace_def)
  have trims: "trim ?line = ?line" "trim ([q] @ tok @ [q]) = [q] @ tok @ [q]"
      "trim ''BOOTH_DEBUG_TOKEN'' = ''BOOTH_DEBUG_TOKEN''"
    using q(1) by (simp_all add: trim_def trim_end_def is_whitespace_def)
  have cut: "find_char (CHR ''='') ?line = Some 17"
    by simp
  have "lines_of (?line @ CHR 0x0A # rest) = strip_cr ?line # lines_of rest"
    by (rule lines_of_line) (use assms(2) q(2) in auto)
  moreover have "strip_cr ?line = ?line"
    using q(3) by (simp add: strip_cr_def)
  ultimately have "lines_of (concat (map (\<lambda>l. l @ [CHR 0x0A]) others) @ ?line @ CHR 0x0A # rest) =
      map strip_cr others @ ?line # lines_of rest"
    using assms(3) lines_of_lines [of others "?line @ CHR 0x0A # rest"] by (simp add: list_all_iff)
  moreover have "env_token (?line # lines_of rest) = Some (strip_optional_quotes ([q] @ tok @ [q]))"
    using trims cut by (simp add: Let_def)
  moreover have "strip_optional_quotes ([q] @ tok @ [q]) = tok"
    using assms(1) by (auto simp: strip_optional_quotes_def)
  ultimately show ?thesis
    using assms(3) by (simp add: resolve_attach_token_def read_debug_token_from_env_file_def
      env_token_strip_cr env_token_skip list_all_iff)
qed

theorem quoted_token_read_back_witness:
  "resolve_attach_token None None None (EnvContents (concat (map (\<lambda>l. l @ [CHR 0x0A]) [''# A=1'', ''OTHER=2'']) @
     ''BOOTH_DEBUG_TOKEN='' @ [CHR 0x27] @ ''a b='' @ [CHR 0x27] @ CHR 0x0A # [])) = Inr ''a b=''"
  by (rule quoted_token_read_back) (simp_all add: trim_def trim_end_def is_whitespace_def)

section \<open>Where the token goes\<close>








text \<open>The parser of the standard library takes no brackets, and the host of a URL with an IPv6 literal has them:
  the IPv6 loopback address is refused as a plaintext target.\<close>
lemma ipv6_loopback_refused:
  assumes "host_str base = Some ''[::1]''" and "parse_ip ''[::1]'' = None" and "scheme base = ''http''"
  shows "connect_attach_socket parse_ip base bearer loopback_addr fetched =
    Inl ''plaintext attach URLs are only allowed for loopback hosts; use https:// or wss://''"
  using assms by (simp add: connect_attach_socket_def websocket_url_def validate_attach_url_security_def is_loopback_host_def)


section \<open>Reconnecting\<close>

definition sleeps :: "AttachOut list \<Rightarrow> nat list" where
  "sleeps outs = List.map_filter (\<lambda>out. case out of Sleep ms \<Rightarrow> Some ms | _ \<Rightarrow> None) outs"

definition asked :: "AttachOut list \<Rightarrow> u64 list" where
  "asked outs = List.map_filter (\<lambda>out. case out of AskReplay n \<Rightarrow> Some n | _ \<Rightarrow> None) outs"

definition ingested :: "AttachOut list \<Rightarrow> TelemetryRecord list" where
  "ingested outs = List.map_filter (\<lambda>out. case out of Ingest r \<Rightarrow> Some r | _ \<Rightarrow> None) outs"

lemma out_views [simp]:
  "sleeps [] = []" "sleeps (Sleep ms # outs) = ms # sleeps outs" "sleeps (ShowStatus t # outs) = sleeps outs"
  "sleeps (Ingest r # outs) = sleeps outs" "sleeps (AskReplay n # outs) = sleeps outs"
  "sleeps (outs @ outs') = sleeps outs @ sleeps outs'"
  "asked [] = []" "asked (Sleep ms # outs) = asked outs" "asked (ShowStatus t # outs) = asked outs"
  "asked (Ingest r # outs) = asked outs" "asked (AskReplay n # outs) = n # asked outs"
  "asked (outs @ outs') = asked outs @ asked outs'"
  "ingested [] = []" "ingested (Sleep ms # outs) = ingested outs" "ingested (ShowStatus t # outs) = ingested outs"
  "ingested (Ingest r # outs) = r # ingested outs" "ingested (AskReplay n # outs) = ingested outs"
  "ingested (outs @ outs') = ingested outs @ ingested outs'"
  by (simp_all add: sleeps_def asked_def ingested_def List.map_filter_def)

lemma ingested_frames [simp]: "ingested (map Ingest rs) = rs" "asked (map Ingest rs) = []"
  by (induction rs) simp_all

lemmas attach_defs = attach_step_def sleep_and_reconnect_def Let_def

interpretation attach_pace: machine_invariant "attach_step target"
    "\<lambda>a. ATTACH_RECONNECT_INITIAL \<le> attach_backoff a \<and> attach_backoff a \<le> ATTACH_RECONNECT_MAX" for target
  by unfold_locales
    (auto simp: attach_defs ATTACH_RECONNECT_INITIAL_def ATTACH_RECONNECT_MAX_def
      split: AttachInput.split sum.split option.split)

lemma sleep_bounds:
  assumes "ATTACH_RECONNECT_INITIAL \<le> attach_backoff a" and "attach_backoff a \<le> ATTACH_RECONNECT_MAX"
  shows "list_all (\<lambda>ms. 500 \<le> ms \<and> ms \<le> 5000) (sleeps (snd (attach_step target a input)))"
  using assms
  by (auto simp: attach_defs ATTACH_RECONNECT_INITIAL_def ATTACH_RECONNECT_MAX_def
      split: AttachInput.split sum.split option.split)

lemma failures_double:
  "\<not> returned a \<Longrightarrow> \<not> socket_open a \<Longrightarrow> attach_backoff a \<le> ATTACH_RECONNECT_MAX \<Longrightarrow>
   sleeps (snd (run_machine (attach_step target) a (map ConnectFailed errs))) =
     map (\<lambda>k. min (attach_backoff a * 2 ^ k) ATTACH_RECONNECT_MAX) [0..<length errs]"
proof (induction errs arbitrary: a)
  case (Cons err errs)
  let ?b = "fst (attach_step target a (ConnectFailed err))"
  have b: "attach_backoff ?b = min (attach_backoff a * 2) ATTACH_RECONNECT_MAX" "\<not> returned ?b" "\<not> socket_open ?b"
    using Cons.prems by (simp_all add: attach_defs)
  have clip: "min (min (x * 2) m * y) m = min (x * (2 * y)) m" if "0 < y" for x y m :: nat
  proof (cases "x * 2 \<le> m")
    case False
    then have "m \<le> m * y" "m \<le> x * 2 * y"
      using that mult_le_mono [of m "x * 2" 1 y] by simp_all
    then show ?thesis
      using False by (simp add: mult.assoc)
  qed (simp add: mult.assoc)
  have "sleeps (snd (attach_step target a (ConnectFailed err))) = [attach_backoff a]"
    using Cons.prems by (simp add: attach_defs)
  moreover have "sleeps (snd (run_machine (attach_step target) ?b (map ConnectFailed errs))) =
      map (\<lambda>k. min (attach_backoff a * 2 ^ Suc k) ATTACH_RECONNECT_MAX) [0..<length errs]"
    using Cons.IH [of ?b] b by (simp add: clip)
  ultimately show ?case
    using Cons.prems(3) by (simp add: map_upt_Suc del: upt_Suc)
qed simp

text \<open>The viewer reconnects at a bounded pace: whatever happens it sleeps at least half a second and at most
  five seconds before each new attempt, and while the booth cannot be reached the pauses double from
  half a second up to five.\<close>
theorem reconnects_are_paced:
  "list_all (\<lambda>ms. 500 \<le> ms \<and> ms \<le> 5000) (sleeps (snd (attach_telemetry_loop target inputs))) \<and>
   sleeps (snd (attach_telemetry_loop target (map ConnectFailed errs))) =
     map (\<lambda>k. min (500 * 2 ^ k) 5000) [0..<length errs]"
proof -
  have "list_all (\<lambda>ms. 500 \<le> ms \<and> ms \<le> 5000) (sleeps (snd (run_machine (attach_step target) a inputs)))"
    if "ATTACH_RECONNECT_INITIAL \<le> attach_backoff a" "attach_backoff a \<le> ATTACH_RECONNECT_MAX" for a
    using that
  proof (induction inputs arbitrary: a)
    case (Cons i inputs)
    then show ?case
      using attach_pace.inv_step [of a target i] sleep_bounds [of a target i] by simp
  qed simp
  from this [of attach_start] show ?thesis
    using failures_double [of attach_start target errs]
    by (simp add: attach_telemetry_loop_def split_beta attach_start_def ATTACH_RECONNECT_INITIAL_def ATTACH_RECONNECT_MAX_def)
qed

section \<open>The cursor\<close>

text \<open>What an observer of the outputs expects to be asked for: the newest record it has seen; \<open>None\<close> once a
  replay was asked from anywhere else.\<close>

fun newest_seen :: "u64 option \<Rightarrow> AttachOut \<Rightarrow> u64 option" where
  "newest_seen m (Ingest r) = map_option (\<lambda>n. max n (rec_id r)) m"
| "newest_seen m (AskReplay n) = (if m = Some n then m else None)"
| "newest_seen m (ShowStatus _) = m"
| "newest_seen m (Sleep _) = m"

interpretation attach_cursor: machine_observer "attach_step target" newest_seen
    "\<lambda>m a. m \<noteq> None \<and> (returned a \<or> m = replay_from a)" for target
  by unfold_locales
    (auto simp: attach_defs split: AttachInput.split sum.split option.split)

lemma newest_seen_None [simp]: "foldl newest_seen None outs = None"
proof (induction outs)
  case (Cons out outs)
  then show ?case by (cases out) simp_all
qed simp

lemma newest_seen_foldl:
  "foldl newest_seen (Some n) outs = Some m \<Longrightarrow>
   m = foldl max n (map rec_id (ingested outs)) \<and>
   (\<forall>outs1 k outs2. outs = outs1 @ AskReplay k # outs2 \<longrightarrow> k = foldl max n (map rec_id (ingested outs1)))"
proof (induction outs arbitrary: n)
  case (Cons out outs)
  have step: "m = foldl max n' (map rec_id (ingested outs)) \<and>
      (\<forall>outs1 k outs2. outs = outs1 @ AskReplay k # outs2 \<longrightarrow> k = foldl max n' (map rec_id (ingested outs1)))"
    if "newest_seen (Some n) out = Some n'" for n'
    using Cons.IH [of n'] Cons.prems that by simp
  show ?case
  proof (intro conjI allI impI)
    show "m = foldl max n (map rec_id (ingested (out # outs)))"
      using step Cons.prems by (cases out) (auto split: if_splits)
    fix outs1 k outs2
    assume eq: "out # outs = outs1 @ AskReplay k # outs2"
    show "k = foldl max n (map rec_id (ingested outs1))"
    proof (cases outs1)
      case Nil
      then show ?thesis using eq Cons.prems by (auto split: if_splits)
    next
      case (Cons o1 outs1')
      then have o1: "o1 = out" "outs = outs1' @ AskReplay k # outs2"
        using eq by auto
      then show ?thesis
        using step Cons.prems Cons by (cases out) (auto split: if_splits)
    qed
  qed
qed simp

text \<open>Nothing is replayed twice: each replay the viewer asks for starts after the newest record it has received
  so far, and after none when it has received none.\<close>
theorem replay_asked_from_newest:
  assumes "snd (attach_telemetry_loop target inputs) = outs1 @ AskReplay k # outs2"
  shows "k = foldl max 0 (map rec_id (ingested outs1))"
proof -
  let ?outs = "snd (attach_telemetry_loop target inputs)"
  have "foldl newest_seen (Some 0) (snd (run_machine (attach_step target) attach_start inputs)) \<noteq> None"
    using attach_cursor.agrees_run [of "Some 0" attach_start target inputs] by (simp add: attach_start_def)
  then have "foldl newest_seen (Some 0) ?outs \<noteq> None"
    by (simp add: attach_telemetry_loop_def split_beta)
  then obtain m where "foldl newest_seen (Some 0) ?outs = Some m" by blast
  from newest_seen_foldl [OF this] assms show ?thesis by blast
qed

theorem replay_asked_from_newest_witness:
  "(7 :: u64) = foldl max 0 (map rec_id (ingested [ShowStatus (''Connecting to '' @ ''b'' @ dots),
     ShowStatus (''Attached to '' @ ''b'' @ '' (read-only telemetry stream).''), AskReplay 0,
     Ingest \<lparr>rec_id = 7, ts = 0, payload = led_event\<rparr>, Sleep 500,
     ShowStatus (''Attached to '' @ ''b'' @ '' (read-only telemetry stream).'')]))"
  by (rule replay_asked_from_newest [where target = "''b''" and ?outs2.0 = "[]" and
      inputs = "[ConnectOk (Inr ()), Frame (Inr \<lparr>rec_id = 7, ts = 0, payload = led_event\<rparr>) True, SocketEnd, ConnectOk (Inr ())]"])
    (simp add: attach_telemetry_loop_def attach_defs attach_start_def ATTACH_RECONNECT_INITIAL_def)


section \<open>The viewer and the booth\<close>

lemma frames_run:
  "\<not> returned a \<Longrightarrow> socket_open a \<Longrightarrow> replay_from a = Some n \<Longrightarrow>
   run_machine (attach_step target) a (map (\<lambda>r. Frame (Inr r) True) rs) =
     (a\<lparr>replay_from := Some (foldl max n (map rec_id rs))\<rparr>, map Ingest rs)"
proof (induction rs arbitrary: a n)
  case (Cons r rs)
  let ?b = "a\<lparr>replay_from := Some (max n (rec_id r))\<rparr>"
  have "attach_step target a (Frame (Inr r) True) = (?b, [Ingest r])"
    using Cons.prems by (simp add: attach_defs)
  moreover have "run_machine (attach_step target) ?b (map (\<lambda>r. Frame (Inr r) True) rs) =
      (?b\<lparr>replay_from := Some (foldl max (max n (rec_id r)) (map rec_id rs))\<rparr>, map Ingest rs)"
    using Cons.prems by (intro Cons.IH) simp_all
  ultimately show ?case by simp
qed simp

text \<open>A connection that yields the records \<open>rs\<close> and is then lost, and a whole viewing: connections one after
  the other.\<close>

definition session :: "TelemetryRecord list \<Rightarrow> AttachInput list" where
  "session rs = ConnectOk (Inr ()) # map (\<lambda>r. Frame (Inr r) True) rs @ [SocketEnd]"

lemma session_run:
  assumes "\<not> returned a" and "\<not> socket_open a" and "replay_from a = Some n"
  shows "let (b, outs) = run_machine (attach_step target) a (session rs)
    in asked outs = [n] \<and> ingested outs = rs \<and> \<not> returned b \<and> \<not> socket_open b \<and>
       replay_from b = Some (foldl max n (map rec_id rs))"
proof -
  let ?a1 = "a\<lparr>attach_backoff := ATTACH_RECONNECT_INITIAL, socket_open := True\<rparr>"
  have "attach_step target a (ConnectOk (Inr ())) =
      (?a1, [ShowStatus (''Attached to '' @ target @ '' (read-only telemetry stream).''), AskReplay n])"
    using assms by (simp add: attach_defs)
  moreover have "run_machine (attach_step target) ?a1 (map (\<lambda>r. Frame (Inr r) True) rs) =
      (?a1\<lparr>replay_from := Some (foldl max n (map rec_id rs))\<rparr>, map Ingest rs)"
    using assms by (intro frames_run) simp_all
  ultimately show ?thesis
    using assms by (simp add: session_def run_machine_append attach_defs)
qed

definition viewed :: "string \<Rightarrow> AttachInput list \<Rightarrow> TelemetryRecord list" where
  "viewed target inputs = ingested (snd (attach_telemetry_loop target inputs))"

definition last_asked :: "string \<Rightarrow> AttachInput list \<Rightarrow> u64" where
  "last_asked target inputs = last (asked (snd (attach_telemetry_loop target inputs)))"

lemma two_sessions:
  "viewed target (session rs @ session rs') = rs @ rs'"
  "last_asked target (session rs @ session rs') = foldl max 0 (map rec_id rs)"
proof -
  let ?m = "run_machine (attach_step target) attach_start (session rs)"
  have first: "asked (snd ?m) = [0]" "ingested (snd ?m) = rs" "\<not> returned (fst ?m)" "\<not> socket_open (fst ?m)"
      "replay_from (fst ?m) = Some (foldl max 0 (map rec_id rs))"
    using session_run [of attach_start 0 target rs] by (simp_all add: attach_start_def split_beta Let_def)
  from session_run [OF first(3-5), of target rs'] first
  show "viewed target (session rs @ session rs') = rs @ rs'"
      "last_asked target (session rs @ session rs') = foldl max 0 (map rec_id rs)"
    by (simp_all add: viewed_def last_asked_def attach_telemetry_loop_def run_machine_append split_beta Let_def)
qed

lemma resumed:
  "last_asked target (session rs @ [ConnectOk (Inr ())]) = foldl max 0 (map rec_id rs)"
proof -
  let ?m = "run_machine (attach_step target) attach_start (session rs)"
  have "asked (snd ?m) = [0] \<and> \<not> returned (fst ?m) \<and> \<not> socket_open (fst ?m) \<and>
      replay_from (fst ?m) = Some (foldl max 0 (map rec_id rs))"
    using session_run [of attach_start 0 target rs] by (simp add: attach_start_def split_beta Let_def)
  then show ?thesis
    by (simp add: last_asked_def attach_telemetry_loop_def run_machine_append split_beta attach_defs)
qed

lemma publish_all_append: "publish_all b (xs @ ys) = publish_all (publish_all b xs) ys"
  by (induction b xs rule: publish_all.induct) simp_all

lemma publish_all_reachable:
  "bus_reachable cap \<lparr>bus = b, in_flight = []\<rparr> \<Longrightarrow> bus_reachable cap \<lparr>bus = publish_all b es, in_flight = []\<rparr>"
  by (induction b es rule: publish_all.induct) (simp_all add: publish_reachable)

lemma stamped_id:
  assumes "r \<in> set (stamped n es)" and "n + length es < 2 ^ 64"
  shows "rec_id r \<le> of_nat (n + length es)"
  using assms
proof (induction es arbitrary: n)
  case (Cons e es)
  obtain t ev where e: "e = (t, ev)" by fastforce
  consider "rec_id r = of_nat (n + 1)" | "r \<in> set (stamped (Suc n) es)"
    using Cons.prems by (auto simp: e stamped_Cons)
  then show ?case
  proof cases
    case 1
    then show ?thesis
      using Cons.prems(2) by (simp add: word_le_nat_alt unat_of_nat take_bit_nat_eq_self del: of_nat_Suc of_nat_add)
  next
    case 2
    then show ?thesis using Cons.IH [of "Suc n"] Cons.prems(2) by simp
  qed
qed (simp add: stamped_def)

lemma max_stamped:
  "n + length es < 2 ^ 64 \<Longrightarrow>
   foldl max m (map rec_id (stamped n es)) = (if es = [] then m else max m (of_nat (n + length es)))"
proof (induction es arbitrary: n m)
  case (Cons e es)
  obtain t ev where e: "e = (t, ev)" by fastforce
  have "(of_nat (n + 1) :: u64) \<le> of_nat (Suc n + length es)"
    using Cons.prems by (simp add: word_le_nat_alt unat_of_nat take_bit_nat_eq_self del: of_nat_Suc of_nat_add)
  then show ?case
    using Cons.IH [of "Suc n" "max m (of_nat (n + 1))"] Cons.prems
    by (auto simp: e stamped_Cons max.assoc max_absorb2 add.commute)
qed (simp add: stamped_def)

lemma retained_led_id:
  assumes "latest_status_led (publish_all (bus_new cap) es) = Some r" and "length es < 2 ^ 64"
  shows "rec_id r \<le> of_nat (length es) \<and> es \<noteq> []"
proof -
  have "bus_reachable cap \<lparr>bus = publish_all (bus_new cap) es, in_flight = []\<rparr>"
    by (rule publish_all_reachable) (rule bus_reachable.start)
  from reachable_newest_led [OF this] have "r \<in> set (live (publish_all (bus_new cap) es))"
    using assms(1) by (simp add: newest_led_def retained_def)
  then show ?thesis
    using stamped_id [of r 0 es] assms(2) by (auto simp: live_publish_all stamped_def)
qed

lemma take_stamped: "take k (stamped n es) = stamped n (take k es)"
proof (induction es arbitrary: n k)
  case (Cons e es)
  then show ?case by (cases k; cases e) (simp_all add: stamped_Cons, simp add: stamped_def)
qed (simp add: stamped_def)

lemma next_id_publish_all: "next_id (publish_all b es) = next_id b + of_nat (length es)"
  by (induction b es rule: publish_all.induct) (simp_all add: publish_def stamp_def Let_def)

lemma publish_snoc:
  fixes cap es t e
  defines "b \<equiv> publish_all (bus_new cap) es" and "b' \<equiv> publish_all (bus_new cap) (es @ [(t, e)])"
    and "r \<equiv> \<lparr>rec_id = (of_nat (length es + 1) :: u64), ts = t, payload = e\<rparr>"
  assumes "length es + 1 < 2 ^ 64"
  shows "live b' = live b @ [r]" "latest_status_led b' = (if is_status_led r then Some r else latest_status_led b)"
proof -
  have stamp: "stamp b t e = (b\<lparr>next_id := of_nat (length es + 1)\<rparr>, r)"
    by (simp add: stamp_def r_def b_def next_id_publish_all bus_new_def)
  have "rec_id h < rec_id r" if "latest_status_led b = Some h" for h
  proof -
    have "rec_id h \<le> of_nat (length es)"
      using retained_led_id [OF that [unfolded b_def]] assms(4) by simp
    moreover have "(of_nat (length es) :: u64) < of_nat (length es + 1)"
      using assms(4) by (simp add: word_less_nat_alt unat_of_nat take_bit_nat_eq_self del: of_nat_Suc of_nat_add)
    ultimately show ?thesis by (simp add: r_def)
  qed
  then show "live b' = live b @ [r]" "latest_status_led b' = (if is_status_led r then Some r else latest_status_led b)"
    by (auto simp: b'_def publish_all_append publish_def stamp retain_status_led_def
        simp flip: b_def split: option.split)
qed

text \<open>What the retained record adds to a connection.\<close>

definition lead :: "TelemetryBus \<Rightarrow> TelemetryRecord list" where
  "lead b = (case latest_status_led b of Some r \<Rightarrow> [r] | None \<Rightarrow> [])"

definition newest_led_of :: "TelemetryRecord list \<Rightarrow> TelemetryRecord list" where
  "newest_led_of rs = (let leds = filter is_status_led rs in if leds = [] then [] else [last leds])"

lemma lead_is_last_led:
  "length es < 2 ^ 64 \<Longrightarrow>
   lead (publish_all (bus_new cap) es) = newest_led_of (live (publish_all (bus_new cap) es))"
proof (induction es rule: rev_induct)
  case (snoc x es)
  obtain t e where x: "x = (t, e)" by fastforce
  have "length es + 1 < 2 ^ 64"
    using snoc.prems by simp
  from publish_snoc [OF this, of cap t e] snoc show ?case
    by (simp add: x lead_def newest_led_of_def)
qed (simp add: lead_def newest_led_of_def bus_new_def)

text \<open>A viewer misses nothing when its connection breaks after the replay: it is sent the history, then what
  is published until the socket is lost, and after reconnecting exactly the records it has not seen,
  however many came meanwhile, as long as it is at most one ring behind. Each connection starts with
  the retained status-LED record.\<close>
theorem viewer_misses_nothing:
  fixes cap es later
  defines "b \<equiv> publish_all (bus_new cap) es" and "b' \<equiv> publish_all (bus_new cap) (es @ later)"
  assumes "length (es @ later) < 2 ^ 64" and "length es \<le> cap" and "length es < n" and "length (es @ later) < cap + n"
    and "cap < n'"
  shows "let first = telemetry_socket b (Some 0) (map Live (drop (length es) (live b'))) n;
      seen = last_asked target (session first @ [ConnectOk (Inr ())]);
      second = telemetry_socket b' (Some seen) [] n'
    in \<exists>k. viewed target (session first @ session second) =
         lead b @ take k (live b') @ lead b' @ drop k (live b')"
proof -
  let ?all = "es @ later"
  define k where "k = min (n - length (lead b)) (length ?all)"
  define first where "first = telemetry_socket b (Some 0) (map Live (drop (length es) (live b'))) n"
  have len: "length (stamped m xs) = length xs" for m xs
    by (simp add: stamped_def)
  have lead1: "length (lead x) \<le> 1" for x
    by (simp add: lead_def split: option.split)
  have lives: "live b = stamped 0 es" "live b' = stamped 0 ?all" "live b' = live b @ drop (length es) (live b')"
    by (simp_all add: b_def b'_def live_publish_all stamped_append len)
  have "snapshot_since b (Some (of_nat 0)) = drop 0 (live b)"
    unfolding b_def by (rule replay_catches_up) (use assms(3,4) in auto)
  then have "telemetry_socket b (Some 0) (map Live (drop (length es) (live b'))) n = take n (lead b @ live b')"
    using lives(3) by (simp add: telemetry_socket_def live_records_Live lead_def)
  also have "\<dots> = lead b @ take k (live b')"
    using lead1 [of b] assms(5) by (auto simp: k_def lives(2) len min_def)
  finally have first: "first = lead b @ take k (live b')"
    by (simp add: first_def)
  have k: "length es \<le> k" "k \<le> length ?all" "length ?all \<le> cap + k"
    using lead1 [of b] assms(4-6) by (auto simp: k_def)
  have "foldl max 0 (map rec_id first) = of_nat k"
  proof (cases "latest_status_led b")
    case None
    then show ?thesis
      using assms(3) k(2) max_stamped [of 0 "take k ?all" 0]
      by (auto simp: first lead_def lives(2) take_stamped min_absorb2 simp del: take_append)
  next
    case (Some r)
    have "rec_id r \<le> of_nat (length es)" "es \<noteq> []"
      using retained_led_id [of cap es r] Some assms(3) by (simp_all add: b_def)
    moreover have "(of_nat (length es) :: u64) \<le> of_nat k"
      using k assms(3) by (simp add: word_le_nat_alt unat_of_nat take_bit_nat_eq_self)
    moreover have "take k ?all \<noteq> []" "length (take k ?all) = k"
      using k \<open>es \<noteq> []\<close> by auto
    ultimately show ?thesis
      using assms(3) k(2) max_stamped [of 0 "take k ?all" "rec_id r"]
      by (simp add: first Some lead_def lives(2) take_stamped max_absorb2 order.trans del: take_append)
  qed
  then have seen: "last_asked target (session first @ [ConnectOk (Inr ())]) = of_nat k"
    by (simp add: resumed)
  have "snapshot_since b' (Some (of_nat k)) = drop k (live b')"
    unfolding b'_def by (rule replay_catches_up) (use assms(3) k in simp_all)
  moreover have "length (lead b' @ drop k (live b')) \<le> n'"
    using lead1 [of b'] k(3) assms(7) by (simp add: lives(2) len)
  ultimately have "telemetry_socket b' (Some (of_nat k)) [] n' = lead b' @ drop k (live b')"
    by (simp add: telemetry_socket_def lead_def)
  then show ?thesis
    unfolding Let_def first_def [symmetric] seen by (auto simp: two_sessions(1) first)
qed

theorem viewer_misses_nothing_witness:
  "\<exists>k. viewed ''b'' (session (telemetry_socket (publish_all (bus_new 2) [(0, led_event)]) (Some 0)
         (map Live (drop 1 (live (publish_all (bus_new 2) [(0, led_event), (1, led_event), (2, led_event)])))) 3) @
       session (telemetry_socket (publish_all (bus_new 2) [(0, led_event), (1, led_event), (2, led_event)])
         (Some (last_asked ''b'' (session (telemetry_socket (publish_all (bus_new 2) [(0, led_event)]) (Some 0)
           (map Live (drop 1 (live (publish_all (bus_new 2) [(0, led_event), (1, led_event), (2, led_event)])))) 3) @
           [ConnectOk (Inr ())]))) [] 3)) =
     lead (publish_all (bus_new 2) [(0, led_event)]) @
     take k (live (publish_all (bus_new 2) [(0, led_event), (1, led_event), (2, led_event)])) @
     lead (publish_all (bus_new 2) [(0, led_event), (1, led_event), (2, led_event)]) @
     drop k (live (publish_all (bus_new 2) [(0, led_event), (1, led_event), (2, led_event)]))"
  using viewer_misses_nothing [of "[(0, led_event)]" "[(1, led_event), (2, led_event)]" 2 3 3 "''b''"]
  by (simp add: Let_def)

text \<open>A connection that breaks during the replay loses the history: the booth leads with the retained
  status-LED record, and when that is the newest one the viewer's cursor is past everything it has not
  been sent yet, so what it asks for after reconnecting is nothing.\<close>
theorem broken_replay_loses_history:
  fixes es t c p ns
  assumes "length es + 1 < 2 ^ 64" and "0 < cap"
  defines "b \<equiv> publish_all (bus_new cap) (es @ [(t, StatusLed c p ns)])"
  shows "let first = telemetry_socket b (Some 0) [] 1;
      seen = last_asked target (session first @ [ConnectOk (Inr ())])
    in viewed target (session first @ session (telemetry_socket b (Some seen) [] n)) =
         last (live b) # take n [last (live b)]"
proof -
  let ?all = "es @ [(t, StatusLed c p ns)]"
  define r where "r = \<lparr>rec_id = (of_nat (length es + 1) :: u64), ts = t, payload = StatusLed c p ns\<rparr>"
  have led: "latest_status_led b = Some r" and newest: "last (live b) = r"
    using publish_snoc [OF assms(1), of cap t "StatusLed c p ns"] by (simp_all add: b_def r_def is_status_led_def)
  have "snapshot_since b (Some (of_nat (length ?all))) = drop (length ?all) (live b)"
    unfolding b_def by (rule replay_catches_up) (use assms(1) in simp_all)
  then have none: "snapshot_since b (Some (rec_id r)) = []"
    by (simp add: b_def live_publish_all r_def stamped_def)
  show ?thesis
    by (simp add: telemetry_socket_def led resumed two_sessions newest Let_def none)
qed

end
