(* ===== verification/Simulator.thy ===== *)
theory Simulator
  imports Attach GpioTask Config
begin

text \<open>
  The terminal interface (\<open>crates/booth-bin/src/simulator.rs\<close>) and the command line that starts it
  (\<open>crates/booth-bin/src/main.rs\<close>): the state that is shown, what a key does to it and to the mocked GPIO
  port, what a telemetry record does to it, the loop over keys and telemetry, and which of the four
  ways to run the flags select. Drawing is left out but for the texts of the header and the footer. The
  clocks are arguments: \<open>mono_ns k\<close> is the \<open>k\<close>-th reading of \<open>monotonic_ns\<close> while a key is handled and \<open>wall\<close>
  the wall clock. Parsing the arguments is clap's, of which the rules between the flags are stated.
\<close>

section \<open>The state\<close>

datatype Color = Yellow | Cyan | DarkGray | Magenta | Red | Green | Blue

datatype Style = Fg Color bool   \<comment> \<open>bold\<close>

record HistoryEntry =
  entry_ts :: nat
  entry_text :: string
  entry_style :: Style

record LevelView =
  view_peak :: f32_bits
  view_rms :: f32_bits

record SimulatorState =
  mock_io :: bool
  read_only :: bool
  attached_to :: "string option"
  log_path :: "string option"
  hook_on_hook :: bool
  hook_known :: bool
  shown_state :: string
  shown_status :: string
  shown_led :: string
  power_button_hold_ms :: u64
  audio_in :: LevelView
  audio_out :: LevelView
  history :: "HistoryEntry list"
  status_line :: string
  lagged_records :: u64

definition EVENT_HISTORY :: nat where "EVENT_HISTORY = 64"

text \<open>The bytes of the dash in the messages.\<close>

definition dash :: string where "dash = '' '' @ [CHR 0xE2, CHR 0x80, CHR 0x94] @ '' ''"

definition level_view_default :: LevelView where
  "level_view_default = \<lparr>view_peak = 0, view_rms = 0\<rparr>"

definition simulator_new :: "bool \<Rightarrow> bool \<Rightarrow> string option \<Rightarrow> SimulatorState" where
  "simulator_new mocked watching log =
     \<lparr>mock_io = mocked, read_only = watching, attached_to = None, log_path = log,
      hook_on_hook = True, hook_known = (\<not> watching), shown_state = ''idle'', shown_status = ''idle'',
      shown_led = ''off'', power_button_hold_ms = 3000, audio_in = level_view_default,
      audio_out = level_view_default, history = [],
      status_line = (if watching then ''Live hardware monitor'' @ dash @ ''dial the real phone to see events.''
        else ''Press [h] or space to lift the receiver.''),
      lagged_records = 0\<rparr>"

definition simulator_attached :: "string \<Rightarrow> string option \<Rightarrow> SimulatorState" where
  "simulator_attached target log =
     \<lparr>mock_io = False, read_only = True, attached_to = Some target, log_path = log,
      hook_on_hook = True, hook_known = False, shown_state = ''idle'', shown_status = ''idle'',
      shown_led = ''off'', power_button_hold_ms = 3000, audio_in = level_view_default,
      audio_out = level_view_default, history = [],
      status_line = ''Connecting to '' @ target @ dots, lagged_records = 0\<rparr>"

definition set_status :: "string \<Rightarrow> SimulatorState \<Rightarrow> SimulatorState" where
  "set_status text s = s\<lparr>status_line := text\<rparr>"

text \<open>\<open>push_front\<close> followed by the loop that pops at the back.\<close>

fun pop_back_over :: "nat \<Rightarrow> 'a list \<Rightarrow> 'a list" where
  "pop_back_over cap [] = []"
| "pop_back_over cap (x # xs) =
     (if cap < length (x # xs) then pop_back_over cap (butlast (x # xs)) else x # xs)"

definition add_entry :: "SimulatorState \<Rightarrow> HistoryEntry \<Rightarrow> SimulatorState" where
  "add_entry s e = s\<lparr>history := pop_back_over EVENT_HISTORY (e # history s)\<rparr>"

definition push_history :: "nat \<Rightarrow> string \<Rightarrow> Style \<Rightarrow> SimulatorState \<Rightarrow> SimulatorState" where
  "push_history wall text st s = add_entry s \<lparr>entry_ts = wall, entry_text = text, entry_style = st\<rparr>"

definition note_lag :: "u64 \<Rightarrow> SimulatorState \<Rightarrow> SimulatorState" where
  "note_lag skipped s =
     set_status (''Telemetry lag: dropped '' @ show_word skipped @ '' records'')
       (s\<lparr>lagged_records := saturating_add (lagged_records s) skipped\<rparr>)"

definition note_read_only :: "SimulatorState \<Rightarrow> SimulatorState" where
  "note_read_only s =
     set_status (if attached_to s \<noteq> None
       then ''Attach mode is read-only'' @ dash @ ''watch the running booth or use the web simulator controls.''
       else ''Live hardware monitor'' @ dash @ ''use the real phone (input is read-only).'') s"

section \<open>Keys\<close>

datatype KeyCode = CharKey char | EscKey | OtherKey

record KeyEvent =
  key_code :: KeyCode
  key_ctrl :: bool

datatype TuiAction = Continue | Quit

text \<open>What is pushed into the mocked GPIO port: an edge at once, or (by the task that releases the power
  button) a level of a pin after some milliseconds, stamped then.\<close>

datatype Injection = PushEdge GpioEdge | PushLater u64 PinRole bool

definition bool_str :: "bool \<Rightarrow> string" where
  "bool_str b = (if b then ''true'' else ''false'')"

definition short_power_press ::
    "(nat \<Rightarrow> u64) \<Rightarrow> nat \<Rightarrow> SimulatorState \<Rightarrow> SimulatorState \<times> Injection list" where
  "short_power_press mono_ns wall s =
     (push_history wall ''inject: power button short press (reboot)'' (Fg Cyan False)
        (set_status ''Power button: short press (reboot)'' s),
      [PushEdge \<lparr>role = PowerButton, level = True, at_monotonic_ns = mono_ns 0\<rparr>,
       PushEdge \<lparr>role = PowerButton, level = False, at_monotonic_ns = mono_ns 1\<rparr>])"

definition long_power_press ::
    "(nat \<Rightarrow> u64) \<Rightarrow> nat \<Rightarrow> SimulatorState \<Rightarrow> SimulatorState \<times> Injection list" where
  "long_power_press mono_ns wall s =
     (push_history wall ''inject: power button hold (power off)'' (Fg Red False)
        (set_status ''Power button: holding (power off)'' s),
      [PushEdge \<lparr>role = PowerButton, level = True, at_monotonic_ns = mono_ns 0\<rparr>,
       PushLater (saturating_add (power_button_hold_ms s) 300) PowerButton False])"

definition toggle_hook ::
    "(nat \<Rightarrow> u64) \<Rightarrow> nat \<Rightarrow> SimulatorState \<Rightarrow> SimulatorState \<times> Injection list" where
  "toggle_hook mono_ns wall s =
     (let lv = (\<not> hook_on_hook s);
          action = (if lv then ''Hung up'' else ''Lifted receiver'')
      in (push_history wall (''inject: hook level='' @ bool_str lv @ '' ('' @ action @ '')'') (Fg Cyan False)
            (set_status action (s\<lparr>hook_on_hook := lv\<rparr>)),
          [PushEdge \<lparr>role = Hook, level = lv, at_monotonic_ns = mono_ns 0\<rparr>]))"

definition dial_digit ::
    "(nat \<Rightarrow> u64) \<Rightarrow> nat \<Rightarrow> u8 \<Rightarrow> SimulatorState \<Rightarrow> SimulatorState \<times> Injection list" where
  "dial_digit mono_ns wall digit s =
     (let pulses = (if digit = 0 then 10 else digit) in
      (push_history wall (''inject: dial '' @ show_word digit @ '' ('' @ show_word pulses @ '' pulses)'') (Fg Cyan False)
         (set_status (''Dialed '' @ show_word digit @ '' ('' @ show_word pulses @ '' pulses)'') s),
       concat (map (\<lambda>i. [PushEdge \<lparr>role = PinRole.RotaryPulse, level = False, at_monotonic_ns = mono_ns (2 * i)\<rparr>,
           PushEdge \<lparr>role = PinRole.RotaryPulse, level = True, at_monotonic_ns = mono_ns (2 * i + 1)\<rparr>])
         [0..<unat pulses])))"

text \<open>\<open>inject\<close>: is there an injector?\<close>

definition handle_key ::
    "(nat \<Rightarrow> u64) \<Rightarrow> nat \<Rightarrow> bool \<Rightarrow> SimulatorState \<Rightarrow> KeyEvent \<Rightarrow> SimulatorState \<times> TuiAction \<times> Injection list" where
  "handle_key mono_ns wall inject s key =
     (let acting = (\<lambda>act. if inject then (case act s of (s', pushed) \<Rightarrow> (s', Continue, pushed))
            else (note_read_only s, Continue, []))
      in case key_code key of
           EscKey \<Rightarrow> (s, Quit, [])
         | CharKey c \<Rightarrow>
             (if c = CHR ''q'' then (s, Quit, [])
              else if c = CHR ''c'' \<and> key_ctrl key then (s, Quit, [])
              else if c = CHR ''h'' \<or> c = CHR '' '' then acting (toggle_hook mono_ns wall)
              else case digit_value c of
                Some d \<Rightarrow>
                  acting (\<lambda>s. if hook_on_hook s
                    then (set_status ''Lift the receiver before dialing (press [h] or space).'' s, [])
                    else dial_digit mono_ns wall (of_nat d) s)
              | None \<Rightarrow>
                  (if c = CHR ''p'' then acting (short_power_press mono_ns wall)
                   else if c = CHR ''P'' then acting (long_power_press mono_ns wall)
                   else (s, Continue, [])))
         | OtherKey \<Rightarrow> (s, Continue, []))"

section \<open>Telemetry\<close>

definition derive_booth_status :: "string \<Rightarrow> string" where
  "derive_booth_status t =
     (if t \<in> {''idle'', ''error''} then ''idle''
      else if t \<in> {''dial_tone'', ''dialing''} then ''dial_tone''
      else if t \<in> {''ringing_question'', ''playing_question'', ''beep''} then ''playing_question''
      else if t = ''recording'' then ''recording''
      else if t \<in> {''finishing_timeout_recording'', ''uploading'', ''uploading_timeout'', ''recording_end_beep''}
      then ''uploading''
      else if t = ''playing_message'' then ''playing_message''
      else if t = ''playing_instructions'' then ''playing_instructions''
      else if t = ''call_unavailable'' then ''call_unavailable''
      else ''unknown'')"

definition channel_debug :: "AudioChannel \<Rightarrow> string" where
  "channel_debug c = (case c of Input \<Rightarrow> ''Input'' | Output \<Rightarrow> ''Output'')"

definition pin_role_debug :: "PinRole \<Rightarrow> string" where
  "pin_role_debug r = (case r of PinRole.RotaryPulse \<Rightarrow> ''RotaryPulse'' | RotaryRead \<Rightarrow> ''RotaryRead''
     | Hook \<Rightarrow> ''Hook'' | PowerButton \<Rightarrow> ''PowerButton'')"

definition led_text :: "LedColour \<Rightarrow> LedPattern \<Rightarrow> string" where
  "led_text c p = led_colour_str c @ '' / '' @ led_pattern_str p"

text \<open>The line a record adds to the history, if it adds one.\<close>

definition history_line :: "TelemetryEvent \<Rightarrow> (string \<times> Style) option" where
  "history_line e = (case e of
     StateTransition _ to cause _ \<Rightarrow> Some (''state -> '' @ to @ '' (cause: '' @ cause @ '')'', Fg Green True)
   | TelemetryEvent.DigitDialed digit pulses _ \<Rightarrow>
       Some (''digit decoded: '' @ show_word digit @ '' ('' @ show_word pulses @ '' pulses)'', Fg Magenta False)
   | AudioLevelEvent _ \<Rightarrow> None
   | AudioDeviceChange name ch \<Rightarrow> Some (''audio device ('' @ channel_debug ch @ ''): '' @ name, Fg Blue False)
   | OperatorRequest i route \<Rightarrow> Some (''operator -> '' @ route @ '' (id='' @ i @ '')'', Fg Blue False)
   | OperatorResponse i code ms \<Rightarrow>
       Some (''operator <- '' @ show_word code @ '' in '' @ show_word ms @ ''ms (id='' @ i @ '')'',
         Fg (if 400 \<le> code then Red else Blue) False)
   | TelemetryEvent.Error source message \<Rightarrow> Some (''error ['' @ source @ ''] '' @ message, Fg Red True)
   | TelemetryEvent.Log lv target message \<Rightarrow>
       Some (lv @ '' ['' @ target @ ''] '' @ message,
         Fg (if lv = ''error'' then Red else if lv = ''warn'' then Yellow else DarkGray) False)
   | StatusLed colour pattern _ \<Rightarrow> Some (''status LED -> '' @ led_text colour pattern, Fg Yellow False)
   | GpioEdgeEvent edge \<Rightarrow>
       Some (''gpio edge '' @ pin_role_debug (role edge) @ '' level='' @ bool_str (level edge), Fg DarkGray False)
   | SystemSample _ _ \<Rightarrow> None
   | CallStarted sid _ \<Rightarrow> Some (''call started (session='' @ sid @ '')'', Fg Green False)
   | CallEnded sid outcome _ _ \<Rightarrow>
       Some (''call ended ('' @ call_outcome_str outcome @ '', session='' @ sid @ '')'', Fg Green False)
   | TelemetryEvent.RecordingStarted i sid _ \<Rightarrow>
       Some (''recording started id='' @ i @ '' session='' @ sid, Fg Magenta False)
   | RecordingStopped i _ ms bytes _ \<Rightarrow>
       Some (''recording stopped id='' @ i @ '' duration='' @ show_word ms @ ''ms bytes='' @ show_word bytes,
         Fg Magenta False)
   | UploadStarted rid _ _ \<Rightarrow> Some (''upload started recording='' @ rid, Fg Blue False)
   | UploadCompleted rid _ ms bytes _ \<Rightarrow>
       Some (''upload completed recording='' @ rid @ '' duration='' @ show_word ms @ ''ms bytes='' @ show_word bytes,
         Fg Blue False)
   | TelemetryEvent.UploadFailed rid _ message _ \<Rightarrow>
       Some (''upload failed recording='' @ rid @ '': '' @ message, Fg Red True))"

text \<open>What it changes besides.\<close>

definition apply_event :: "SimulatorState \<Rightarrow> TelemetryEvent \<Rightarrow> SimulatorState" where
  "apply_event s e = (case e of
     StateTransition _ to _ _ \<Rightarrow> s\<lparr>shown_state := to\<rparr>
   | AudioLevelEvent l \<Rightarrow>
       (let view = \<lparr>view_peak = peak l, view_rms = rms l\<rparr> in
        case channel l of Input \<Rightarrow> s\<lparr>audio_in := view\<rparr> | Output \<Rightarrow> s\<lparr>audio_out := view\<rparr>)
   | StatusLed colour pattern _ \<Rightarrow> s\<lparr>shown_led := led_text colour pattern\<rparr>
   | GpioEdgeEvent edge \<Rightarrow>
       (if role edge = Hook then s\<lparr>hook_on_hook := level edge, hook_known := True\<rparr> else s)
   | _ \<Rightarrow> s)"

definition sim_ingest :: "SimulatorState \<Rightarrow> TelemetryRecord \<Rightarrow> SimulatorState" where
  "sim_ingest s r =
     (let s1 = apply_event s (payload r);
          s2 = (case history_line (payload r) of
            None \<Rightarrow> s1
          | Some (text, st) \<Rightarrow>
              s1\<lparr>history := \<lparr>entry_ts = ts r, entry_text = text, entry_style = st\<rparr> # history s1\<rparr>)
      in s2\<lparr>shown_status := derive_booth_status (shown_state s2),
            history := pop_back_over EVENT_HISTORY (history s2)\<rparr>)"

section \<open>What is drawn\<close>

definition header_texts :: "SimulatorState \<Rightarrow> string list" where
  "header_texts s =
     [(if read_only s then ''Telephone Booth Monitor'' else ''Telephone Booth Simulator''), ''   '',
      (case attached_to s of
         Some target \<Rightarrow> ''[attached: '' @ target @ '']''
       | None \<Rightarrow> ''['' @ (if mock_io s then ''mock I/O'' else ''real I/O'') @ '']''),
      ''   state='', shown_state s, ''   status='', shown_status s, ''   led='', shown_led s, ''   hook='',
      (if \<not> hook_known s then ''unknown'' else if hook_on_hook s then ''on-hook'' else ''off-hook'')]"

definition footer_texts :: "SimulatorState \<Rightarrow> string list" where
  "footer_texts s =
     [(if attached_to s \<noteq> None then ''Controls: [q]/Esc/Ctrl+C quit   (attached read-only view)''
       else if read_only s
       then ''Controls: [q]/Esc/Ctrl+C quit   (live hardware'' @ dash @ ''dial the real phone)''
       else ''Controls: [h]/space toggle hook   [0-9] dial digit   [p] power reboot   [P] power off   [q]/Esc/Ctrl+C quit''),
      status_line s @ ''  '' @
        (case log_path s of Some file \<Rightarrow> ''Log: '' @ file | None \<Rightarrow> ''Log: <stdout>'') @
        (if 0 < lagged_records s
         then ''   (dropped '' @ show_word (lagged_records s) @ '' telemetry records)'' else [])]"

section \<open>The loop\<close>

datatype TelemetryMessage =
  MsgRecord TelemetryRecord | MsgLagged u64 | MsgStatus string | MsgClosed

text \<open>What the feed of a local bus and that of the attach loop yield.\<close>

datatype LocalRecv = LocalRecord TelemetryRecord | LocalLagged u64 | LocalClosed

definition local_message :: "LocalRecv \<Rightarrow> TelemetryMessage" where
  "local_message r = (case r of LocalRecord rec \<Rightarrow> MsgRecord rec | LocalLagged n \<Rightarrow> MsgLagged n
     | LocalClosed \<Rightarrow> MsgClosed)"

definition remote_messages :: "AttachOut list \<Rightarrow> TelemetryMessage list" where
  "remote_messages outs = List.map_filter (\<lambda>out. case out of
     Ingest r \<Rightarrow> Some (MsgRecord r) | ShowStatus t \<Rightarrow> Some (MsgStatus t) | _ \<Rightarrow> None) outs"

text \<open>One turn: whichever branch is ready, keys before telemetry before the ticker.\<close>

datatype TuiInput =
    Key KeyEvent "nat \<Rightarrow> u64" nat
  | OtherTerminalEvent
  | TerminalError string
  | TerminalClosed
  | Telemetry TelemetryMessage
  | Ticked

datatype TuiOut = Inject Injection | SendShutdown

record Tui =
  tui_state :: SimulatorState
  tui_outcome :: "(unit, string) result option"

definition tui_step :: "bool \<Rightarrow> bool \<Rightarrow> Tui \<Rightarrow> TuiInput \<Rightarrow> Tui \<times> TuiOut list" where
  "tui_step has_runtime inject tui input =
     (if tui_outcome tui \<noteq> None then (tui, [])
      else case input of
        Key key mono_ns wall \<Rightarrow>
          (case handle_key mono_ns wall inject (tui_state tui) key of
             (s, Quit, pushed) \<Rightarrow>
               (tui\<lparr>tui_state := s, tui_outcome := Some (Inr ())\<rparr>,
                map Inject pushed @ (if has_runtime then [SendShutdown] else []))
           | (s, Continue, pushed) \<Rightarrow> (tui\<lparr>tui_state := s\<rparr>, map Inject pushed))
      | OtherTerminalEvent \<Rightarrow> (tui, [])
      | TerminalError err \<Rightarrow> (tui\<lparr>tui_outcome := Some (Inl (''read terminal event: '' @ err))\<rparr>, [])
      | TerminalClosed \<Rightarrow> (tui\<lparr>tui_outcome := Some (Inr ())\<rparr>, [])
      | Telemetry m \<Rightarrow>
          (case m of
             MsgRecord r \<Rightarrow> (tui\<lparr>tui_state := sim_ingest (tui_state tui) r\<rparr>, [])
           | MsgLagged n \<Rightarrow> (tui\<lparr>tui_state := note_lag n (tui_state tui)\<rparr>, [])
           | MsgStatus t \<Rightarrow> (tui\<lparr>tui_state := set_status t (tui_state tui)\<rparr>, [])
           | MsgClosed \<Rightarrow> (tui\<lparr>tui_outcome := Some (Inr ())\<rparr>, []))
      | Ticked \<Rightarrow> (tui, []))"

section \<open>The command line\<close>

text \<open>The configuration \<open>run_simulator\<close> starts the runtime with.\<close>

definition simulator_config :: "RuntimeConfig \<Rightarrow> RuntimeConfig" where
  "simulator_config c =
     (let c1 = c\<lparr>debug_allow_controls := True\<rparr>;
          pb = power_button c1
      in if pb_enabled pb then c1
         else c1\<lparr>power_button := pb\<lparr>
           hold_ms := (if hold_ms pb = 0 then hold_ms power_button_default else hold_ms pb),
           pb_enabled := True\<rparr>\<rparr>)"

record RunFlags =
  flag_mock :: bool
  flag_simulator :: bool
  flag_tui :: bool
  flag_attach :: "AttachUrl option"
  flag_token :: "string option"

text \<open>What clap rejects: the \<open>requires\<close> and \<open>conflicts_with_all\<close> of the arguments.\<close>

definition cli_accepts :: "RunFlags \<Rightarrow> bool" where
  "cli_accepts f =
     ((flag_attach f \<noteq> None \<longrightarrow> flag_tui f \<and> \<not> flag_mock f \<and> \<not> flag_simulator f) \<and>
      (flag_token f \<noteq> None \<longrightarrow> flag_attach f \<noteq> None))"

datatype Launch =
    RunAttached AttachUrl string
  | RunMonitor bool RuntimeMode
  | RunSimulator bool RuntimeMode
  | RunHeadless bool RuntimeMode

definition run_command ::
    "(string option \<Rightarrow> (string, string) result) \<Rightarrow> RuntimeConfig \<Rightarrow> RunFlags \<Rightarrow> (Launch, string) result" where
  "run_command resolve config f =
     (let mode = (\<lambda>m. if m then RuntimeMode.Mock else RuntimeMode.Real) in
      case flag_attach f of
        Some url \<Rightarrow> (case resolve (flag_token f) of
            Inl err \<Rightarrow> Inl err
          | Inr t \<Rightarrow> Inr (RunAttached url t))
      | None \<Rightarrow>
          (let m = (flag_mock f \<or> mock (runtime config)) in
           if flag_tui f then Inr (RunMonitor m (mode m))
           else if flag_simulator f \<or> simulator (runtime config)
           then Inr (RunSimulator m RuntimeMode.Simulator)
           else Inr (RunHeadless m (mode m))))"

text \<open>How each starts the loop: the state, whether there is a runtime to shut down, and whether there is an
  injector. A headless booth has no terminal interface.\<close>

definition run_attached ::
    "(string \<Rightarrow> IpAddr option) \<Rightarrow> string option \<Rightarrow> AttachUrl \<Rightarrow> (SimulatorState, string) result" where
  "run_attached parse_ip log url =
     (case validate_attach_url_security parse_ip url of
        Inl err \<Rightarrow> Inl err
      | Inr _ \<Rightarrow> (case attach_target_label url of
          Inl err \<Rightarrow> Inl err
        | Inr target \<Rightarrow> Inr (simulator_attached target log)))"

definition tui_of ::
    "(string \<Rightarrow> IpAddr option) \<Rightarrow> string option \<Rightarrow> RuntimeConfig \<Rightarrow> Launch \<Rightarrow>
     ((SimulatorState \<times> bool \<times> bool) option, string) result" where
  "tui_of parse_ip log config l = (case l of
     RunAttached url t \<Rightarrow> (case run_attached parse_ip log url of
       Inl err \<Rightarrow> Inl err
     | Inr s \<Rightarrow> Inr (Some (s, False, False)))
   | RunMonitor m mode \<Rightarrow> Inr (Some (simulator_new m True log, True, False))
   | RunSimulator m mode \<Rightarrow>
       Inr (Some ((simulator_new m False log)
         \<lparr>power_button_hold_ms := hold_ms (power_button (simulator_config config))\<rparr>, True, True))
   | RunHeadless m mode \<Rightarrow> Inr None)"

definition run_tui ::
    "(string \<Rightarrow> IpAddr option) \<Rightarrow> string option \<Rightarrow> RuntimeConfig \<Rightarrow> Launch \<Rightarrow> TuiInput list \<Rightarrow> TuiOut list" where
  "run_tui parse_ip log config l inputs = (case tui_of parse_ip log config l of
     Inr (Some (s, has_runtime, inject)) \<Rightarrow>
       snd (run_machine (tui_step has_runtime inject) \<lparr>tui_state = s, tui_outcome = None\<rparr> inputs)
   | _ \<Rightarrow> [])"

section \<open>The history\<close>

lemma pop_back_over_eq: "pop_back_over cap xs = take cap xs"
proof (induction cap xs rule: pop_back_over.induct)
  case (2 cap x xs)
  show ?case
  proof (cases "cap < length (x # xs)")
    case True
    then have "pop_back_over cap (x # xs) = take cap (butlast (x # xs))"
      using "2.IH" by (simp del: butlast.simps)
    then show ?thesis
      using True by (simp only: take_butlast)
  qed simp
qed simp

interpretation event_history: bounded_fifo add_entry "\<lambda>s. rev (history s)" id EVENT_HISTORY
    "\<lambda>_ s. length (history s) \<le> EVENT_HISTORY"
  by unfold_locales (auto simp: add_entry_def pop_back_over_eq keep_last_def take_rev rev_take)

definition history_entries :: "TelemetryRecord list \<Rightarrow> HistoryEntry list" where
  "history_entries rs = List.map_filter (\<lambda>r. map_option
     (\<lambda>(text, st). \<lparr>entry_ts = ts r, entry_text = text, entry_style = st\<rparr>) (history_line (payload r))) rs"

lemma history_entries_simps [simp]:
  "history_entries [] = []"
  "history_entries (r # rs) = (case history_line (payload r) of
     None \<Rightarrow> history_entries rs
   | Some (text, st) \<Rightarrow> \<lparr>entry_ts = ts r, entry_text = text, entry_style = st\<rparr> # history_entries rs)"
  by (simp_all add: history_entries_def List.map_filter_simps split: option.split)

lemma history_apply [simp]: "history (apply_event s e) = history s"
  by (simp add: apply_event_def Let_def split: TelemetryEvent.split AudioChannel.split)

lemma history_ingest:
  "history (sim_ingest s r) = history (case history_entries [r] of [] \<Rightarrow> s | e # _ \<Rightarrow> add_entry s e)"
  if "length (history s) \<le> EVENT_HISTORY"
  using that
  by (auto simp: sim_ingest_def Let_def add_entry_def pop_back_over_eq split: option.split)

text \<open>The history shows the newest events, newest first: after any telemetry it is the lines of the last records
  that have one, up to sixty-four.\<close>
theorem history_is_newest:
  "history (foldl sim_ingest (simulator_new mocked watching log) rs) = take EVENT_HISTORY (rev (history_entries rs))"
proof (induction rs rule: rev_induct)
  case Nil
  then show ?case by (simp add: simulator_new_def)
next
  case (snoc r rs)
  have "history_entries (rs @ [r]) = history_entries rs @ history_entries [r]"
    by (induction rs) (auto split: option.split)
  then show ?case
    using snoc by (auto simp: history_ingest add_entry_def pop_back_over_eq split: option.split)
       (simp_all add: EVENT_HISTORY_def)
qed

section \<open>Watching never acts\<close>

lemma watching_injects_nothing:
  "snd (snd (handle_key mono_ns wall False s key)) = []"
  by (simp add: handle_key_def Let_def split: KeyCode.split option.split)

lemma tui_outputs:
  "set (snd (run_machine (tui_step has_runtime False) tui inputs)) \<subseteq> (if has_runtime then {SendShutdown} else {})"
proof (induction inputs arbitrary: tui)
  case (Cons i inputs)
  have "set (snd (tui_step has_runtime False tui i)) \<subseteq> (if has_runtime then {SendShutdown} else {})"
    using watching_injects_nothing
    by (auto simp: tui_step_def split: TuiInput.split TelemetryMessage.split prod.split TuiAction.split)
      (metis snd_conv list.set(1) list.simps(8) image_empty empty_iff empty_set)+
  then show ?case
    using Cons.IH by simp
qed simp

text \<open>Asked to watch, the program never acts on the booth: whatever the configuration says of the simulator,
  with \<open>--tui\<close> no key ever injects an edge; with \<open>--attach\<close> the loop does not even stop the booth it
  watches when it ends.\<close>
theorem watching_never_acts:
  assumes "cli_accepts f" and "flag_tui f" and "run_command resolve config f = Inr l"
  shows "set (run_tui parse_ip log config l inputs) \<subseteq> (if flag_attach f = None then {SendShutdown} else {})"
proof (cases "tui_of parse_ip log config l")
  case (Inr r)
  have "\<not> inject \<and> (flag_attach f \<noteq> None \<longrightarrow> \<not> has_runtime)" if "r = Some (s, has_runtime, inject)" for s has_runtime inject
    using assms that Inr
    by (auto simp: run_command_def tui_of_def Let_def split: option.splits sum.splits if_splits)
  moreover obtain s hr inj where "r = None \<or> r = Some (s, hr, inj)"
    by (cases r) auto
  ultimately show ?thesis
    using Inr tui_outputs [of hr "\<lparr>tui_state = s, tui_outcome = None\<rparr>" inputs]
    by (auto simp: run_tui_def split: if_splits)
qed (simp add: run_tui_def)

definition monitor_flags :: RunFlags where
  "monitor_flags = \<lparr>flag_mock = False, flag_simulator = True, flag_tui = True, flag_attach = None, flag_token = None\<rparr>"

theorem watching_never_acts_witness:
  "set (run_tui (\<lambda>_. None) None runtime_config_default (RunMonitor False RuntimeMode.Real)
     [Key \<lparr>key_code = CharKey (CHR ''h''), key_ctrl = False\<rparr> (\<lambda>_. 0) 0, TerminalClosed]) \<subseteq> {SendShutdown}"
  using watching_never_acts [of monitor_flags "\<lambda>_. Inl []" runtime_config_default]
  by (simp add: monitor_flags_def cli_accepts_def run_command_def runtime_config_default_def)

section \<open>From keys to the operator\<close>

text \<open>The core events the runtime makes of what is pushed, and the signals of its power button.\<close>

definition core_events :: "Injection list \<Rightarrow> Event list" where
  "core_events pushed = List.map_filter (\<lambda>i. case i of PushEdge e \<Rightarrow> event_from_gpio e | _ \<Rightarrow> None) pushed"

lemma core_events_simps [simp]:
  "core_events [] = []"
  "core_events (PushEdge e # is) = (case event_from_gpio e of Some ev \<Rightarrow> ev # core_events is | None \<Rightarrow> core_events is)"
  "core_events (xs @ ys) = core_events xs @ core_events ys"
  by (simp_all add: core_events_def List.map_filter_def split: option.split)

lemma core_events_pulses:
  "core_events (snd (dial_digit mono_ns wall digit s)) = replicate (if digit = 0 then 10 else unat digit) Event.RotaryPulse"
proof -
  have "core_events (concat (map (\<lambda>i. [PushEdge \<lparr>role = PinRole.RotaryPulse, level = False, at_monotonic_ns = f i\<rparr>,
      PushEdge \<lparr>role = PinRole.RotaryPulse, level = True, at_monotonic_ns = g i\<rparr>]) [0..<n])) = replicate n Event.RotaryPulse"
    for f g :: "nat \<Rightarrow> u64" and n
    by (induction n) (simp_all add: event_from_gpio_def replicate_append_same)
  then show ?thesis
    by (simp add: dial_digit_def Let_def)
qed

lemma digit_key:
  assumes "d < 10"
  shows "handle_key mono_ns wall inject s \<lparr>key_code = CharKey (digit_char d), key_ctrl = c\<rparr> =
    (if \<not> inject then (note_read_only s, Continue, [])
     else if hook_on_hook s
     then (set_status ''Lift the receiver before dialing (press [h] or space).'' s, Continue, [])
     else case dial_digit mono_ns wall (of_nat d) s of (s', pushed) \<Rightarrow> (s', Continue, pushed))"
proof -
  have "digit_value (digit_char d) = Some d"
    by (rule digit_value_digit_char [OF assms])
  moreover have "digit_value (CHR ''q'') = None" "digit_value (CHR ''c'') = None" "digit_value (CHR ''h'') = None"
      "digit_value (CHR '' '') = None"
    by (simp_all add: digit_value_def)
  ultimately show ?thesis
    by (auto simp: handle_key_def Let_def)
qed

definition press :: "char \<Rightarrow> KeyEvent" where
  "press c = \<lparr>key_code = CharKey c, key_ctrl = False\<rparr>"

lemma call_from_idle:
  assumes "1 \<le> n" and "n \<le> 10"
  shows "case run_machine handle State.Idle (HookOff # replicate n Event.RotaryPulse @ [Tick]) of (s, effs) \<Rightarrow>
     s = (if n = 1 \<or> n = 2 \<or> n = 10 then State.DialTone else State.CallUnavailable) \<and>
     filter is_fetch effs = (if n = 1 then [FetchRandomQuestion] else if n = 2 then [FetchRandomMessage]
        else if n = 10 then [FetchInstructions] else [])"
proof -
  obtain e where up: "handle State.Idle HookOff = (State.DialTone, e)" "filter is_fetch e = []"
    by (simp add: handle_def handle_with_call_availability_def available_defs is_fetch_def status_led_for_def
        LED_BRIGHTNESS_FULL_def LED_BRIGHTNESS_DIM_def)
  show ?thesis
    using rotary_digit_decoded [OF assms] up(2) unfolding run_machine_Cons up(1) fst_conv snd_conv Let_def
    by (auto simp: split_beta)
qed

lemma digit_pulses:
  assumes "d < 10"
  shows "(if (of_nat d :: u8) = 0 then 10 else unat (of_nat d :: u8)) = (if d = 0 then 10 else d)"
proof -
  have "unat (of_nat d :: u8) = d"
    using assms by (simp add: unat_of_nat take_bit_nat_eq_self)
  then show ?thesis by (auto simp: unat_eq_0)
qed

text \<open>C10. The keyboard is a telephone: from an idle booth, lifting the receiver and pressing a digit in the simulator
  makes, through the mocked port, the runtime's edge decoding and the pulse timeout, exactly the lookup
  of that digit, and nothing is looked up for the digits that have none. Without lifting it first, the
  digit does nothing.\<close>
theorem keyboard_is_a_telephone:
  fixes m :: nat and mocked log
  defines "d \<equiv> m mod 10" and "s0 \<equiv> simulator_new mocked False log"
  shows "let (s1, _, lift) = handle_key mono_ns wall True s0 (press (CHR ''h''));
      (s2, _, dial) = handle_key mono_ns wall True s1 (press (digit_char d));
      (state, effects) = run_machine handle State.Idle (core_events (lift @ dial) @ [Tick])
    in state = (if d \<in> {0, 1, 2} then State.DialTone else State.CallUnavailable) \<and>
       filter is_fetch effects =
         (if d = 1 then [FetchRandomQuestion] else if d = 2 then [FetchRandomMessage]
          else if d = 0 then [FetchInstructions] else []) \<and>
       snd (snd (handle_key mono_ns wall True s0 (press (digit_char d)))) = []"
proof -
  define n where "n = (if d = 0 then 10 else d)"
  have d: "d < 10" by (simp add: d_def)
  have n: "1 \<le> n" "n \<le> 10"
    using d by (simp_all add: n_def)
  have lift: "handle_key mono_ns wall True s0 (press (CHR ''h'')) =
      (fst (toggle_hook mono_ns wall s0), Continue, [PushEdge \<lparr>role = Hook, level = False, at_monotonic_ns = mono_ns 0\<rparr>])"
    by (simp add: handle_key_def press_def toggle_hook_def s0_def simulator_new_def Let_def)
  have off: "\<not> hook_on_hook (fst (toggle_hook mono_ns wall s0))"
    by (simp add: toggle_hook_def s0_def simulator_new_def push_history_def add_entry_def set_status_def Let_def)
  have dial: "core_events (snd (snd (handle_key mono_ns wall True (fst (toggle_hook mono_ns wall s0)) (press (digit_char d))))) =
      replicate n Event.RotaryPulse"
    using off digit_pulses [OF d] core_events_pulses [of mono_ns wall "of_nat d" "fst (toggle_hook mono_ns wall s0)"]
    by (simp add: press_def digit_key [OF d] n_def split_beta)
  have idle: "snd (snd (handle_key mono_ns wall True s0 (press (digit_char d)))) = []"
    by (simp add: press_def digit_key [OF d] s0_def simulator_new_def)
  obtain s2 a2 pushed where key: "handle_key mono_ns wall True (fst (toggle_hook mono_ns wall s0)) (press (digit_char d)) =
      (s2, a2, pushed)"
    by (rule prod_cases3)
  have events: "core_events ([PushEdge \<lparr>role = Hook, level = False, at_monotonic_ns = mono_ns 0\<rparr>] @ pushed) @ [Tick] =
      HookOff # replicate n Event.RotaryPulse @ [Tick]"
    using dial by (simp add: key event_from_gpio_def)
  have "n = 1 \<longleftrightarrow> d = 1" "n = 2 \<longleftrightarrow> d = 2" "n = 10 \<longleftrightarrow> d = 0"
    using d by (auto simp: n_def)
  then show ?thesis
    using call_from_idle [OF n] idle unfolding Let_def lift key prod.case events by auto
qed


text \<open>The simulator's runtime has a power button that can tell a press from a hold.\<close>
lemma simulator_button_usable:
  assumes "validate_config fs show_f32 c = Inr ()"
  shows "pb_enabled (power_button (simulator_config c)) \<and> 0 < hold_ms (power_button (simulator_config c)) \<and>
    debug_allow_controls (simulator_config c)"
  using assms
  by (auto simp: simulator_config_def Let_def power_button_default_def validate_config_def bail_first_iff word_gt_0)

text \<open>A key that is handled before the telemetry of an earlier one arrived acts on a stale handset: lifted and
  hung up in one go, the echo of the lift makes the simulator believe the receiver is off the hook, and
  the third press, meant to lift it, hangs up again.\<close>
lemma stale_echo_hangs_up_twice:
  fixes mocked log
  defines "s0 \<equiv> simulator_new mocked False log"
  shows "let (s1, _, lift) = handle_key mono_ns wall True s0 (press (CHR ''h''));
      (s2, _, hang_up) = handle_key mono_ns wall True s1 (press (CHR ''h''));
      s3 = sim_ingest s2 \<lparr>rec_id = 1, ts = 0, payload = GpioEdgeEvent \<lparr>role = Hook, level = False, at_monotonic_ns = 0\<rparr>\<rparr>;
      (s4, _, third) = handle_key mono_ns wall True s3 (press (CHR ''h''))
    in core_events (lift @ hang_up @ third) = [HookOff, HookOn, HookOn]"
  by (simp add: s0_def simulator_new_def handle_key_def press_def toggle_hook_def push_history_def add_entry_def
      set_status_def Let_def sim_ingest_def apply_event_def event_from_gpio_def split: option.split)

section \<open>The view is current\<close>














end
