(* ===== verification/MockAdapters.thy ===== *)
theory MockAdapters
  imports FileStorage OperatorCalls Gpio
begin

text \<open>
  The adapters for tests and dry runs (\<open>crates/booth-mock/src/lib.rs\<close>): the GPIO port fed by an injector,
  the scripted audio sink and source, the canned operator with its injected failures, and the
  recording LED, power controller and key-value store. Time (latencies, durations) is left out but for
  the duration reported in a response, which is an argument; a mock without telemetry publishes to nobody.
\<close>

section \<open>The GPIO port\<close>

record MockPort =
  port_queue :: "GpioEdge list"
  port_open :: bool              \<comment> \<open>the receiver is alive\<close>
  injector_gone :: bool
  hook_flag :: bool
  port_bus :: "TelemetryEvent list"

definition PORT_CAPACITY :: nat where "PORT_CAPACITY = 64"

definition mock_port_new :: MockPort where
  "mock_port_new = \<lparr>port_queue = [], port_open = True, injector_gone = False, hook_flag = True, port_bus = []\<rparr>"

text \<open>\<open>push\<close>: the hook flag is stored before the send, which waits (\<open>None\<close>) while the channel is full.\<close>

definition push_begin :: "GpioEdge \<Rightarrow> MockPort \<Rightarrow> MockPort" where
  "push_begin e p = (if role e = Hook then p\<lparr>hook_flag := level e\<rparr> else p)"

definition push_send :: "GpioEdge \<Rightarrow> MockPort \<Rightarrow> MockPort option" where
  "push_send e p =
     (if \<not> port_open p then Some p
      else if PORT_CAPACITY \<le> length (port_queue p) then None
      else Some (p\<lparr>port_queue := port_queue p @ [e], port_bus := port_bus p @ [GpioEdgeEvent e]\<rparr>))"

definition set_hook_on :: "bool \<Rightarrow> MockPort \<Rightarrow> MockPort" where
  "set_hook_on on p = p\<lparr>hook_flag := on\<rparr>"

definition power_button_edge :: "bool \<Rightarrow> GpioEdge" where
  "power_button_edge pressed = \<lparr>role = PowerButton, level = pressed, at_monotonic_ns = 0\<rparr>"

definition mock_next_edge :: "MockPort \<Rightarrow> (MockPort \<times> (GpioEdge, GpioError) result) option" where
  "mock_next_edge p = (case port_queue p of
     e # q \<Rightarrow> Some (p\<lparr>port_queue := q\<rparr>, Inr e)
   | [] \<Rightarrow> (if injector_gone p then Some (p, Inl (Stream ''mock gpio channel closed'')) else None))"

definition mock_snapshot :: "PinRole \<Rightarrow> MockPort \<Rightarrow> (bool, GpioError) result" where
  "mock_snapshot r p = Inr (r = Hook \<and> hook_flag p)"

section \<open>The audio sink and source\<close>

text \<open>\<open>end_permit\<close> is the permit that \<open>notify_one\<close> leaves when nobody waits.\<close>

record MockSink =
  sink_playing :: "AudioRef option"
  sink_history :: "AudioRef list"
  end_permit :: bool

definition mock_sink_new :: MockSink where
  "mock_sink_new = \<lparr>sink_playing = None, sink_history = [], end_permit = False\<rparr>"

definition finish_playback :: "MockSink \<Rightarrow> MockSink" where
  "finish_playback k = k\<lparr>end_permit := True\<rparr>"

definition mock_play :: "AudioRef \<Rightarrow> MockSink \<Rightarrow> MockSink \<times> (unit, AudioError) result" where
  "mock_play src k = (k\<lparr>sink_playing := Some src, sink_history := sink_history k @ [src]\<rparr>, Inr ())"

definition mock_stop :: "MockSink \<Rightarrow> MockSink \<times> (unit, AudioError) result" where
  "mock_stop k = (k\<lparr>sink_playing := None\<rparr>, Inr ())"

text \<open>\<open>None\<close> while it waits.\<close>

definition mock_wait_for_end :: "MockSink \<Rightarrow> (MockSink \<times> (unit, AudioError) result) option" where
  "mock_wait_for_end k =
     (if sink_playing k = None then Some (k, Inr ())
      else if end_permit k then Some (k\<lparr>end_permit := False, sink_playing := None\<rparr>, Inr ())
      else None)"

record MockSource =
  source_next_id :: nat
  in_flight_recording :: "RecordingId option"
  last_finished :: "RecordingId option"

definition mock_source_new :: MockSource where
  "mock_source_new = \<lparr>source_next_id = 0, in_flight_recording = None, last_finished = None\<rparr>"

definition mock_start :: "MockSource \<Rightarrow> MockSource \<times> (RecordingId, AudioError) result" where
  "mock_start k =
     (let n = source_next_id k + 1; i = ''rec-'' @ show_padded 6 n
      in (k\<lparr>source_next_id := n, in_flight_recording := Some i\<rparr>, Inr i))"

definition mock_source_stop :: "MockSource \<Rightarrow> MockSource \<times> (RecordingId option, AudioError) result" where
  "mock_source_stop k =
     (k\<lparr>in_flight_recording := None, last_finished := in_flight_recording k\<rparr>, Inr (in_flight_recording k))"

definition mock_path_of :: "RecordingId \<Rightarrow> (string, AudioError) result" where
  "mock_path_of i = Inr (''target/mock-recordings/'' @ i @ ''.flac'')"

definition mock_duration_of :: "RecordingId \<Rightarrow> u64 option" where
  "mock_duration_of i = Some 5000"

definition fake_level :: "f32_bits \<Rightarrow> f32_bits \<Rightarrow> AudioLevel" where
  "fake_level p r = \<lparr>channel = Input, peak = p, rms = r, level_at_monotonic_ns = 0\<rparr>"

section \<open>The operator\<close>

record MockOperator =
  request_seq :: u64
  mock_installation :: "InstallationState option"
  fail_installation :: "OperatorError option"
  installation_checks :: nat
  fail_complete_upload :: "OperatorError option"
  mock_questions :: "OperatorQuestion list"
  mock_messages :: "OperatorMessage list"
  mock_instructions :: "OperatorMessage list"
  mock_statuses :: "BoothStatus list"
  mock_uploads :: "UploadSlot list"
  fail_questions :: "OperatorError option"
  fail_events :: "OperatorError option"
  event_batches :: "string list"
  system_snapshots :: "(string \<times> string \<times> SystemSnapshot) list"

definition mock_operator_new :: MockOperator where
  "mock_operator_new =
     \<lparr>request_seq = 0, mock_installation = None, fail_installation = None, installation_checks = 0,
      fail_complete_upload = None, mock_questions = [], mock_messages = [], mock_instructions = [],
      mock_statuses = [], mock_uploads = [], fail_questions = None, fail_events = None,
      event_batches = [], system_snapshots = []\<rparr>"

definition status_of :: "('t, OperatorError) result \<Rightarrow> u16" where
  "status_of r = (case r of
     Inr _ \<Rightarrow> 200
   | Inl e \<Rightarrow> (case e of
       Auth _ \<Rightarrow> 401 | Unauthorized _ \<Rightarrow> 401
     | DuplicateRecording _ \<Rightarrow> 409 | Conflict _ \<Rightarrow> 409 | InstallationInactive _ \<Rightarrow> 409
     | InvalidArgument _ \<Rightarrow> 422 | Unprocessable _ \<Rightarrow> 422
     | PayloadTooLarge _ _ \<Rightarrow> 413
     | Server code _ \<Rightarrow> code
     | Protocol _ \<Rightarrow> 502
     | Transport _ \<Rightarrow> 503 | OperatorError.Unsupported _ \<Rightarrow> 503))"

definition begin_request :: "string \<Rightarrow> MockOperator \<Rightarrow> MockOperator \<times> string \<times> TelemetryEvent list" where
  "begin_request route k =
     (let n = request_seq k + 1; i = ''mock-'' @ show_word n
      in (k\<lparr>request_seq := n\<rparr>, i, [OperatorRequest i route]))"

definition finish_request :: "string \<Rightarrow> u64 \<Rightarrow> ('t, OperatorError) result \<Rightarrow> TelemetryEvent list" where
  "finish_request i ms r =
     OperatorResponse i (status_of r) ms #
     (case r of
        Inr _ \<Rightarrow> []
      | Inl e \<Rightarrow> (case e of
          InstallationInactive _ \<Rightarrow> []
        | _ \<Rightarrow> [TelemetryEvent.Error ''booth_mock::operator'' (operator_error_str e)]))"

text \<open>A request between the two: \<open>act\<close> is what happens to the state under the lock.\<close>

definition request ::
    "string \<Rightarrow> u64 \<Rightarrow> (MockOperator \<Rightarrow> MockOperator \<times> ('t, OperatorError) result) \<Rightarrow> MockOperator \<Rightarrow>
     MockOperator \<times> ('t, OperatorError) result \<times> TelemetryEvent list" where
  "request route ms act k =
     (let (k1, i, started) = begin_request route k; (k2, r) = act k1
      in (k2, r, started @ finish_request i ms r))"

definition mock_installation_state ::
    "MockOperator \<Rightarrow> MockOperator \<times> (InstallationState option, OperatorError) result" where
  "mock_installation_state k =
     (k\<lparr>installation_checks := installation_checks k + 1\<rparr>,
      case fail_installation k of Some e \<Rightarrow> Inl e | None \<Rightarrow> Inr (mock_installation k))"

definition take_question :: "MockOperator \<Rightarrow> MockOperator \<times> (OperatorQuestion, OperatorError) result" where
  "take_question k = (case fail_questions k of
     Some e \<Rightarrow> (k\<lparr>fail_questions := None\<rparr>, Inl e)
   | None \<Rightarrow> (case mock_questions k of
       [] \<Rightarrow> (k, Inl (Protocol ''no questions queued''))
     | q # qs \<Rightarrow> (k\<lparr>mock_questions := qs\<rparr>, Inr q)))"

definition take_message :: "MockOperator \<Rightarrow> MockOperator \<times> (OperatorMessage, OperatorError) result" where
  "take_message k = (case mock_messages k of
     [] \<Rightarrow> (k, Inl (Protocol ''no messages queued''))
   | m # ms \<Rightarrow> (k\<lparr>mock_messages := ms\<rparr>, Inr m))"

definition take_instructions :: "MockOperator \<Rightarrow> MockOperator \<times> (OperatorMessage, OperatorError) result" where
  "take_instructions k = (case mock_instructions k of
     [] \<Rightarrow> (k, Inl (Protocol ''no instructions queued''))
   | m # ms \<Rightarrow> (k\<lparr>mock_instructions := ms\<rparr>, Inr m))"

definition add_upload :: "MockOperator \<Rightarrow> MockOperator \<times> (UploadSlot, OperatorError) result" where
  "add_upload k =
     (let i = ''slot-'' @ show_nat (length (mock_uploads k) + 1);
          slot = \<lparr>slot_id = i, upload_url = ''https://mock.invalid/upload'', blob_name = ''recordings/'' @ i @ ''.flac''\<rparr>
      in (k\<lparr>mock_uploads := mock_uploads k @ [slot]\<rparr>, Inr slot))"

text \<open>\<open>body.matches\<close> counts occurrences that do not overlap.\<close>

function count_matches :: "string \<Rightarrow> string \<Rightarrow> nat" where
  "count_matches pat text =
     (if pat = [] \<or> text = [] then 0
      else if take (length pat) text = pat then 1 + count_matches pat (drop (length pat) text)
      else count_matches pat (tl text))"
  by pat_completeness auto
termination by (relation "measure (\<lambda>(pat, text). length text)") (auto simp: neq_Nil_conv)

declare count_matches.simps [simp del]

definition EVENT_ID_KEY :: string where
  "EVENT_ID_KEY = CHR 0x22 # ''eventId'' @ [CHR 0x22]"

definition store_events :: "string \<Rightarrow> MockOperator \<Rightarrow> MockOperator \<times> (EventBatchAck, OperatorError) result" where
  "store_events body k = (case fail_events k of
     Some e \<Rightarrow> (k, Inl e)
   | None \<Rightarrow> (k\<lparr>event_batches := event_batches k @ [body]\<rparr>,
       Inr \<lparr>accepted = of_nat (min (count_matches EVENT_ID_KEY body) (2 ^ 32 - 1)), duplicates = 0\<rparr>))"

datatype MockCall =
    RandomQuestion | RandomMessage | Instructions | InitUpload | PutUpload
  | CompleteUpload | PutStatusCall BoothStatus | PushEvents string
  | PutSystem string string SystemSnapshot

definition strip :: "'s \<times> ('t, OperatorError) result \<times> TelemetryEvent list \<Rightarrow> 's \<times> TelemetryEvent list" where
  "strip x = (case x of (k, _, evs) \<Rightarrow> (k, evs))"

definition mock_call :: "u64 \<Rightarrow> MockOperator \<Rightarrow> MockCall \<Rightarrow> MockOperator \<times> TelemetryEvent list" where
  "mock_call ms k c = (case c of
     RandomQuestion \<Rightarrow> strip (request ''GET /mock/random-question'' ms take_question k)
   | RandomMessage \<Rightarrow> strip (request ''GET /mock/random-message'' ms take_message k)
   | Instructions \<Rightarrow> strip (request ''GET /mock/instructions/random'' ms take_instructions k)
   | InitUpload \<Rightarrow> strip (request ''POST /mock/messages'' ms add_upload k)
   | PutUpload \<Rightarrow> strip (request ''PUT /mock/upload'' ms (\<lambda>k. (k, Inr ())) k)
   | CompleteUpload \<Rightarrow> strip (request ''POST /mock/messages/complete'' ms
       (\<lambda>k. (k, case fail_complete_upload k of Some e \<Rightarrow> Inl e | None \<Rightarrow> Inr ())) k)
   | PutStatusCall s \<Rightarrow> strip (request ''PUT /mock/status'' ms
       (\<lambda>k. (k\<lparr>mock_statuses := mock_statuses k @ [s]\<rparr>, Inr ())) k)
   | PushEvents body \<Rightarrow> strip (request ''POST /mock/events'' ms (store_events body) k)
   | PutSystem booth version snap \<Rightarrow> strip (request ''PUT /mock/system'' ms
       (\<lambda>k. (k\<lparr>system_snapshots := system_snapshots k @ [(booth, version, snap)]\<rparr>, Inr ())) k))"

section \<open>The LED, the power controller and the store\<close>

definition mock_led_set :: "LedColour \<Rightarrow> LedPattern \<Rightarrow> (LedColour \<times> LedPattern) list \<Rightarrow> (LedColour \<times> LedPattern) list" where
  "mock_led_set c p shown = shown @ [(c, p)]"

definition mock_led_current :: "(LedColour \<times> LedPattern) list \<Rightarrow> (LedColour \<times> LedPattern) option" where
  "mock_led_current shown = (if shown = [] then None else Some (last shown))"

datatype PowerAction = RebootAction | PowerOffAction

definition mock_power :: "PowerAction \<Rightarrow> PowerAction list \<Rightarrow> PowerAction list" where
  "mock_power a done_actions = done_actions @ [a]"

type_synonym mock_store = "(string \<times> string) list"

definition mock_store_get :: "string \<Rightarrow> mock_store \<Rightarrow> string option" where
  "mock_store_get k s = map_of s k"

definition mock_store_set :: "string \<Rightarrow> string \<Rightarrow> mock_store \<Rightarrow> mock_store" where
  "mock_store_set k v s = (k, v) # filter (\<lambda>(k', _). k' \<noteq> k) s"

definition mock_store_delete :: "string \<Rightarrow> mock_store \<Rightarrow> mock_store" where
  "mock_store_delete k s = filter (\<lambda>(k', _). k' \<noteq> k) s"

section \<open>The mocks keep the contracts\<close>

lemma map_of_without: "map_of (filter (\<lambda>(k', _). k' \<noteq> k) s) k'' = (if k'' = k then None else map_of s k'')"
  by (induction s) auto

interpretation mock_storage: key_value mock_store_get mock_store_set mock_store_delete
  by unfold_locales (simp_all add: mock_store_get_def mock_store_set_def mock_store_delete_def map_of_without)

fun mock_store_op :: "string StoreOp \<Rightarrow> mock_store \<Rightarrow> mock_store" where
  "mock_store_op (Put k v) s = mock_store_set k v s"
| "mock_store_op (Del k) s = mock_store_delete k s"

text \<open>The store of the tests cannot be told from the one on disk: after the same calls both return the same
  value for every key.\<close>
theorem mock_store_is_file_store:
  "mock_store_get k (fold mock_store_op ops []) = lookup_key k (fold (storage_op tmp) ops [])"
proof -
  have same: "mock_store_op = mock_storage.apply_op"
  proof (intro ext)
    show "mock_store_op op s = mock_storage.apply_op op s" for op s
      by (cases op) (simp_all add: mock_storage.apply_op.simps)
  qed
  have "mock_storage.view (fold mock_store_op ops []) = fold map_op ops Map.empty"
    using mock_storage.view_run [of ops "[]"] by (simp add: same mock_storage.view_def mock_store_get_def)
  moreover have "file_storage.view (fold (storage_op tmp) ops []) = fold map_op ops Map.empty"
    using file_storage.view_run [of tmp ops "[]"] by (simp add: storage_op_apply file_storage.view_def lookup_key_eq)
  ultimately show ?thesis
    by (metis file_storage.view_def mock_storage.view_def)
qed

text \<open>The status a response reports is the one the runtime reports for the same answer.\<close>
lemma status_of_runtime: "status_of r = operator_status r"
  by (simp add: status_of_def operator_status_def)

text \<open>\<open>fail_questions\<close> is documented to fail until it is cleared; it is taken by the first call, so the next
  one is answered.\<close>
lemma questions_fail_once:
  "fail_questions k = Some e \<Longrightarrow> mock_questions k = q # qs \<Longrightarrow>
   (let (k1, r1) = take_question k; (k2, r2) = take_question k1 in r1 = Inl e \<and> r2 = Inr q)"
  by (simp add: take_question_def)

text \<open>A failure of \<open>push_events_json\<close> lasts, and no failed batch is recorded.\<close>
lemma events_fail_until_cleared:
  "fail_events k = Some e \<Longrightarrow> store_events body k = (k, Inl e)"
  by (simp add: store_events_def)

text \<open>A playback finished while nobody waited leaves its permit behind, and the next clip ends at once.\<close>
lemma stale_permit_ends_next_clip:
  "sink_playing k = None \<Longrightarrow>
   (let (k1, _) = mock_play src (finish_playback k) in
    mock_wait_for_end k1 = Some (k1\<lparr>end_permit := False, sink_playing := None\<rparr>, Inr ()))"
  by (simp add: mock_play_def mock_wait_for_end_def finish_playback_def)

datatype PortOp = PushOp GpioEdge | NextOp

text \<open>The port with its two ends: what has been received, and the edges whose push has returned.\<close>

definition port_step :: "MockPort \<times> GpioEdge list \<times> GpioEdge list \<Rightarrow> PortOp \<Rightarrow> MockPort \<times> GpioEdge list \<times> GpioEdge list" where
  "port_step st op = (case st of (p, pushed, taken) \<Rightarrow> (case op of
     PushOp e \<Rightarrow>
       (case push_send e (push_begin e p) of
          Some p' \<Rightarrow> (p', pushed @ [e], taken)
        | None \<Rightarrow> (push_begin e p, pushed, taken))
   | NextOp \<Rightarrow>
       (case mock_next_edge p of
          Some (p', Inr e) \<Rightarrow> (p', pushed, taken @ [e])
        | Some (p', Inl _) \<Rightarrow> (p', pushed, taken)
        | None \<Rightarrow> st)))"

fun hook_offered :: "bool \<Rightarrow> PortOp \<Rightarrow> bool" where
  "hook_offered h (PushOp e) = (if role e = Hook then level e else h)"
| "hook_offered h NextOp = h"

text \<open>The port is a bounded first-in first-out channel that publishes what it takes: every edge whose push has
  returned was published, and has been received in order or still waits, with at most sixty-four
  waiting; the hook can be read at any time and is that of the last hook edge offered.\<close>
theorem mock_port_is_fifo:
  "case foldl port_step (mock_port_new, [], []) ops of (p, pushed, taken) \<Rightarrow>
     taken @ port_queue p = pushed \<and> port_bus p = map GpioEdgeEvent pushed \<and>
     length (port_queue p) \<le> PORT_CAPACITY \<and>
     mock_snapshot Hook p = Inr (foldl hook_offered True ops)"
proof -
  have "case foldl port_step (mock_port_new, [], []) ops of (p, pushed, taken) \<Rightarrow>
     port_open p \<and> taken @ port_queue p = pushed \<and> port_bus p = map GpioEdgeEvent pushed \<and>
     length (port_queue p) \<le> PORT_CAPACITY \<and>
     hook_flag p = foldl hook_offered True ops"
  proof (induction ops rule: rev_induct)
    case Nil
    then show ?case by (simp add: mock_port_new_def)
  next
    case (snoc op ops)
    then show ?case
      by (cases op) (auto simp: port_step_def push_send_def push_begin_def mock_next_edge_def
          split: prod.splits list.splits option.splits if_splits sum.splits)
  qed
  then show ?thesis
    by (auto simp: mock_snapshot_def)
qed

end
