(* ===== verification/Spec2Isabelle.thy ===== *)
theory Spec2Isabelle
  imports CoreSpec Flac Redact GpioTask Installation AudioFetch OperatorCalls Effects Replay Config
    FileStorage Forwarder DebugAccess DebugViews Outputs Recorder Collectors Simulator MockAdapters
begin

text \<open>
  A verification library for the Telephone Booth firmware, a Rust workspace: an old rotary
  phone on a Raspberry Pi that asks a caller questions, records the answers and uploads
  them to a web operator.

  \<^bold>\<open>How the program is put together.\<close> GPIO edges (\<open>booth-pi\<close>) become events of a pure state
  machine (\<open>booth-core\<close>); the machine answers each event with a list of effects (play, record,
  start a timer, upload, fetch, set the status LED) which the runtime (\<open>booth-bin\<close>) carries out
  against adapters behind the traits of \<open>booth-hal\<close>; what the effects lead to (a timer, the end
  of a playback, an upload's result) returns as further events. Beside that loop run the
  admission gate, which an operator can close between exhibitions, the telemetry bus with its
  spool of undelivered batches, and the spool of answers that could not be uploaded yet.

  \<^bold>\<open>Theories and sources.\<close>

  \<^item> \<open>Prelude\<close>: machine integers, decimal printing, and the locales the components share:
    \<open>machine_invariant\<close>, \<open>machine_refinement\<close>, \<open>machine_observer\<close>, \<open>machine_monitor\<close> and
    \<open>bounded_fifo\<close>. \<open>Strings\<close>: the string operations of the standard library the code uses.
  \<^item> \<open>Hal\<close>: the data of \<open>crates/booth-hal/src/lib.rs\<close>; \<open>Redact\<close>: its \<open>redact_url\<close>.
  \<^item> \<open>Core\<close>, \<open>CoreSpec\<close>: \<open>crates/booth-core/src/lib.rs\<close>. \<open>handle_inner\<close> is split into
    consecutive groups of the arms of the one \<open>match\<close> of the source; \<open>CoreSpec\<close> states what the machine
    promises through observers of its effects.
  \<^item> \<open>Gpio\<close>: the configuration of \<open>crates/booth-pi/src/lib.rs\<close> and the debounced poller of
    \<open>crates/booth-pi/src/gpio.rs\<close>. \<open>GpioTask\<close>: \<open>gpio_task\<close> and \<open>power_button_task\<close> of
    \<open>crates/booth-bin/src/lib.rs\<close>, which turn edges into the events of \<open>Core\<close>.
  \<^item> \<open>Installation\<close>: \<open>crates/booth-bin/src/installation.rs\<close>, the admission gate, its reconciler
    and the gated operator client.
  \<^item> Of the runtime, \<open>crates/booth-bin/src/lib.rs\<close>: \<open>Runtime\<close> has the main loop (\<open>handle_event\<close>,
    \<open>run_runtime\<close>) and \<open>audio_task\<close>; \<open>Effects\<close> has \<open>effect_task\<close>, which runs the machine's effects in a
    bounded pool; \<open>OperatorCalls\<close> has \<open>retry_operator\<close>, the upload of a recording and the three fetches;
    \<open>Replay\<close> the task that uploads what is still pending; \<open>Config\<close> the validation of the configuration,
    its overrides from the environment and the watchdog.
  \<^item> \<open>Telemetry\<close>: \<open>crates/booth-telemetry/src/lib.rs\<close>. \<open>EventSpool\<close>, \<open>SpoolSplit\<close>:
    \<open>crates/booth-bin/src/event_spool.rs\<close>. \<open>Sessions\<close>, \<open>Forwarder\<close>:
    \<open>crates/booth-bin/src/observability.rs\<close>, first the call sessions, the envelopes and the heartbeat,
    then the task that forwards, spills and replays them.
  \<^item> \<open>FileStorage\<close>: \<open>crates/booth-bin/src/file_storage.rs\<close>, with the locale \<open>key_value\<close>.
  \<^item> \<open>PendingUploads\<close>: \<open>crates/booth-bin/src/pending_uploads.rs\<close>.
  \<^item> \<open>AudioFetch\<close>: \<open>crates/booth-pi/src/url_policy.rs\<close> and the remote branch of
    \<open>PiAudioSink::play\<close> in \<open>crates/booth-pi/src/audio.rs\<close>.
  \<^item> \<open>Flac\<close>: \<open>crates/booth-pi/src/flac_frame.rs\<close>.
  \<^item> \<open>OperatorClient\<close>: \<open>crates/booth-pi/src/operator.rs\<close>, the HTTP client behind the operator's port;
    \<open>Calendar\<close> has the date arithmetic of its timestamps.
  \<^item> \<open>Outputs\<close>: \<open>status_led.rs\<close>, \<open>mixer.rs\<close> and \<open>power.rs\<close> of \<open>crates/booth-pi/src\<close>.
  \<^item> \<open>DebugAccess\<close>, \<open>DebugViews\<close>: \<open>crates/booth-debug/src/lib.rs\<close>, first who is let in and what a client
    may do, then what it is shown.
  \<^item> \<open>Playback\<close>, \<open>Recorder\<close>: \<open>crates/booth-pi/src/audio.rs\<close>, from a source of audio to the samples a device
    plays, and from its input to a finished FLAC file and its entry in the key-value store.
  \<^item> \<open>Metrics\<close>: \<open>crates/booth-metrics/src/lib.rs\<close>, what every event and reading asks of the registry, and
    the system sampler. \<open>Collectors\<close>: \<open>crates/booth-bin/src/weather.rs\<close> and \<open>shelly.rs\<close>.
  \<^item> \<open>Attach\<close>: of \<open>crates/booth-bin/src/simulator.rs\<close> the connection to a running booth (token, URL,
    certificate, reconnecting socket). \<open>Simulator\<close>: its state, keys and loop, and the choice of
    the mode in \<open>crates/booth-bin/src/main.rs\<close>.
  \<^item> \<open>MockAdapters\<close>: \<open>crates/booth-mock/src/lib.rs\<close>, with a second interpretation of \<open>key_value\<close>.
\<close>

text \<open>
  \<^bold>\<open>What the lemmas show.\<close>

  \<^item> \<open>CoreSpec\<close>: a finished recording is uploaded exactly once and its id reaches the operator;
    the machine tracks the handset; LED, recording timer and pulse timer agree with the state
    after every run of events; a paused booth starts no call; a hung-up booth returns to idle.
  \<^item> \<open>Flac\<close>: the pass changes all frames or none, the frames it repairs have the right code and
    checksums, a second pass changes nothing, and the table-driven checksums are the
    bit-by-bit ones.
  \<^item> \<open>Redact\<close>: what a logged URL cannot contain, and the inputs on which secrets remain.
  \<^item> \<open>Telemetry\<close>, \<open>EventSpool\<close>: both buffers are bounded first-in first-out queues
    (interpretations of \<open>bounded_fifo\<close>); ids have no gap or duplicate however publishers
    interleave; a late subscriber catches up.
  \<^item> \<open>Runtime\<close>, \<open>Effects\<close>: the loop runs exactly the machine, the dispatcher keeps the order of operator
    effects and never delays the others, its timer follows the machine's state, a fetch abandoned
    while it waits is discarded (and the two gaps in that guard).
  \<^item> \<open>OperatorCalls\<close>, \<open>Replay\<close>: at most three attempts with doubling pauses; the spool entry of an
    answer goes only when the operator confirmed the upload; sweeps are fair in an outage.
  \<^item> \<open>Sessions\<close>, \<open>SpoolSplit\<close>, \<open>Forwarder\<close>: sessions follow the machine, event ids are consecutive,
    requests are bounded, and no event is lost to a failing disk or a shutdown.
  \<^item> \<open>Config\<close>, \<open>FileStorage\<close>: what a valid configuration guarantees; the storage directory is a map.
  \<^item> \<open>Gpio\<close>, \<open>GpioTask\<close>: reported edges are stable for the debounce time, the last level is
    never lost even when the channel is full, the core's idea of the hook follows the adapter,
    and the machine is powered off only by a deliberate hold.
  \<^item> \<open>Installation\<close>: admission needs a fresh confirmation, inactivity is sticky, and a call
    through the gated client never uses a result from before a revocation.
  \<^item> \<open>PendingUploads\<close>: an enqueue that fails or is cut off at any file-system call leaves the
    other answers, and an enqueued answer stays until it is dequeued.
  \<^item> \<open>AudioFetch\<close>: bytes that are decoded come from an admissible URL, are bounded, and match
    the checksum when one is given.
  \<^item> \<open>OperatorClient\<close>, \<open>Calendar\<close>: how an answer's status becomes an error, how often an upload is
    tried in all, which upload URLs are refused, and that dates are counted right.
  \<^item> \<open>Outputs\<close>: the LED shows one colour at a time and stays under its ceiling; volumes are in range.
  \<^item> \<open>DebugAccess\<close>, \<open>DebugViews\<close>: what is guarded needs the token, a live booth takes no simulated input,
    the views show the newest record, a telemetry socket misses nothing.
  \<^item> \<open>Playback\<close>, \<open>Recorder\<close>: a clip is heard whole and its end is awaited exactly when it has one, levels
    are well formed, tearing down ends; a recording is the input up to its limit, its file appears
    complete or not at all, and it is found again until it is cleaned up.
  \<^item> \<open>Metrics\<close>, \<open>Collectors\<close>: counters count the events and balance, snapshots have the latest readings,
    and no implausible weather is reported.
  \<^item> \<open>Attach\<close>, \<open>Simulator\<close>: the token goes to the booth only; reconnecting is paced, resumes at the newest
    record and leaves the view as if nothing had happened (unless the replay itself was cut off); the
    keyboard dials what it says, and watching never acts.
  \<^item> \<open>MockAdapters\<close>: the mocked port is a bounded FIFO channel, the mocked store the same map as the one on disk.

  \<^bold>\<open>Conventions.\<close> Machine integers are words; sizes and clock readings that the code computes
  with in \<open>Duration\<close>, \<open>Instant\<close> or \<open>usize\<close> are naturals, the platform's bound being an argument
  where the code checks it. Errors are \<open>Inl\<close>. Every function is total and every loop of the
  sources is a structural recursion here (or a step that is run over the list of what it
  receives), so no fuel is used. Concurrency is interleaving of atomic actions. Floating-point
  numbers that are only carried are bit patterns; audio samples, levels and the light of the LED are
  exact numbers, without the rounding of the code.

  \<^bold>\<open>What is outside.\<close> Tokio, reqwest, serde_json, url, SHA-256, the audio and GPIO crates and
  the operator service are not part of the sources: what they answer is an argument. Not modelled
  are log lines, the drawing of the terminal interface, the printout of the Tailscale status, the
  static page and JSON bodies of the debug surface, the opening of GPIO pins and the stubs for other
  targets: they are input and output only and keep no state.
\<close>

end
